(* ===== verification/Prelude.thy ===== *)
theory Prelude
  imports "HOL-Library.Word" "HOL-Library.Sublist"
begin

text \<open>
  Shared vocabulary of the development: Go strings as byte lists, and the functions of the
  Go packages \<open>strings\<close>, \<open>strconv\<close>, \<open>path/filepath\<close> and \<open>fmt\<close> that the
  program calls, written out on bytes. A Go \<open>error\<close> is \<open>Some\<close> of its message,
  \<open>nil\<close> is \<open>None\<close>. The collection \<open>go_strings\<close> has the laws of these
  functions in the vocabulary of the library.
\<close>

named_theorems go_strings

type_synonym goerr = string
type_synonym u32 = "32 word"
type_synonym u64 = "64 word"

section \<open>Prefixes, suffixes, substrings\<close>

definition HasPrefix :: "string \<Rightarrow> string \<Rightarrow> bool" where
  "HasPrefix s p \<longleftrightarrow> take (length p) s = p"

definition HasSuffix :: "string \<Rightarrow> string \<Rightarrow> bool" where
  "HasSuffix s p \<longleftrightarrow> length p \<le> length s \<and> drop (length s - length p) s = p"

definition TrimSuffix :: "string \<Rightarrow> string \<Rightarrow> string" where
  "TrimSuffix s p = (if HasSuffix s p then take (length s - length p) s else s)"

text \<open>\<open>TrimRight\<close> with a cutset of one byte, the only way the program calls it.\<close>

definition TrimRightChar :: "char \<Rightarrow> string \<Rightarrow> string" where
  "TrimRightChar c s = rev (dropWhile (\<lambda>x. x = c) (rev s))"

fun Contains :: "string \<Rightarrow> string \<Rightarrow> bool" where
  "Contains [] sub = (sub = [])"
| "Contains (c # cs) sub = (HasPrefix (c # cs) sub \<or> Contains cs sub)"

lemma HasPrefix_prefix [go_strings]: "HasPrefix s p \<longleftrightarrow> prefix p s"
  by (metis HasPrefix_def append_eq_conv_conj append_take_drop_id prefix_def)

lemma HasSuffix_suffix [go_strings]: "HasSuffix s p \<longleftrightarrow> suffix p s"
proof
  assume "HasSuffix s p"
  then have "s = take (length s - length p) s @ p"
    by (metis HasSuffix_def append_take_drop_id)
  then show "suffix p s" by (rule suffixI)
next
  assume "suffix p s"
  then obtain r where "s = r @ p" by (rule suffixE)
  then show "HasSuffix s p" by (simp add: HasSuffix_def)
qed

lemma Contains_sublist [go_strings]: "Contains s sub \<longleftrightarrow> sublist sub s"
  by (induction s) (auto simp: HasPrefix_prefix sublist_Cons_right)

lemma HasSuffix_append [simp]: "HasSuffix (s @ p) p"
  by (simp add: HasSuffix_def)

lemma HasPrefix_append [simp]: "HasPrefix (p @ s) p" "HasPrefix p p"
  by (simp_all add: HasPrefix_def)

lemma Contains_append_middle: "Contains (xs @ sub @ ys) sub"
  by (auto simp: Contains_sublist)

lemma TrimRightChar_no_suffix: "\<not> HasSuffix (TrimRightChar c s) [c]"
proof
  assume "HasSuffix (TrimRightChar c s) [c]"
  then obtain r where "TrimRightChar c s = r @ [c]"
    by (auto simp: HasSuffix_suffix suffix_def)
  then have "dropWhile (\<lambda>x. x = c) (rev s) = c # rev r"
    by (simp add: TrimRightChar_def) (metis rev_rev_ident rev.simps(2))
  then show False
    by (metis (full_types) hd_dropWhile list.distinct(1) list.sel(1))
qed

text \<open>Subsequences of a list.\<close>

lemma subseq_distinct: "subseq xs ys \<Longrightarrow> distinct ys \<Longrightarrow> distinct xs"
  by (auto simp: subseq_conv_nths)

lemma subseq_set: "subseq xs ys \<Longrightarrow> set xs \<subseteq> set ys"
  by (auto simp: subseq_conv_nths dest: in_set_nthsD)

lemma subseq_pair_snoc: "subseq [x, y] (xs @ [z]) \<Longrightarrow> z \<noteq> y \<Longrightarrow> subseq [x, y] xs"
  by (induction xs) (auto simp: subseq_singleton_left split: if_splits)

section \<open>Splitting and joining\<close>

text \<open>\<open>strings.Split\<close> with a separator of one byte.\<close>

fun split_on :: "char \<Rightarrow> string \<Rightarrow> string list" where
  "split_on sep [] = [[]]"
| "split_on sep (c # cs) =
     (if c = sep then [] # split_on sep cs
      else (case split_on sep cs of [] \<Rightarrow> [[c]] | w # ws \<Rightarrow> (c # w) # ws))"

text \<open>\<open>strings.SplitN\<close> with a separator of one byte and a limit of two parts.\<close>

definition split_two :: "char \<Rightarrow> string \<Rightarrow> string list" where
  "split_two sep s =
     (case dropWhile (\<lambda>c. c \<noteq> sep) s of
        [] \<Rightarrow> [s]
      | _ # rest \<Rightarrow> [takeWhile (\<lambda>c. c \<noteq> sep) s, rest])"

fun join :: "string \<Rightarrow> string list \<Rightarrow> string" where
  "join sep [] = []"
| "join sep [w] = w"
| "join sep (w # v # ws) = w @ sep @ join sep (v # ws)"

lemma split_on_not_Nil [simp]: "split_on sep s \<noteq> []"
  by (cases s) (auto split: list.splits)

lemma join_Cons: "ws \<noteq> [] \<Longrightarrow> join sep (w # ws) = w @ sep @ join sep ws"
  by (cases ws) auto

lemma join_hd_Cons: "join sep ((c # w) # ws) = c # join sep (w # ws)"
  by (cases ws) auto

theorem join_split_on [go_strings]: "join [sep] (split_on sep s) = s"
proof (induction s)
  case Nil
  then show ?case by simp
next
  case (Cons c cs)
  obtain w ws where "split_on sep cs = w # ws"
    by (meson neq_Nil_conv split_on_not_Nil)
  with Cons show ?case by (simp add: join_Cons join_hd_Cons)
qed

lemma split_on_no_sep: "w \<in> set (split_on sep s) \<Longrightarrow> sep \<notin> set w"
  by (induction s arbitrary: w) (fastforce split: if_splits list.splits)+

lemma split_on_fresh: "sep \<notin> set s \<Longrightarrow> split_on sep s = [s]"
  by (induction s) auto

lemma split_on_append_sep:
  "sep \<notin> set w \<Longrightarrow> split_on sep (w @ sep # s) = w # split_on sep s"
  by (induction w) auto

theorem split_on_join [go_strings]:
  "ws \<noteq> [] \<Longrightarrow> \<forall>w\<in>set ws. sep \<notin> set w \<Longrightarrow> split_on sep (join [sep] ws) = ws"
proof (induction ws)
  case Nil
  then show ?case by simp
next
  case (Cons w ws)
  then show ?case
    by (cases "ws = []") (simp_all add: split_on_fresh join_Cons split_on_append_sep)
qed

lemma split_two_no_sep: "sep \<notin> set s \<Longrightarrow> split_two sep s = [s]"
proof -
  assume "sep \<notin> set s"
  then have "dropWhile (\<lambda>c. c \<noteq> sep) s = []" by (auto simp: dropWhile_eq_Nil_conv)
  then show ?thesis by (simp add: split_two_def del: dropWhile_eq_Nil_conv)
qed

lemma split_two_append:
  "sep \<notin> set a \<Longrightarrow> split_two sep (a @ sep # b) = [a, b]"
  by (induction a) (auto simp: split_two_def split: list.splits)

lemma split_two_sep:
  assumes "sep \<in> set s"
  obtains a b where "s = a @ sep # b" and "sep \<notin> set a"
    and "split_two sep s = [a, b]"
  using assms by (metis split_list_first split_two_append)

section \<open>White space\<close>

text \<open>
  The UTF-8 encodings of the runes for which \<open>unicode.IsSpace\<close> holds. None of
  their lead bytes is a UTF-8 continuation byte, so a walk over bytes finds exactly the
  white space that Go's walk over runes finds.
\<close>

definition space_runes :: "string list" where
  "space_runes =
     [[CHR 0x09], [CHR 0x0A], [CHR 0x0B], [CHR 0x0C], [CHR 0x0D], [CHR 0x20],
      [CHR 0xC2, CHR 0x85], [CHR 0xC2, CHR 0xA0], [CHR 0xE1, CHR 0x9A, CHR 0x80],
      [CHR 0xE2, CHR 0x80, CHR 0x80], [CHR 0xE2, CHR 0x80, CHR 0x81],
      [CHR 0xE2, CHR 0x80, CHR 0x82], [CHR 0xE2, CHR 0x80, CHR 0x83],
      [CHR 0xE2, CHR 0x80, CHR 0x84], [CHR 0xE2, CHR 0x80, CHR 0x85],
      [CHR 0xE2, CHR 0x80, CHR 0x86], [CHR 0xE2, CHR 0x80, CHR 0x87],
      [CHR 0xE2, CHR 0x80, CHR 0x88], [CHR 0xE2, CHR 0x80, CHR 0x89],
      [CHR 0xE2, CHR 0x80, CHR 0x8A], [CHR 0xE2, CHR 0x80, CHR 0xA8],
      [CHR 0xE2, CHR 0x80, CHR 0xA9], [CHR 0xE2, CHR 0x80, CHR 0xAF],
      [CHR 0xE2, CHR 0x81, CHR 0x9F], [CHR 0xE3, CHR 0x80, CHR 0x80]]"

text \<open>Length of the white-space rune a string starts (ends) with; 0 when there is none.\<close>

definition space_at_start :: "string \<Rightarrow> nat" where
  "space_at_start s =
     (case find (HasPrefix s) space_runes of None \<Rightarrow> 0 | Some r \<Rightarrow> length r)"

definition space_at_end :: "string \<Rightarrow> nat" where
  "space_at_end s =
     (case find (HasSuffix s) space_runes of None \<Rightarrow> 0 | Some r \<Rightarrow> length r)"

lemma find_Some_set: "find P xs = Some x \<Longrightarrow> P x \<and> x \<in> set xs"
  by (induction xs) (auto split: if_splits)

lemma space_runes_not_Nil: "r \<in> set space_runes \<Longrightarrow> r \<noteq> []"
  by (auto simp: space_runes_def)

lemma space_at_end_le: "space_at_end s \<le> length s"
  by (auto simp: space_at_end_def HasSuffix_def split: option.splits dest!: find_Some_set)

text \<open>\<open>strings.Fields\<close>: the maximal runs of non-space runes; \<open>cur\<close> is reversed.\<close>

function fields_loop :: "string \<Rightarrow> string \<Rightarrow> string list" where
  "fields_loop cur [] = (if cur = [] then [] else [rev cur])"
| "fields_loop cur (c # cs) =
     (case space_at_start (c # cs) of
        0 \<Rightarrow> fields_loop (c # cur) cs
      | Suc k \<Rightarrow> (if cur = [] then [] else [rev cur]) @ fields_loop [] (drop k cs))"
  by pat_completeness auto
termination
  by (relation "measure (\<lambda>(cur, s). length s)") auto

definition Fields :: "string \<Rightarrow> string list" where
  "Fields s = fields_loop [] s"

function trim_left :: "string \<Rightarrow> string" where
  "trim_left [] = []"
| "trim_left (c # cs) =
     (case space_at_start (c # cs) of 0 \<Rightarrow> c # cs | Suc k \<Rightarrow> trim_left (drop k cs))"
  by pat_completeness auto
termination
  by (relation "measure length") auto

function trim_right :: "string \<Rightarrow> string" where
  "trim_right s =
     (case space_at_end s of
        0 \<Rightarrow> s
      | Suc k \<Rightarrow> trim_right (take (length s - Suc k) s))"
  by pat_completeness auto
termination
proof (relation "measure length", simp)
  fix s k assume "space_at_end s = Suc k"
  with space_at_end_le [of s] have "0 < length s" by linarith
  then show "(take (length s - Suc k) s, s) \<in> measure length" by simp
qed

declare trim_right.simps [simp del]

definition TrimSpace :: "string \<Rightarrow> string" where
  "TrimSpace s = trim_right (trim_left s)"

lemma fields_loop_nonempty: "w \<in> set (fields_loop cur s) \<Longrightarrow> w \<noteq> []"
  by (induction cur s rule: fields_loop.induct) (auto split: nat.splits if_splits)

lemma Fields_nonempty [go_strings]: "w \<in> set (Fields s) \<Longrightarrow> w \<noteq> []"
  by (simp add: Fields_def fields_loop_nonempty)

lemma trim_right_prefix: "prefix (trim_right s) s"
proof (induction s rule: trim_right.induct)
  case (1 s)
  show ?case
    by (subst trim_right.simps)
      (auto split: nat.splits intro: prefix_order.trans [OF "1.IH"] take_is_prefix)
qed

lemma trim_right_no_space: "space_at_end (trim_right s) = 0"
proof (induction s rule: trim_right.induct)
  case (1 s)
  then show ?case
    by (cases "space_at_end s") (simp_all add: trim_right.simps [of s])
qed

section \<open>Decimal numbers\<close>

definition digit_char :: "nat \<Rightarrow> char" where
  "digit_char d = char_of (48 + d)"

definition is_digit :: "char \<Rightarrow> bool" where
  "is_digit c \<longleftrightarrow> 48 \<le> (of_char c :: nat) \<and> (of_char c :: nat) \<le> 57"

definition digit_val :: "char \<Rightarrow> nat" where
  "digit_val c = of_char c - 48"

text \<open>\<open>fmt\<close>'s \<open>%d\<close> on an unsigned integer.\<close>

fun show_nat :: "nat \<Rightarrow> string" where
  "show_nat n = (if n < 10 then [digit_char n] else show_nat (n div 10) @ [digit_char (n mod 10)])"

declare show_nat.simps [simp del]

definition max_uint64 :: nat where
  "max_uint64 = 18446744073709551615"

text \<open>
  \<open>strconv.ParseUint(s, 10, 64)\<close>: the value it returns, and whether the error is nil.
  A syntax error returns 0 and a range error the largest value; the loop stops at the
  first of them it meets, as Go's does.
\<close>

fun parse_uint_loop :: "nat \<Rightarrow> string \<Rightarrow> nat \<times> bool" where
  "parse_uint_loop n [] = (n, True)"
| "parse_uint_loop n (c # cs) =
     (if \<not> is_digit c then (0, False)
      else if n \<ge> max_uint64 div 10 + 1 then (max_uint64, False)
      else if n * 10 + digit_val c > max_uint64 then (max_uint64, False)
      else parse_uint_loop (n * 10 + digit_val c) cs)"

definition ParseUint :: "string \<Rightarrow> nat \<times> bool" where
  "ParseUint s = (if s = [] then (0, False) else parse_uint_loop 0 s)"

text \<open>The value of a digit string, without bounds.\<close>

definition dec_value :: "nat \<Rightarrow> string \<Rightarrow> nat" where
  "dec_value n s = foldl (\<lambda>a c. a * 10 + digit_val c) n s"

lemma digit_char_props [simp]:
  "d < 10 \<Longrightarrow> is_digit (digit_char d)" "d < 10 \<Longrightarrow> digit_val (digit_char d) = d"
  by (simp_all add: is_digit_def digit_val_def digit_char_def)

lemma dec_value_ge: "n \<le> dec_value n s"
proof (induction s arbitrary: n)
  case Nil
  then show ?case by (simp add: dec_value_def)
next
  case (Cons c cs)
  have "n \<le> n * 10 + digit_val c" by simp
  also have "\<dots> \<le> dec_value (n * 10 + digit_val c) cs" by (rule Cons.IH)
  finally show ?case by (simp add: dec_value_def)
qed

lemma dec_value_simps [simp]:
  "dec_value n [] = n" "dec_value n (c # cs) = dec_value (n * 10 + digit_val c) cs"
  "dec_value n (xs @ ys) = dec_value (dec_value n xs) ys"
  by (simp_all add: dec_value_def)

theorem parse_uint_loop_digits:
  "list_all is_digit s \<Longrightarrow> n \<le> max_uint64 \<Longrightarrow>
   parse_uint_loop n s = (min (dec_value n s) max_uint64, dec_value n s \<le> max_uint64)"
proof (induction s arbitrary: n)
  case Nil
  then show ?case by simp
next
  case (Cons c cs)
  let ?m = "n * 10 + digit_val c"
  show ?case
  proof (cases "?m > max_uint64")
    case True
    then have "max_uint64 < dec_value ?m cs"
      using dec_value_ge [of ?m cs] by simp
    with True Cons.prems show ?thesis by auto
  next
    case False
    then have "n < max_uint64 div 10 + 1" by (simp add: max_uint64_def)
    with False Cons show ?thesis by simp
  qed
qed

lemma show_nat_digits: "list_all is_digit (show_nat n)"
  by (induction n rule: show_nat.induct) (subst show_nat.simps, simp)

lemma show_nat_not_Nil [simp]: "show_nat n \<noteq> []"
  by (subst show_nat.simps) simp

lemma dec_value_show_nat: "dec_value 0 (show_nat n) = n"
  by (induction n rule: show_nat.induct) (subst show_nat.simps, simp)

theorem ParseUint_show_nat [go_strings]:
  "n \<le> max_uint64 \<Longrightarrow> ParseUint (show_nat n) = (n, True)"
  by (simp add: ParseUint_def parse_uint_loop_digits show_nat_digits dec_value_show_nat
      max_uint64_def)

lemma ParseUint_bound: "fst (ParseUint s) \<le> max_uint64"
proof -
  have "n \<le> max_uint64 \<Longrightarrow> fst (parse_uint_loop n t) \<le> max_uint64" for n t
    by (induction n t rule: parse_uint_loop.induct) auto
  then show ?thesis by (simp add: ParseUint_def)
qed

lemma show_nat_inject: "show_nat m = show_nat n \<longleftrightarrow> m = n"
  by (metis dec_value_show_nat)

section \<open>Flags and the environment\<close>

text \<open>
  The value of a command-line flag, or of an environment variable when the flag is empty.
  \<open>getenv\<close> answers the empty string for a variable that is not set.
\<close>

definition flag_or_env :: "(string \<Rightarrow> string) \<Rightarrow> string \<Rightarrow> string \<Rightarrow> string" where
  "flag_or_env getenv flag var = (if flag = [] \<and> getenv var \<noteq> [] then getenv var else flag)"

end
