(* ===== verification/Paths.thy ===== *)
theory Paths
  imports Prelude
begin

text \<open>
  The rest of the Go library the components share: \<open>filepath.Clean\<close> and
  \<open>filepath.Join\<close> on Unix, \<open>strings.ToUpper\<close> and the \<open>%q\<close> verb of
  \<open>fmt\<close> on ASCII (beyond ASCII both read Unicode tables, which are a parameter), and
  \<open>hex.EncodeToString\<close>. The lemmas say when a path built by joining a directory and
  a name stays below the directory.
\<close>

section \<open>Clean and Join\<close>

text \<open>
  \<open>Clean\<close> reads the elements of a path from left to right: empty elements and
  \<open>.\<close> are dropped, \<open>..\<close> removes the element before it, or nothing at the
  root, or stays when there is nothing to remove. The stack holds the kept elements, last
  first.
\<close>

definition clean_step :: "bool \<Rightarrow> string \<Rightarrow> string list \<Rightarrow> string list" where
  "clean_step rooted w st =
     (if w = [] \<or> w = ''.'' then st
      else if w = ''..'' then
        (case st of
           x # xs \<Rightarrow> (if x = ''..'' then w # st else xs)
         | [] \<Rightarrow> (if rooted then [] else [w]))
      else w # st)"

definition path_clean :: "string \<Rightarrow> string" where
  "path_clean p =
     (if p = [] then ''.''
      else
        let rooted = HasPrefix p ''/'';
            body = join ''/'' (rev (fold (clean_step rooted) (split_on (CHR ''/'') p) []))
        in if rooted then ''/'' @ body else if body = [] then ''.'' else body)"

definition path_join :: "string list \<Rightarrow> string" where
  "path_join elems =
     (case dropWhile (\<lambda>e. e = []) elems of
        [] \<Rightarrow> []
      | e # es \<Rightarrow> path_clean (join ''/'' (e # es)))"

text \<open>An element that \<open>Clean\<close> keeps as it is.\<close>

definition plain_name :: "string \<Rightarrow> bool" where
  "plain_name d \<longleftrightarrow> d \<noteq> [] \<and> d \<noteq> ''.'' \<and> d \<noteq> ''..'' \<and> CHR ''/'' \<notin> set d"

text \<open>A path is below a directory when it extends it by at least one further element.\<close>

definition below :: "string \<Rightarrow> string \<Rightarrow> bool" where
  "below dir p \<longleftrightarrow> HasPrefix p (dir @ ''/'') \<and> length dir + 1 < length p"

lemma split_on_append [go_strings]:
  "split_on sep (a @ sep # b) = split_on sep a @ split_on sep b"
proof (induction a)
  case Nil
  then show ?case by simp
next
  case (Cons c cs)
  obtain w ws where "split_on sep cs = w # ws"
    by (meson neq_Nil_conv split_on_not_Nil)
  with Cons show ?case by simp
qed

lemma join_snoc: "ws \<noteq> [] \<Longrightarrow> join sep (ws @ [w]) = join sep ws @ sep @ w"
proof (induction ws)
  case Nil
  then show ?case by simp
next
  case (Cons a ws)
  then show ?case by (cases "ws = []") (simp_all add: join_Cons)
qed

lemma clean_step_plain [simp]: "plain_name w \<Longrightarrow> clean_step r w st = w # st"
  by (auto simp: clean_step_def plain_name_def)

lemma fold_clean_plain:
  "\<forall>w\<in>set ws. plain_name w \<Longrightarrow> fold (clean_step r) ws st = rev ws @ st"
  by (induction ws arbitrary: st) auto

text \<open>What \<open>Clean\<close> makes of a rooted path: a root and plain elements only.\<close>

lemma fold_clean_rooted:
  "\<forall>w\<in>set ws. CHR ''/'' \<notin> set w \<Longrightarrow> \<forall>w\<in>set st. plain_name w \<Longrightarrow>
   w \<in> set (fold (clean_step True) ws st) \<Longrightarrow> plain_name w"
proof (induction ws arbitrary: st)
  case Nil
  then show ?case by simp
next
  case (Cons x ws)
  have "\<forall>w\<in>set (clean_step True x st). plain_name w"
    using Cons.prems(1,2) by (auto simp: clean_step_def plain_name_def split: list.splits)
  with Cons show ?case by simp
qed

definition clean_elems :: "string \<Rightarrow> string list" where
  "clean_elems p = rev (fold (clean_step True) (split_on (CHR ''/'') p) [])"

lemma clean_elems_plain: "w \<in> set (clean_elems p) \<Longrightarrow> plain_name w"
  by (auto simp: clean_elems_def split_on_no_sep intro: fold_clean_rooted [rotated 2])

lemma path_clean_rooted:
  "HasPrefix p ''/'' \<Longrightarrow> path_clean p = ''/'' @ join ''/'' (clean_elems p)"
  by (auto simp: path_clean_def clean_elems_def Let_def HasPrefix_def)

lemma clean_elems_of_join:
  assumes "\<forall>w\<in>set ws. plain_name w"
  shows "clean_elems (''/'' @ join ''/'' ws) = ws"
proof (cases "ws = []")
  case True
  then show ?thesis by (simp add: clean_elems_def clean_step_def)
next
  case False
  with assms have "split_on (CHR ''/'') (join ''/'' ws) = ws"
    by (intro split_on_join) (auto simp: plain_name_def)
  with assms show ?thesis
    by (simp add: clean_elems_def clean_step_def fold_clean_plain)
qed

theorem path_clean_idem:
  assumes "HasPrefix p ''/''"
  shows "path_clean (path_clean p) = path_clean p"
  using assms clean_elems_of_join [of "clean_elems p"] clean_elems_plain [of _ p]
  by (simp add: path_clean_rooted [of p] path_clean_rooted [of "''/'' @ _", simplified]
      HasPrefix_def)

text \<open>Joining a clean directory and one plain name appends the name.\<close>

lemma path_clean_append:
  assumes base: "HasPrefix base ''/''" "path_clean base = base" "base \<noteq> ''/''"
    and "plain_name d"
  shows "path_clean (base @ ''/'' @ d) = base @ ''/'' @ d"
proof -
  have elems: "clean_elems (base @ ''/'' @ d) = clean_elems base @ [d]"
    using \<open>plain_name d\<close>
    by (simp add: clean_elems_def split_on_append split_on_fresh plain_name_def
        clean_step_plain [unfolded plain_name_def])
  have "clean_elems base \<noteq> []"
    using base path_clean_rooted [of base] by auto
  moreover have "HasPrefix (base @ ''/'' @ d) ''/''"
    using base(1) by (simp add: HasPrefix_prefix)
  ultimately have "path_clean (base @ ''/'' @ d)
      = (''/'' @ join ''/'' (clean_elems base)) @ ''/'' @ d"
    by (simp add: path_clean_rooted elems [simplified] join_snoc)
  then show ?thesis
    using path_clean_rooted [OF base(1)] base(2) by simp
qed

theorem path_join_plain:
  assumes "HasPrefix base ''/''" "path_clean base = base" "base \<noteq> ''/''"
    and "plain_name d"
  shows "path_join [base, d] = base @ ''/'' @ d"
  using assms path_clean_append [OF assms] by (auto simp: path_join_def HasPrefix_def)

text \<open>A rooted directory as the components name them, to which names can be appended.\<close>

definition clean_dir :: "string \<Rightarrow> bool" where
  "clean_dir base \<longleftrightarrow> HasPrefix base ''/'' \<and> path_clean base = base \<and> base \<noteq> ''/''"

lemma clean_dir_append:
  assumes "clean_dir base" and "plain_name d"
  shows "clean_dir (base @ ''/'' @ d)"
proof -
  have "HasPrefix (base @ ''/'' @ d) ''/''" "base \<noteq> []"
    using assms(1) by (auto simp: clean_dir_def HasPrefix_prefix)
  then show ?thesis
    using assms path_clean_append [of base d] by (cases base) (simp_all add: clean_dir_def)
qed

lemma clean_dir_join: "clean_dir base \<Longrightarrow> plain_name d \<Longrightarrow> path_join [base, d] = base @ ''/'' @ d"
  by (simp add: clean_dir_def path_join_plain)

lemma clean_dir_join2:
  assumes "clean_dir base" "plain_name d" "plain_name e"
  shows "path_join [base, d, e] = base @ ''/'' @ d @ ''/'' @ e"
proof -
  have "path_join [base, d, e] = path_clean ((base @ ''/'' @ d) @ ''/'' @ e)"
    using assms(1) by (auto simp: path_join_def clean_dir_def HasPrefix_def)
  then show ?thesis
    using clean_dir_append [OF assms(1,2)] path_clean_append [of "base @ ''/'' @ d" e] assms(3)
    by (simp add: clean_dir_def)
qed

lemma clean_dir_join_Nil:
  assumes "clean_dir base"
  shows "path_join [base, []] = base"
proof -
  have "HasPrefix (base @ ''/'') ''/''" using assms by (simp add: clean_dir_def HasPrefix_prefix)
  moreover have "clean_elems (base @ ''/'') = clean_elems base"
    using split_on_append [of "CHR ''/''" base "[]"] by (simp add: clean_elems_def clean_step_def)
  ultimately have "path_clean (base @ ''/'') = path_clean base"
    using assms path_clean_rooted [of base] path_clean_rooted [of "base @ ''/''"]
    by (simp only: clean_dir_def)
  with assms show ?thesis by (auto simp: path_join_def clean_dir_def HasPrefix_def)
qed

lemma below_append: "d \<noteq> [] \<Longrightarrow> below dir (dir @ ''/'' @ d)"
  by (simp add: below_def HasPrefix_def)

section \<open>Upper case, quoting, hexadecimal\<close>

definition is_ascii :: "string \<Rightarrow> bool" where
  "is_ascii s \<longleftrightarrow> list_all (\<lambda>c. (of_char c :: nat) < 128) s"

definition upper_char :: "char \<Rightarrow> char" where
  "upper_char c =
     (if 97 \<le> (of_char c :: nat) \<and> (of_char c :: nat) \<le> 122 then char_of ((of_char c :: nat) - 32)
      else c)"

text \<open>\<open>strings.ToUpper\<close>; \<open>uni\<close> stands for its Unicode branch.\<close>

definition ToUpper :: "(string \<Rightarrow> string) \<Rightarrow> string \<Rightarrow> string" where
  "ToUpper uni s = (if is_ascii s then map upper_char s else uni s)"

definition hex_digit :: "nat \<Rightarrow> char" where
  "hex_digit d = (if d < 10 then char_of (48 + d) else char_of (87 + d))"

definition hex_byte :: "char \<Rightarrow> string" where
  "hex_byte c = [hex_digit (of_char c div 16), hex_digit (of_char c mod 16)]"

definition hex_encode :: "string \<Rightarrow> string" where
  "hex_encode s = concat (map hex_byte s)"

definition quote_char :: "char \<Rightarrow> string" where
  "quote_char c =
     (let n = (of_char c :: nat); esc = (\<lambda>x. [CHR 0x5C, x]) in
      if n = 34 \<or> n = 92 then esc c
      else if 32 \<le> n \<and> n < 127 then [c]
      else if n = 7 then esc (CHR ''a'') else if n = 8 then esc (CHR ''b'')
      else if n = 12 then esc (CHR ''f'') else if n = 10 then esc (CHR ''n'')
      else if n = 13 then esc (CHR ''r'') else if n = 9 then esc (CHR ''t'')
      else if n = 11 then esc (CHR ''v'')
      else esc (CHR ''x'') @ hex_byte c)"

text \<open>The \<open>%q\<close> verb; \<open>uni\<close> stands for the quoting of non-ASCII text.\<close>

definition go_quote :: "(string \<Rightarrow> string) \<Rightarrow> string \<Rightarrow> string" where
  "go_quote uni s =
     (if is_ascii s then [CHR 0x22] @ concat (map quote_char s) @ [CHR 0x22] else uni s)"

lemma length_hex_encode: "length (hex_encode s) = 2 * length s"
  by (induction s) (auto simp: hex_encode_def hex_byte_def)

end
