(* ===== verification/Store.thy ===== *)
theory Store
  imports Paths
begin

text \<open>
  \<open>api/internal/store/store.go\<close>: provisioning tokens and server records in
  PostgreSQL. The connection pool is a parameter, two functions on an unknown database
  state \<open>'p\<close>; the statement texts are the constants below. What PostgreSQL documents
  about these statements under the schema of \<open>migrate\<close> is the locale
  \<open>pg_tables\<close>, over an abstraction of the state as two tables; the relational pool
  \<open>rel_pool\<close> has these laws. Hashing (SHA-256), random bytes and the clock are
  arguments.
\<close>

section \<open>Statements and the pool\<close>

datatype pgval = PgText string | PgTime int

abbreviation nlt2 :: "nat \<Rightarrow> string" where
  "nlt2 n \<equiv> CHR 0x0A # replicate n (CHR 0x09)"

definition insert_token_sql :: string where
  "insert_token_sql = ''INSERT INTO provisioning_tokens (token_hash, created_at) VALUES ($1, $2)''"

definition select_token_sql :: string where
  "select_token_sql = ''SELECT id, used_at, server_id FROM provisioning_tokens WHERE token_hash = $1''"

definition bind_token_sql :: string where
  "bind_token_sql = ''UPDATE provisioning_tokens SET used_at = $1, server_id = $2 WHERE id = $3''"

definition upsert_server_sql :: string where
  "upsert_server_sql =
     ''INSERT INTO servers (id, hostname, last_seen)'' @ nlt2 2 @ '' VALUES ($1, $2, NOW())'' @ nlt2 2
     @ '' ON CONFLICT (id) DO UPDATE SET hostname = $2, last_seen = NOW()''"

definition migrate_sql :: string where
  "migrate_sql =
     nlt2 2 @ ''CREATE TABLE IF NOT EXISTS servers (''
     @ nlt2 3 @ ''id         TEXT PRIMARY KEY,''
     @ nlt2 3 @ ''hostname   TEXT NOT NULL,''
     @ nlt2 3 @ ''created_at TIMESTAMPTZ NOT NULL DEFAULT NOW(),''
     @ nlt2 3 @ ''last_seen  TIMESTAMPTZ''
     @ nlt2 2 @ '');'' @ nlt2 0
     @ nlt2 2 @ ''CREATE TABLE IF NOT EXISTS provisioning_tokens (''
     @ nlt2 3 @ ''id          UUID PRIMARY KEY DEFAULT gen_random_uuid(),''
     @ nlt2 3 @ ''token_hash  TEXT NOT NULL UNIQUE,''
     @ nlt2 3 @ ''created_at  TIMESTAMPTZ NOT NULL DEFAULT NOW(),''
     @ nlt2 3 @ ''used_at     TIMESTAMPTZ,''
     @ nlt2 3 @ ''server_id   TEXT REFERENCES servers(id)''
     @ nlt2 2 @ '');'' @ nlt2 1"

record 'p pgpool =
  pg_exec :: "string \<Rightarrow> pgval list \<Rightarrow> 'p \<Rightarrow> goerr option \<times> 'p"
  pg_query_token :: "string \<Rightarrow> pgval list \<Rightarrow> 'p \<Rightarrow> (goerr + string \<times> int option \<times> string option) \<times> 'p"

section \<open>Operations\<close>

definition hashToken :: "(string \<Rightarrow> string) \<Rightarrow> string \<Rightarrow> string" where
  "hashToken sha256 plaintext = hex_encode (sha256 plaintext)"

text \<open>\<open>b\<close>: the eight bytes read from the random source.\<close>

definition generateID :: "string \<Rightarrow> string" where
  "generateID b = ''srv_'' @ hex_encode b"

text \<open>\<open>raw\<close>: the 32 random bytes, or the error of reading them.\<close>

definition CreateToken :: "(string \<Rightarrow> string) \<Rightarrow> 'p pgpool \<Rightarrow> goerr + string \<Rightarrow> int \<Rightarrow> 'p
    \<Rightarrow> (string \<times> goerr option) \<times> 'p" where
  "CreateToken sha256 pool raw now p =
     (case raw of
        Inl e \<Rightarrow> (([], Some e), p)
      | Inr bytes \<Rightarrow>
          (let plaintext = hex_encode bytes;
               hash = hashToken sha256 plaintext in
           case pg_exec pool insert_token_sql [PgText hash, PgTime now] p of
             (err, p') \<Rightarrow> ((plaintext, err), p')))"

definition ValidateToken :: "(string \<Rightarrow> string) \<Rightarrow> 'p pgpool \<Rightarrow> string \<Rightarrow> int \<Rightarrow> string \<Rightarrow> 'p
    \<Rightarrow> (string \<times> goerr option) \<times> 'p" where
  "ValidateToken sha256 pool b now plaintext p =
     (case pg_query_token pool select_token_sql [PgText (hashToken sha256 plaintext)] p of
        (Inl e, p1) \<Rightarrow> (([], Some ''invalid token''), p1)
      | (Inr (tokenID, usedAt, existingServerID), p1) \<Rightarrow>
          if usedAt \<noteq> None \<and> existingServerID = None
          then (([], Some ''token already used''), p1)
          else (case existingServerID of
             Some sid \<Rightarrow> ((sid, None), p1)
           | None \<Rightarrow>
               (let newID = generateID b in
                case pg_exec pool bind_token_sql [PgTime now, PgText newID, PgText tokenID] p1 of
                  (err, p2) \<Rightarrow> ((newID, err), p2))))"

definition UpsertServer :: "'p pgpool \<Rightarrow> string \<Rightarrow> string \<Rightarrow> 'p \<Rightarrow> goerr option \<times> 'p" where
  "UpsertServer pool serverID hostname p =
     pg_exec pool upsert_server_sql [PgText serverID, PgText hostname] p"

definition migrate :: "'p pgpool \<Rightarrow> 'p \<Rightarrow> goerr option \<times> 'p" where
  "migrate pool p = pg_exec pool migrate_sql [] p"

text \<open>\<open>New\<close>: the pool the driver opened and the outcome of its ping are arguments.\<close>

definition NewStore :: "goerr + 'p pgpool \<Rightarrow> goerr option \<Rightarrow> 'p \<Rightarrow> (goerr + 'p pgpool) \<times> 'p" where
  "NewStore opened ping p =
     (case opened of
        Inl e \<Rightarrow> (Inl (''open postgres: '' @ e), p)
      | Inr pool \<Rightarrow>
          (case ping of
             Some e \<Rightarrow> (Inl (''ping postgres: '' @ e), p)
           | None \<Rightarrow>
               (case migrate pool p of
                  (Some e, p') \<Rightarrow> (Inl (''migrate: '' @ e), p')
                | (None, p') \<Rightarrow> (Inr pool, p'))))"

section \<open>The tables\<close>

record token_row =
  tk_id :: string
  tk_hash :: string
  tk_created_at :: int
  tk_used_at :: "int option"
  tk_server_id :: "string option"

record tables =
  tokens :: "token_row list"
  servers :: "(string \<times> string) list"

definition server_ids :: "tables \<Rightarrow> string set" where
  "server_ids t = fst ` set (servers t)"

definition find_token :: "(token_row \<Rightarrow> bool) \<Rightarrow> tables \<Rightarrow> token_row option" where
  "find_token P t = find P (tokens t)"

definition bind_row :: "int \<Rightarrow> string \<Rightarrow> string \<Rightarrow> token_row \<Rightarrow> token_row" where
  "bind_row now sid i r =
     (if tk_id r = i then r\<lparr>tk_used_at := Some now, tk_server_id := Some sid\<rparr> else r)"

text \<open>
  The schema of \<open>migrate\<close> on tables: token identifiers and hashes are unique, and a
  server identifier of a token is one of the \<open>servers\<close> table.
\<close>

definition schema_ok :: "tables \<Rightarrow> bool" where
  "schema_ok t \<longleftrightarrow>
     distinct (map tk_id (tokens t)) \<and> distinct (map tk_hash (tokens t)) \<and>
     distinct (map fst (servers t)) \<and>
     (\<forall>r\<in>set (tokens t). \<forall>sid. tk_server_id r = Some sid \<longrightarrow> sid \<in> server_ids t)"

text \<open>
  What the statements do, from the PostgreSQL manual: tables that exist are kept as they
  are; a select returns the row with the
  hash or fails; a statement that fails changes nothing; a successful insert adds one
  unused row with the hash; a successful update changes the row with the identifier; a
  successful upsert leaves a row with the identifier; and no statement leaves a state that
  violates the schema.
\<close>

locale pg_tables =
  fixes pool :: "'p pgpool" and tabs :: "'p \<Rightarrow> tables"
  assumes migrate_keeps: "pg_exec pool migrate_sql [] p = (res0, p') \<Longrightarrow> tabs p' = tabs p"
    and select_same: "pg_query_token pool select_token_sql [PgText hash] p = (res, p') \<Longrightarrow> tabs p' = tabs p"
    and select_row: "pg_query_token pool select_token_sql [PgText hash] p = (Inr (i, u, s), p') \<Longrightarrow>
      \<exists>r. find_token (\<lambda>r. tk_hash r = hash) (tabs p) = Some r \<and>
        tk_id r = i \<and> tk_used_at r = u \<and> tk_server_id r = s"
    and exec_fail: "pg_exec pool stmt args p = (Some e, p') \<Longrightarrow> tabs p' = tabs p"
    and exec_schema: "schema_ok (tabs p) \<Longrightarrow> pg_exec pool stmt args p = (err, p') \<Longrightarrow> schema_ok (tabs p')"
    and insert_ok: "pg_exec pool insert_token_sql [PgText hash, PgTime now] p = (None, p') \<Longrightarrow>
      \<exists>i. tabs p' = (tabs p)\<lparr>tokens := tokens (tabs p) @
        [\<lparr>tk_id = i, tk_hash = hash, tk_created_at = now, tk_used_at = None, tk_server_id = None\<rparr>]\<rparr>"
    and bind_ok: "pg_exec pool bind_token_sql [PgTime now, PgText sid, PgText i] p = (None, p') \<Longrightarrow>
      tabs p' = (tabs p)\<lparr>tokens := map (bind_row now sid i) (tokens (tabs p))\<rparr>"
    and upsert_ok: "pg_exec pool upsert_server_sql [PgText sid, PgText host] p = (None, p') \<Longrightarrow>
      tokens (tabs p') = tokens (tabs p) \<and> server_ids (tabs p') = insert sid (server_ids (tabs p))"
begin

lemma find_token_SomeD: "find_token P t = Some r \<Longrightarrow> P r \<and> r \<in> set (tokens t)"
  by (auto simp: find_token_def find_Some_iff)

text \<open>The first use of a token needs the new server identifier to be in \<open>servers\<close> already.\<close>

lemma bind_needs_server:
  assumes "schema_ok (tabs p)" and "r \<in> set (tokens (tabs p))" and "tk_id r = i"
    and "pg_exec pool bind_token_sql [PgTime now, PgText sid, PgText i] p = (None, p')"
  shows "sid \<in> server_ids (tabs p)"
proof -
  have t: "tabs p' = (tabs p)\<lparr>tokens := map (bind_row now sid i) (tokens (tabs p))\<rparr>"
    using assms(4) by (rule bind_ok)
  then have "bind_row now sid i r \<in> set (tokens (tabs p'))" using assms(2) by simp
  moreover have "tk_server_id (bind_row now sid i r) = Some sid" using assms(3) by (simp add: bind_row_def)
  moreover have "schema_ok (tabs p')" using assms(1,4) by (rule exec_schema)
  ultimately have "sid \<in> server_ids (tabs p')" by (auto simp: schema_ok_def)
  then show ?thesis using t by (simp add: server_ids_def)
qed

lemma ValidateToken_no_servers:
  assumes "schema_ok (tabs p)" and "server_ids (tabs p) = {}"
  shows "snd (fst (ValidateToken sha pool b now tok p)) \<noteq> None \<and>
    tabs (snd (ValidateToken sha pool b now tok p)) = tabs p"
proof -
  obtain res p1 where q: "pg_query_token pool select_token_sql [PgText (hashToken sha tok)] p = (res, p1)"
    by fastforce
  have same: "tabs p1 = tabs p" using q by (rule select_same)
  show ?thesis
  proof (cases res)
    case (Inl e)
    then show ?thesis using q same by (simp add: ValidateToken_def)
  next
    case (Inr row)
    obtain i u s where row: "row = (i, u, s)" by (cases row)
    obtain r where r: "r \<in> set (tokens (tabs p))" "tk_id r = i" "tk_server_id r = s"
      using select_row [OF q [unfolded Inr row]] find_token_SomeD by blast
    have s: "s = None" using assms r(1,3) by (cases s) (auto simp: schema_ok_def)
    obtain err p2 where e: "pg_exec pool bind_token_sql [PgTime now, PgText (generateID b), PgText i] p1 = (err, p2)"
      by fastforce
    have "err \<noteq> None"
      using bind_needs_server [of p1 r i now "generateID b" p2] assms r same e by auto
    then show ?thesis using q Inr row s e same exec_fail [of bind_token_sql _ p1 _ p2]
      by (auto simp: ValidateToken_def Let_def)
  qed
qed

lemma CreateToken_tables:
  assumes "schema_ok (tabs p)"
  shows "schema_ok (tabs (snd (CreateToken sha pool raw now p))) \<and>
    servers (tabs (snd (CreateToken sha pool raw now p))) = servers (tabs p)"
proof (cases raw)
  case (Inl e)
  then show ?thesis using assms by (simp add: CreateToken_def)
next
  case (Inr bytes)
  obtain err p' where e: "pg_exec pool insert_token_sql
      [PgText (hashToken sha (hex_encode bytes)), PgTime now] p = (err, p')" by fastforce
  have "servers (tabs p') = servers (tabs p)"
    using insert_ok e exec_fail by (cases err) fastforce+
  then show ?thesis using Inr e exec_schema [OF assms e] by (simp add: CreateToken_def Let_def)
qed

lemma NewStore_tables: "tabs (snd (NewStore (Inr pool) ping p)) = tabs p"
  using migrate_keeps [of p "fst (migrate pool p)" "snd (migrate pool p)"]
  by (auto simp: NewStore_def migrate_def split: option.splits prod.splits)

text \<open>Binding writes the server into every row of the token; there is only one.\<close>

lemma bound_token:
  assumes ok: "schema_ok (tabs p)" and r: "find_token (\<lambda>r. tk_hash r = hash) (tabs p) = Some r"
    and t: "tokens (tabs p') = map (bind_row now sid (tk_id r)) (tokens (tabs p))"
    and r': "find_token (\<lambda>r. tk_hash r = hash) (tabs p') = Some r'"
  shows "tk_server_id r' = Some sid"
proof -
  have "r' \<in> set (tokens (tabs p'))" "tk_hash r' = hash" using find_token_SomeD [OF r'] by auto
  then obtain r0 where r0: "r0 \<in> set (tokens (tabs p))" "r' = bind_row now sid (tk_id r) r0" "tk_hash r0 = hash"
    using t by (auto simp: bind_row_def split: if_splits)
  have "r \<in> set (tokens (tabs p))" "tk_hash r = hash" using find_token_SomeD [OF r] by auto
  then have "r0 = r" using r0 ok by (auto simp: schema_ok_def distinct_map inj_on_def)
  with r0(2) show ?thesis by (simp add: bind_row_def)
qed

text \<open>A token that was bound keeps its server: validating it again gives the same identifier.\<close>

lemma validate_again_same:
  assumes ok: "schema_ok (tabs p)"
    and first: "ValidateToken sha pool b now tok p = ((sid, None), p')"
  shows "fst (ValidateToken sha pool b' now' tok p') \<in> {(sid, None), ([], Some ''invalid token'')} \<and>
    tabs (snd (ValidateToken sha pool b' now' tok p')) = tabs p'"
proof -
  let ?hash = "hashToken sha tok"
  obtain res p1 where q: "pg_query_token pool select_token_sql [PgText ?hash] p = (res, p1)"
    by fastforce
  then obtain i u s where res: "res = Inr (i, u, s)"
    using first by (cases res) (auto simp: ValidateToken_def)
  obtain r where r: "find_token (\<lambda>r. tk_hash r = ?hash) (tabs p) = Some r" "tk_id r = i"
    "tk_server_id r = s" using select_row [OF q [unfolded res]] by blast
  have same: "tabs p1 = tabs p" using q by (rule select_same)
  have bound: "\<forall>r'. find_token (\<lambda>r. tk_hash r = ?hash) (tabs p') = Some r' \<longrightarrow> tk_server_id r' = Some sid"
  proof (cases s)
    case (Some x)
    then have "x = sid" "p' = p1" using first q res by (auto simp: ValidateToken_def)
    with r same Some show ?thesis by simp
  next
    case None
    then have b: "pg_exec pool bind_token_sql [PgTime now, PgText sid, PgText i] p1 = (None, p')"
      using first q res by (auto simp: ValidateToken_def Let_def split: prod.splits if_splits)
    then have "tokens (tabs p') = map (bind_row now sid (tk_id r)) (tokens (tabs p))"
      using bind_ok [OF b] same r(2) by simp
    then show ?thesis using bound_token [OF ok r(1)] by blast
  qed
  obtain res' p2 where q': "pg_query_token pool select_token_sql [PgText ?hash] p' = (res', p2)"
    by fastforce
  have "tabs p2 = tabs p'" using q' by (rule select_same)
  then show ?thesis
  proof (cases res')
    case (Inr row)
    obtain i' u' s' where row: "row = (i', u', s')" by (cases row)
    then have "s' = Some sid" using select_row [OF q' [unfolded Inr row]] bound by blast
    then show ?thesis using q' Inr row \<open>tabs p2 = tabs p'\<close> by (simp add: ValidateToken_def)
  qed (simp add: ValidateToken_def q')
qed

end

section \<open>A relational pool\<close>

text \<open>
  The two tables with the checks of the schema, and a counter for the identifiers that
  \<open>gen_random_uuid\<close> makes. Statements other than the four fail.
\<close>

record reldb =
  db_tables :: tables
  db_next :: nat

definition rel_insert :: "string \<Rightarrow> int \<Rightarrow> reldb \<Rightarrow> goerr option \<times> reldb" where
  "rel_insert hash now db =
     (let t = db_tables db; i = show_nat (db_next db) in
      if hash \<in> tk_hash ` set (tokens t) \<or> i \<in> tk_id ` set (tokens t)
      then (Some ''duplicate key value violates unique constraint'', db)
      else (None, \<lparr>db_tables = t\<lparr>tokens := tokens t @
             [\<lparr>tk_id = i, tk_hash = hash, tk_created_at = now, tk_used_at = None, tk_server_id = None\<rparr>]\<rparr>,
           db_next = Suc (db_next db)\<rparr>))"

definition rel_bind :: "int \<Rightarrow> string \<Rightarrow> string \<Rightarrow> reldb \<Rightarrow> goerr option \<times> reldb" where
  "rel_bind now sid i db =
     (let t = db_tables db in
      if i \<in> tk_id ` set (tokens t) \<and> sid \<notin> server_ids t
      then (Some ''insert or update violates foreign key constraint'', db)
      else (None, db\<lparr>db_tables := t\<lparr>tokens := map (bind_row now sid i) (tokens t)\<rparr>\<rparr>))"

definition touch_server :: "string \<Rightarrow> string \<Rightarrow> string \<times> string \<Rightarrow> string \<times> string" where
  "touch_server sid host row = (if fst row = sid then (sid, host) else row)"

definition rel_upsert :: "string \<Rightarrow> string \<Rightarrow> reldb \<Rightarrow> goerr option \<times> reldb" where
  "rel_upsert sid host db =
     (let t = db_tables db in
      (None, db\<lparr>db_tables := t\<lparr>servers :=
        (if sid \<in> server_ids t
         then map (touch_server sid host) (servers t)
         else servers t @ [(sid, host)])\<rparr>\<rparr>))"

definition rel_exec :: "string \<Rightarrow> pgval list \<Rightarrow> reldb \<Rightarrow> goerr option \<times> reldb" where
  "rel_exec stmt args db =
     (case args of
        [] \<Rightarrow> if stmt = migrate_sql then (None, db) else (Some ''syntax error'', db)
      | [PgText hash, PgTime now] \<Rightarrow>
          if stmt = insert_token_sql then rel_insert hash now db else (Some ''syntax error'', db)
      | [PgTime now, PgText sid, PgText i] \<Rightarrow>
          if stmt = bind_token_sql then rel_bind now sid i db else (Some ''syntax error'', db)
      | [PgText sid, PgText host] \<Rightarrow>
          if stmt = upsert_server_sql then rel_upsert sid host db else (Some ''syntax error'', db)
      | _ \<Rightarrow> (Some ''syntax error'', db))"

definition rel_query :: "string \<Rightarrow> pgval list \<Rightarrow> reldb
    \<Rightarrow> (goerr + string \<times> int option \<times> string option) \<times> reldb" where
  "rel_query stmt args db =
     (case args of
        [PgText hash] \<Rightarrow>
          if stmt = select_token_sql
          then (case find_token (\<lambda>r. tk_hash r = hash) (db_tables db) of
                  None \<Rightarrow> (Inl ''no rows in result set'', db)
                | Some r \<Rightarrow> (Inr (tk_id r, tk_used_at r, tk_server_id r), db))
          else (Inl ''syntax error'', db)
      | _ \<Rightarrow> (Inl ''syntax error'', db))"

definition rel_pool :: "reldb pgpool" where
  "rel_pool = \<lparr>pg_exec = rel_exec, pg_query_token = rel_query\<rparr>"

lemma rel_insert_schema:
  "schema_ok (db_tables db) \<Longrightarrow> rel_insert hash now db = (res, db') \<Longrightarrow> schema_ok (db_tables db')"
  by (auto simp: rel_insert_def Let_def schema_ok_def server_ids_def split: if_splits)

lemma keys_unchanged [simp]:
  "tk_id \<circ> bind_row now sid i = tk_id" "tk_hash \<circ> bind_row now sid i = tk_hash"
  "fst \<circ> touch_server sid host = fst"
  by (auto simp: fun_eq_iff bind_row_def touch_server_def)

lemma rel_bind_schema:
  assumes ok: "schema_ok (db_tables db)" and "rel_bind now sid i db = (res, db')"
  shows "schema_ok (db_tables db')"
proof (cases "res = None")
  case True
  then have db': "db' = db\<lparr>db_tables := (db_tables db)\<lparr>tokens := map (bind_row now sid i) (tokens (db_tables db))\<rparr>\<rparr>"
    and sid: "i \<in> tk_id ` set (tokens (db_tables db)) \<longrightarrow> sid \<in> server_ids (db_tables db)"
    using assms(2) by (auto simp: rel_bind_def Let_def split: if_splits)
  have "\<forall>r\<in>set (tokens (db_tables db)). \<forall>x. tk_server_id (bind_row now sid i r) = Some x \<longrightarrow>
      x \<in> server_ids (db_tables db)"
    using ok sid by (auto simp: schema_ok_def bind_row_def)
  with ok show ?thesis
    unfolding db' schema_ok_def by (simp add: server_ids_def)
next
  case False
  then show ?thesis using assms by (auto simp: rel_bind_def Let_def split: if_splits)
qed

lemma server_ids_upsert:
  "server_ids (db_tables (snd (rel_upsert sid host db))) = insert sid (server_ids (db_tables db))"
  by (auto simp: rel_upsert_def server_ids_def Let_def image_comp)

lemma rel_upsert_schema:
  assumes ok: "schema_ok (db_tables db)" and "rel_upsert sid host db = (res, db')"
  shows "schema_ok (db_tables db')"
proof -
  have t: "tokens (db_tables db') = tokens (db_tables db)"
    using assms(2) by (auto simp: rel_upsert_def Let_def)
  have s: "server_ids (db_tables db') = insert sid (server_ids (db_tables db))"
    using assms(2) server_ids_upsert [of sid host db] by simp
  have "distinct (map fst (servers (db_tables db')))"
    using assms by (auto simp: rel_upsert_def Let_def schema_ok_def server_ids_def)
  with ok t s show ?thesis by (auto simp: schema_ok_def)
qed

lemma rel_exec_cases:
  assumes "rel_exec stmt args db = (res, db')"
  obtains (insert) hash now where "rel_insert hash now db = (res, db')"
  | (bind) now sid i where "rel_bind now sid i db = (res, db')"
  | (upsert) sid host where "rel_upsert sid host db = (res, db')"
  | (same) "db' = db"
  using assms by (auto simp: rel_exec_def split: list.splits pgval.splits if_splits)

lemma rel_exec_fail: "rel_exec stmt args db = (Some e, db') \<Longrightarrow> db' = db"
  by (erule rel_exec_cases)
    (auto simp: rel_insert_def rel_bind_def rel_upsert_def Let_def split: if_splits)

lemma rel_exec_schema:
  "schema_ok (db_tables db) \<Longrightarrow> rel_exec stmt args db = (res, db') \<Longrightarrow> schema_ok (db_tables db')"
  by (erule rel_exec_cases)
    (auto intro: rel_insert_schema rel_bind_schema rel_upsert_schema)

interpretation rel: pg_tables rel_pool db_tables
proof (unfold_locales, goal_cases)
  case (1 p res p')
  then show ?case by (auto simp: rel_pool_def rel_exec_def)
next
  case (2 hash p res p')
  then show ?case by (auto simp: rel_pool_def rel_query_def split: option.splits)
next
  case (3 hash p i u s p')
  then show ?case by (auto simp: rel_pool_def rel_query_def split: option.splits)
next
  case (4 stmt args p e p')
  then show ?case by (auto simp: rel_pool_def dest: rel_exec_fail)
next
  case (5 p stmt args res p')
  then show ?case by (simp add: rel_pool_def rel_exec_schema)
next
  case (6 hash now p p')
  then show ?case by (auto simp: rel_pool_def rel_exec_def rel_insert_def Let_def split: if_splits)
next
  case (7 now sid i p p')
  then show ?case by (auto simp: rel_pool_def rel_exec_def rel_bind_def Let_def split: if_splits)
next
  case (8 sid host p p')
  then show ?case using server_ids_upsert [of sid host p]
    by (auto simp: rel_pool_def rel_exec_def rel_upsert_def Let_def)
qed

end
