(* ===== verification/Float64.thy ===== *)
theory Float64
  imports Complex_Main Prelude
begin

text \<open>
  Go's \<open>float64\<close> as far as the program computes with it: conversion from
  \<open>uint64\<close>, division and multiplication of non-negative numbers whose results lie
  between \<open>2 ^ -128\<close> and \<open>2 ^ 128\<close>, far from overflow and from the subnormal
  numbers. There an operation is the exact rational result rounded to 53 significant bits,
  ties to even. The lemmas are what the metrics need: rounding is monotone, and exact on
  the numbers 0, 1 and 100.
\<close>

datatype float64 = Finite rat | PosInf | NegInf | NaN

section \<open>Rounding to 53 bits\<close>

fun bit_length :: "nat \<Rightarrow> nat" where
  "bit_length n = (if n = 0 then 0 else Suc (bit_length (n div 2)))"

declare bit_length.simps [simp del]

text \<open>The exponent \<open>e\<close> with \<open>2 ^ e \<le> x < 2 ^ (e + 1)\<close>.\<close>

definition exponent :: "rat \<Rightarrow> int" where
  "exponent x =
     (let (p, q) = quotient_of x;
          e = int (bit_length (nat p)) - int (bit_length (nat q))
      in if 2 powi e \<le> x then e else e - 1)"

definition ulp :: "rat \<Rightarrow> rat" where
  "ulp x = 2 powi (exponent x - 52)"

definition round_even :: "rat \<Rightarrow> int" where
  "round_even x =
     (let n = \<lfloor>x\<rfloor>; r = x - of_int n in
      if r < 1 / 2 then n else if r > 1 / 2 then n + 1 else if even n then n else n + 1)"

definition round53 :: "rat \<Rightarrow> rat" where
  "round53 x = (if x \<le> 0 then 0 else of_int (round_even (x / ulp x)) * ulp x)"

lemma bit_length_bounds: "0 < n \<Longrightarrow> 2 ^ (bit_length n - 1) \<le> n \<and> n < 2 ^ bit_length n"
proof (induction n rule: bit_length.induct)
  case (1 n)
  show ?case
  proof (cases "n div 2 = 0")
    case True
    with 1(2) have "n = 1" by simp
    then show ?thesis by (simp add: bit_length.simps)
  next
    case False
    with 1(2) have IH: "2 ^ (bit_length (n div 2) - 1) \<le> n div 2" "n div 2 < 2 ^ bit_length (n div 2)"
      using "1.IH" by simp_all
    have pos: "0 < bit_length (n div 2)" using False by (subst bit_length.simps) simp
    have bl: "bit_length n = Suc (bit_length (n div 2))"
      using 1(2) by (subst bit_length.simps) simp
    obtain k where k: "bit_length (n div 2) = Suc k" using pos by (cases "bit_length (n div 2)") auto
    show ?thesis using IH unfolding bl k by simp linarith
  qed
qed

lemma powi_diff_nat: "(2::rat) powi (int a - int b) = 2 ^ a / 2 ^ b"
  by (simp add: power_int_diff)

lemma quotient_bounds:
  fixes p q :: rat
  assumes a: "0 < a" "2 ^ (a - 1) \<le> p" "p < 2 ^ a" and b: "0 < b" "2 ^ (b - 1) \<le> q" "q < 2 ^ b"
    and q: "0 < q"
  shows "2 powi (int a - int b - 1) < p / q" and "p / q < 2 powi (int a - int b + 1)"
proof -
  have "int a - int b - 1 = int (a - 1) - int b" using a(1) by (simp add: of_nat_diff)
  then have "(2::rat) powi (int a - int b - 1) = 2 ^ (a - 1) / 2 ^ b" by (simp only: powi_diff_nat)
  also have "\<dots> < 2 ^ (a - 1) / q" using b(3) q by (intro divide_strict_left_mono) auto
  also have "\<dots> \<le> p / q" using a(2) q by (intro divide_right_mono) auto
  finally show "2 powi (int a - int b - 1) < p / q" .
  have "p / q < 2 ^ a / q" using a(3) q by (intro divide_strict_right_mono) auto
  also have "\<dots> \<le> 2 ^ a / 2 ^ (b - 1)" using b(2) q by (intro divide_left_mono) auto
  also have "int a - int b + 1 = int a - int (b - 1)" using b(1) by (simp add: of_nat_diff)
  then have "(2::rat) ^ a / 2 ^ (b - 1) = 2 powi (int a - int b + 1)" by (simp only: powi_diff_nat)
  finally show "p / q < 2 powi (int a - int b + 1)" .
qed

lemma bit_length_rat:
  assumes "0 < n"
  shows "0 < bit_length (nat n)" and "(2::rat) ^ (bit_length (nat n) - 1) \<le> of_int n"
    and "(of_int n :: rat) < 2 ^ bit_length (nat n)"
proof -
  let ?a = "bit_length (nat n)"
  show "0 < ?a" using assms by (auto simp: bit_length.simps [of "nat n"])
  have "2 ^ (?a - 1) \<le> nat n" "nat n < 2 ^ ?a" using bit_length_bounds [of "nat n"] assms by auto
  then have "(of_nat (2 ^ (?a - 1)) :: rat) \<le> of_nat (nat n)" "(of_nat (nat n) :: rat) < of_nat (2 ^ ?a)"
    by (simp_all only: of_nat_le_iff of_nat_less_iff)
  then show "(2::rat) ^ (?a - 1) \<le> of_int n" "(of_int n :: rat) < 2 ^ ?a" using assms by simp_all
qed

lemma exponent_bounds:
  assumes "0 < x"
  shows "2 powi exponent x \<le> x" and "x < 2 powi (exponent x + 1)"
proof -
  obtain p q where pq: "quotient_of x = (p, q)" by fastforce
  have q: "0 < q" using pq by (rule quotient_of_denom_pos)
  have x: "x = of_int p / of_int q" using pq by (rule quotient_of_div)
  with assms q have p: "0 < p" by (simp add: zero_less_divide_iff)
  let ?e = "int (bit_length (nat p)) - int (bit_length (nat q))"
  have "2 powi (?e - 1) < x" "x < 2 powi (?e + 1)"
    unfolding x using quotient_bounds [OF bit_length_rat [OF p] bit_length_rat [OF q]] q by simp_all
  moreover have "exponent x = (if 2 powi ?e \<le> x then ?e else ?e - 1)"
    by (simp add: exponent_def pq Let_def)
  ultimately show "2 powi exponent x \<le> x" "x < 2 powi (exponent x + 1)" by auto
qed

lemma round_even_bounds: "\<lfloor>x\<rfloor> \<le> round_even x \<and> round_even x \<le> \<lfloor>x\<rfloor> + 1"
  by (simp add: round_even_def Let_def)

lemma round_even_of_int [simp]: "round_even (of_int n) = n"
  by (simp add: round_even_def)

lemma round_even_mono: "x \<le> y \<Longrightarrow> round_even x \<le> round_even y"
proof -
  assume le: "x \<le> y"
  then have fl: "\<lfloor>x\<rfloor> \<le> \<lfloor>y\<rfloor>" by (rule floor_mono)
  show ?thesis
  proof (cases "\<lfloor>x\<rfloor> = \<lfloor>y\<rfloor>")
    case True
    with le show ?thesis by (auto simp: round_even_def Let_def)
  next
    case False
    with fl have "\<lfloor>x\<rfloor> + 1 \<le> \<lfloor>y\<rfloor>" by simp
    with round_even_bounds [of x] round_even_bounds [of y] show ?thesis by linarith
  qed
qed

lemma ulp_pos [simp]: "0 < ulp x"
  by (simp add: ulp_def)

lemma binade_ulp:
  "2 powi exponent x = of_int (2 ^ 52) * ulp x"
  "2 powi (exponent x + 1) = of_int (2 ^ 53) * ulp x"
  using power_int_add [of "2::rat" 52 "exponent x - 52"]
    power_int_add [of "2::rat" 53 "exponent x - 52"]
  by (simp_all add: ulp_def add.commute)

lemma scaled_bounds:
  assumes "0 < x"
  shows "of_int (2 ^ 52) \<le> x / ulp x" and "x / ulp x \<le> of_int (2 ^ 53)"
proof -
  note eq = binade_ulp [of x]
  show "of_int (2 ^ 52) \<le> x / ulp x"
    using exponent_bounds(1) [OF assms] by (simp add: eq pos_le_divide_eq)
  show "x / ulp x \<le> of_int (2 ^ 53)"
    using exponent_bounds(2) [OF assms] by (simp add: eq pos_divide_le_eq)
qed

lemma round53_binade:
  assumes "0 < x"
  shows "2 powi exponent x \<le> round53 x" and "round53 x \<le> 2 powi (exponent x + 1)"
proof -
  note eq = binade_ulp [of x]
  have "2 ^ 52 \<le> round_even (x / ulp x)" "round_even (x / ulp x) \<le> 2 ^ 53"
    using round_even_mono [OF scaled_bounds(1) [OF assms]]
      round_even_mono [OF scaled_bounds(2) [OF assms]]
    by (simp_all only: round_even_of_int)
  then have "(of_int (2 ^ 52) :: rat) \<le> of_int (round_even (x / ulp x))"
    "(of_int (round_even (x / ulp x)) :: rat) \<le> of_int (2 ^ 53)"
    by (simp_all only: of_int_le_iff)
  from this [THEN mult_right_mono, OF less_imp_le [OF ulp_pos [of x]]]
  show "2 powi exponent x \<le> round53 x" "round53 x \<le> 2 powi (exponent x + 1)"
    using assms by (simp_all add: eq round53_def del: of_int_power)
qed

theorem round53_mono:
  assumes "x \<le> y"
  shows "round53 x \<le> round53 y"
proof (cases "0 < x")
  case False
  have "0 \<le> round53 y"
  proof (cases "0 < y")
    case True
    then show ?thesis using round53_binade(1) [of y]
      by (meson less_le_trans less_imp_le zero_less_numeral zero_less_power_int)
  qed (simp add: round53_def)
  with False show ?thesis by (simp add: round53_def)
next
  case x: True
  with assms have y: "0 < y" by simp
  show ?thesis
  proof (cases "exponent x" "exponent y" rule: linorder_cases)
    case less
    then have "exponent x + 1 \<le> exponent y" by simp
    then have "(2::rat) powi (exponent x + 1) \<le> 2 powi exponent y"
      by (intro power_int_increasing) auto
    with round53_binade(2) [OF x] round53_binade(1) [OF y] show ?thesis by linarith
  next
    case equal
    then have u: "ulp x = ulp y" by (simp add: ulp_def)
    have "round_even (x / ulp x) \<le> round_even (y / ulp y)"
      using assms by (intro round_even_mono) (simp add: u divide_right_mono less_imp_le)
    then show ?thesis using x y u by (simp add: round53_def mult_right_mono less_imp_le)
  next
    case greater
    then have "exponent y + 1 \<le> exponent x" by simp
    then have "(2::rat) powi (exponent y + 1) \<le> 2 powi exponent x"
      by (intro power_int_increasing) auto
    with exponent_bounds(2) [OF y] exponent_bounds(1) [OF x] assms show ?thesis by linarith
  qed
qed

lemma round53_0 [simp]: "round53 0 = 0"
  by (simp add: round53_def)

lemma round53_1 [simp]: "round53 1 = 1"
  by code_simp

lemma round53_100 [simp]: "round53 100 = 100"
  by code_simp

lemma round53_nonneg [simp]: "0 \<le> round53 x"
  using round53_mono [of 0 x] by (cases "0 \<le> x") (auto simp: round53_def)

section \<open>The operations\<close>

definition float_of_uint64 :: "u64 \<Rightarrow> rat" where
  "float_of_uint64 w = round53 (of_nat (unat w))"

definition float_div :: "rat \<Rightarrow> rat \<Rightarrow> rat" where
  "float_div x y = round53 (x / y)"

definition float_mul :: "rat \<Rightarrow> rat \<Rightarrow> rat" where
  "float_mul x y = round53 (x * y)"

lemma float_of_uint64_mono: "v \<le> w \<Longrightarrow> float_of_uint64 v \<le> float_of_uint64 w"
  unfolding float_of_uint64_def word_le_nat_alt
  by (rule round53_mono) (simp only: of_nat_le_iff)

lemma float_of_uint64_pos: "0 < w \<Longrightarrow> 0 < float_of_uint64 w"
proof -
  assume "0 < w"
  then have "1 \<le> unat w" by (metis One_nat_def Suc_leI unat_gt_0 word_gt_0)
  then have "(1::rat) \<le> of_nat (unat w)" by (metis of_nat_1 of_nat_le_iff)
  then have "round53 1 \<le> float_of_uint64 w" unfolding float_of_uint64_def by (rule round53_mono)
  then show ?thesis by simp
qed

end
