(* ===== verification/Proto.thy ===== *)
theory Proto
  imports Float64
begin

text \<open>
  The messages of \<open>proto/agent/v1/agent.proto\<close> as the generated Go code of
  \<open>gen/agent/v1/agent.pb.go\<close> has them: one record per message, one datatype per
  \<open>oneof\<close>. A \<open>oneof\<close> that is not set is \<open>None\<close>, and so is a field of
  message type that is absent on the wire (in Go, a nil pointer); the message inside a set
  \<open>oneof\<close> case, and the elements of a repeated field, are never nil after decoding.
  The getters answer zero values on nil.
\<close>

section \<open>Metrics, heartbeats, results, logs\<close>

record SystemMetrics =
  CpuPercent :: float64
  MemTotal :: u64
  MemUsed :: u64
  DiskTotal :: u64
  DiskUsed :: u64
  Load_1 :: float64
  Load_5 :: float64
  Load_15 :: float64

definition GetCpuPercent :: "SystemMetrics option \<Rightarrow> float64" where
  "GetCpuPercent x = (case x of Some m \<Rightarrow> CpuPercent m | None \<Rightarrow> Finite 0)"

record ServiceStatus =
  ss_Name :: string
  ss_Running :: bool

record Heartbeat =
  hb_Timestamp :: int
  hb_Metrics :: "SystemMetrics option"
  hb_Services :: "ServiceStatus list"

record CommandResult =
  cr_CommandId :: string
  cr_Success :: bool
  cr_Error :: string

datatype LogLevel =
    LOG_LEVEL_UNSPECIFIED | LOG_LEVEL_DEBUG | LOG_LEVEL_INFO | LOG_LEVEL_WARN | LOG_LEVEL_ERROR

record LogEntry =
  le_CommandId :: string
  le_Timestamp :: int
  le_Level :: LogLevel
  le_Message :: string

record RegisterRequest =
  rq_Token :: string
  rq_Hostname :: string
  rq_Os :: string
  rq_Arch :: string
  rq_Version :: string

datatype AgentPayload =
    AgentMessage_Register RegisterRequest
  | AgentMessage_Heartbeat Heartbeat
  | AgentMessage_CommandResult CommandResult
  | AgentMessage_Log LogEntry

text \<open>An \<open>AgentMessage\<close> is its payload.\<close>

type_synonym AgentMessage = "AgentPayload option"

section \<open>Commands\<close>

record CreateAccountCmd =
  ca_Username :: string
  ca_Uid :: u32
  ca_Homedir :: string
  ca_DiskQuotaBytes :: u64

record DeleteAccountCmd =
  da_Username :: string
  da_PurgeFiles :: bool

record CreateVhostCmd =
  cv_Username :: string
  cv_Domain :: string
  cv_Docroot :: string
  cv_PhpVersion :: string
  cv_Ssl :: bool
  cv_Aliases :: "string list"

record DeleteVhostCmd =
  dv_Domain :: string

record CreateDatabaseCmd =
  cd_DbName :: string
  cd_DbUser :: string
  cd_Password :: string

record DeleteDatabaseCmd =
  dd_DbName :: string
  dd_DbUser :: string

record CreateEmailCmd =
  ce_Address :: string
  ce_Password :: string
  ce_QuotaBytes :: u64

record DeleteEmailCmd =
  de_Address :: string
  de_PurgeMail :: bool

record CreateEmailDomainCmd =
  ced_Domain :: string
  ced_SetupDkim :: bool

record DeleteEmailDomainCmd =
  ded_Domain :: string
  ded_PurgeMail :: bool

record CreateEmailAliasCmd =
  cea_Source :: string
  cea_Destination :: string

record DeleteEmailAliasCmd =
  dea_Source :: string

record DNSRecord =
  dr_Name :: string
  dr_Type :: string
  dr_Content :: string
  dr_Ttl :: u32
  dr_Priority :: u32

record CreateDNSZoneCmd =
  cz_Zone :: string
  cz_Records :: "DNSRecord list"

record DeleteDNSZoneCmd =
  dz_Zone :: string

record UpsertDNSRecordCmd =
  ur_Zone :: string
  ur_Record :: "DNSRecord option"

record DeleteDNSRecordCmd =
  ddr_Zone :: string
  ddr_Name :: string
  ddr_Type :: string

record IssueCertCmd =
  ic_Domain :: string
  ic_Sans :: "string list"
  ic_Webroot :: string
  ic_DnsChallenge :: bool

record RestartServiceCmd =
  rs_Service :: string

datatype CommandPayload =
    Command_CreateAccount CreateAccountCmd
  | Command_DeleteAccount DeleteAccountCmd
  | Command_CreateVhost CreateVhostCmd
  | Command_DeleteVhost DeleteVhostCmd
  | Command_CreateDatabase CreateDatabaseCmd
  | Command_DeleteDatabase DeleteDatabaseCmd
  | Command_CreateEmail CreateEmailCmd
  | Command_DeleteEmail DeleteEmailCmd
  | Command_CreateEmailDomain CreateEmailDomainCmd
  | Command_DeleteEmailDomain DeleteEmailDomainCmd
  | Command_CreateEmailAlias CreateEmailAliasCmd
  | Command_DeleteEmailAlias DeleteEmailAliasCmd
  | Command_CreateDnsZone CreateDNSZoneCmd
  | Command_DeleteDnsZone DeleteDNSZoneCmd
  | Command_UpsertDnsRecord UpsertDNSRecordCmd
  | Command_DeleteDnsRecord DeleteDNSRecordCmd
  | Command_IssueCert IssueCertCmd
  | Command_RestartService RestartServiceCmd

record Command =
  cmd_CommandId :: string
  cmd_Payload :: "CommandPayload option"

section \<open>Server messages\<close>

record RegisterResponse =
  rp_Accepted :: bool
  rp_ServerId :: string
  rp_Message :: string

datatype ServerPayload =
    ServerMessage_RegisterResponse RegisterResponse
  | ServerMessage_Command Command

type_synonym ServerMessage = "ServerPayload option"

end
