(* ===== verification/Auth.thy ===== *)
theory Auth
  imports Store Proto
begin

text \<open>
  The first half of \<open>Connect\<close> in \<open>api/internal/grpc/server.go\<close>: the
  registration message, its authentication against the store, the answer. The store is
  \<open>None\<close> in development mode (a nil pointer in Go). What the stream answers to
  \<open>Recv\<close> and \<open>Send\<close> is an argument.
\<close>

definition authenticate :: "(string \<Rightarrow> string) \<Rightarrow> 'p pgpool option \<Rightarrow> string \<Rightarrow> int
    \<Rightarrow> RegisterRequest \<Rightarrow> 'p \<Rightarrow> (string \<times> goerr option) \<times> 'p" where
  "authenticate sha256 store b now req p =
     (if rq_Token req = [] then (([], Some ''missing token''), p)
      else (case store of
        None \<Rightarrow> ((''server-'' @ rq_Hostname req, None), p)
      | Some pool \<Rightarrow>
          (case ValidateToken sha256 pool b now (rq_Token req) p of
             ((serverID, Some e), p1) \<Rightarrow> (([], Some (''authentication failed: '' @ e)), p1)
           | ((serverID, None), p1) \<Rightarrow>
               (case UpsertServer pool serverID (rq_Hostname req) p1 of
                  (err, p2) \<Rightarrow> ((serverID, None), p2)))))"

text \<open>
  \<open>Connect\<close> up to the registration of the session: the messages sent to the agent, and
  either the error it returns or the server identifier and host name of the new session.
  \<open>send\<close> is the outcome of sending a message.
\<close>

definition connect_prologue :: "(string \<Rightarrow> string) \<Rightarrow> 'p pgpool option \<Rightarrow> string \<Rightarrow> int
    \<Rightarrow> (ServerMessage \<Rightarrow> goerr option) \<Rightarrow> goerr + AgentMessage \<Rightarrow> 'p
    \<Rightarrow> (ServerMessage list \<times> (goerr + string \<times> string)) \<times> 'p" where
  "connect_prologue sha256 store b now send recv p =
     (case recv of
        Inl e \<Rightarrow> (([], Inl e), p)
      | Inr (Some (AgentMessage_Register reg)) \<Rightarrow>
          (case authenticate sha256 store b now reg p of
             ((serverID, Some e), p1) \<Rightarrow>
               (([Some (ServerMessage_RegisterResponse
                     \<lparr>rp_Accepted = False, rp_ServerId = [], rp_Message = e\<rparr>)], Inl e), p1)
           | ((serverID, None), p1) \<Rightarrow>
               (let resp = Some (ServerMessage_RegisterResponse
                     \<lparr>rp_Accepted = True, rp_ServerId = serverID, rp_Message = []\<rparr>) in
                case send resp of
                  Some e \<Rightarrow> (([resp], Inl e), p1)
                | None \<Rightarrow> (([resp], Inr (serverID, rq_Hostname reg)), p1)))
      | Inr _ \<Rightarrow> (([], Inl ''expected RegisterRequest as first message''), p))"

section \<open>Properties\<close>

text \<open>
  A session is registered only for a first message that is a registration with a
  non-empty token which the store accepts, and only after the acceptance was sent; the
  session then has the identifier that was sent. In every other case the agent is told of
  no acceptance that led to a session.
\<close>

theorem connect_registers_authenticated:
  assumes "fst (connect_prologue sha store b now send recv p) = (sent, Inr (sid, host))"
  shows "\<exists>reg. recv = Inr (Some (AgentMessage_Register reg)) \<and> rq_Token reg \<noteq> [] \<and>
    host = rq_Hostname reg \<and> fst (authenticate sha store b now reg p) = (sid, None) \<and>
    sent = [Some (ServerMessage_RegisterResponse
      \<lparr>rp_Accepted = True, rp_ServerId = sid, rp_Message = []\<rparr>)] \<and> send (hd sent) = None"
proof -
  obtain reg where recv: "recv = Inr (Some (AgentMessage_Register reg))"
    using assms by (auto simp: connect_prologue_def split: sum.splits option.splits AgentPayload.splits)
  obtain x err p1 where a: "authenticate sha store b now reg p = ((x, err), p1)"
    by (metis prod.exhaust)
  have "err = None" "x = sid" "host = rq_Hostname reg"
    "sent = [Some (ServerMessage_RegisterResponse \<lparr>rp_Accepted = True, rp_ServerId = sid, rp_Message = []\<rparr>)]"
    "send (hd sent) = None"
    using assms by (auto simp: connect_prologue_def recv a Let_def split: option.splits)
  moreover have "rq_Token reg \<noteq> []" using a \<open>err = None\<close> by (auto simp: authenticate_def)
  ultimately show ?thesis using recv a by auto
qed

theorem connect_registers_authenticated_witness:
  "\<exists>reg. Inr (Some (AgentMessage_Register \<lparr>rq_Token = ''t'', rq_Hostname = ''web1'', rq_Os = [],
        rq_Arch = [], rq_Version = []\<rparr>)) = (Inr (Some (AgentMessage_Register reg)) :: goerr + AgentMessage) \<and>
    rq_Token reg \<noteq> [] \<and> ''web1'' = rq_Hostname reg \<and>
    fst (authenticate (\<lambda>s. s) (None :: unit pgpool option) [] 0 reg ()) = (''server-web1'', None) \<and>
    [Some (ServerMessage_RegisterResponse
      \<lparr>rp_Accepted = True, rp_ServerId = ''server-web1'', rp_Message = []\<rparr>)] =
    [Some (ServerMessage_RegisterResponse
      \<lparr>rp_Accepted = True, rp_ServerId = ''server-web1'', rp_Message = []\<rparr>)] \<and>
    (\<lambda>m :: ServerMessage. None :: goerr option) (hd [Some (ServerMessage_RegisterResponse
      \<lparr>rp_Accepted = True, rp_ServerId = ''server-web1'', rp_Message = []\<rparr>)]) = None"
  by (rule connect_registers_authenticated [where p = "()"])
    (simp add: connect_prologue_def authenticate_def)

text \<open>
  The databases the API can bring about, starting from new tables: the API is started and
  restarted, which migrates, tokens are created, and agents authenticate.
\<close>

inductive store_reachable :: "(string \<Rightarrow> string) \<Rightarrow> 'p pgpool \<Rightarrow> ('p \<Rightarrow> tables) \<Rightarrow> 'p \<Rightarrow> bool"
  for sha pool tabs where
  migrated: "tabs p = \<lparr>tokens = [], servers = []\<rparr> \<Longrightarrow> store_reachable sha pool tabs p"
| start: "store_reachable sha pool tabs p \<Longrightarrow>
     store_reachable sha pool tabs (snd (NewStore (Inr pool) ping p))"
| create: "store_reachable sha pool tabs p \<Longrightarrow>
     store_reachable sha pool tabs (snd (CreateToken sha pool raw now p))"
| auth: "store_reachable sha pool tabs p \<Longrightarrow>
     store_reachable sha pool tabs (snd (authenticate sha (Some pool) b now req p))"

context pg_tables
begin

lemma authenticate_no_servers:
  assumes "schema_ok (tabs p)" and "server_ids (tabs p) = {}"
  shows "snd (fst (authenticate sha (Some pool) b now req p)) \<noteq> None \<and>
    tabs (snd (authenticate sha (Some pool) b now req p)) = tabs p"
proof -
  obtain x err p1 where v: "ValidateToken sha pool b now (rq_Token req) p = ((x, err), p1)"
    by (metis prod.exhaust)
  then show ?thesis
    using ValidateToken_no_servers [OF assms, of sha b now "rq_Token req"]
    by (auto simp: authenticate_def)
qed

lemma store_reachable_empty:
  "store_reachable sha pool tabs p \<Longrightarrow> schema_ok (tabs p) \<and> servers (tabs p) = []"
proof (induction rule: store_reachable.induct)
  case (migrated p)
  then show ?case by (simp add: schema_ok_def)
next
  case (start p ping)
  then show ?case using NewStore_tables by metis
next
  case (create p raw now)
  then show ?case using CreateToken_tables by metis
next
  case (auth p b now req)
  then show ?case using authenticate_no_servers [of p sha b now req] by (simp add: server_ids_def)
qed

lemma no_agent_authenticates:
  assumes "store_reachable sha pool tabs p"
  shows "snd (fst (authenticate sha (Some pool) b now req p)) \<noteq> None"
proof -
  have "schema_ok (tabs p)" "servers (tabs p) = []" using store_reachable_empty [OF assms] by auto
  then show ?thesis using authenticate_no_servers [of p sha b now req] by (simp add: server_ids_def)
qed

end

text \<open>
  With a store, no agent can ever register. The first use of a token binds it to a
  fresh server identifier before that server has a row, and the schema makes the bound
  identifier a foreign key into \<open>servers\<close>; rows of \<open>servers\<close> are only written
  after a successful validation. So in every database the API can bring about from its own
  migration, for every token (valid ones included), authentication fails.
\<close>

theorem no_agent_can_register:
  assumes "pg_tables pool tabs" and "store_reachable sha pool tabs p"
  shows "snd (fst (authenticate sha (Some pool) b now req p)) \<noteq> None"
  using pg_tables.no_agent_authenticates [OF assms] .

text \<open>The witness: a database with one valid, unused token.\<close>

definition fresh_db :: reldb where
  "fresh_db = \<lparr>db_tables = \<lparr>tokens = [], servers = []\<rparr>, db_next = 0\<rparr>"

theorem no_agent_can_register_witness:
  "fst (CreateToken (\<lambda>s. s) rel_pool (Inr ''ab'') 1 fresh_db) = (''6162'', None) \<and>
   snd (fst (authenticate (\<lambda>s. s) (Some rel_pool) ''12345678'' 2
     \<lparr>rq_Token = ''6162'', rq_Hostname = ''web1'', rq_Os = [], rq_Arch = [], rq_Version = []\<rparr>
     (snd (CreateToken (\<lambda>s. s) rel_pool (Inr ''ab'') 1 fresh_db)))) \<noteq> None"
proof
  show "fst (CreateToken (\<lambda>s. s) rel_pool (Inr ''ab'') 1 fresh_db) = (''6162'', None)"
    by code_simp
  have "store_reachable (\<lambda>s. s) rel_pool db_tables fresh_db"
    by (rule store_reachable.migrated) (simp add: fresh_db_def)
  then have "store_reachable (\<lambda>s. s) rel_pool db_tables
      (snd (CreateToken (\<lambda>s. s) rel_pool (Inr ''ab'') 1 fresh_db))"
    by (rule store_reachable.create)
  with rel.pg_tables_axioms
  show "snd (fst (authenticate (\<lambda>s. s) (Some rel_pool) ''12345678'' 2
     \<lparr>rq_Token = ''6162'', rq_Hostname = ''web1'', rq_Os = [], rq_Arch = [], rq_Version = []\<rparr>
     (snd (CreateToken (\<lambda>s. s) rel_pool (Inr ''ab'') 1 fresh_db)))) \<noteq> None"
    by (rule no_agent_can_register)
qed

text \<open>
  A token that has been validated once stays bound to its server: every later
  validation of it returns the same identifier and writes nothing, or fails to read.
\<close>

theorem ValidateToken_stable:
  assumes "pg_tables pool tabs" and "schema_ok (tabs p)"
    and "ValidateToken sha pool b now tok p = ((sid, None), p')"
  shows "fst (ValidateToken sha pool b' now' tok p') \<in> {(sid, None), ([], Some ''invalid token'')} \<and>
    tabs (snd (ValidateToken sha pool b' now' tok p')) = tabs p'"
  using pg_tables.validate_again_same [OF assms] .

text \<open>The witness: a token of a database whose \<open>servers\<close> table was filled by hand.\<close>

definition seeded_db :: reldb where
  "seeded_db = \<lparr>db_tables = \<lparr>tokens = [\<lparr>tk_id = ''0'', tk_hash = hashToken (\<lambda>s. s) ''tok'',
       tk_created_at = 0, tk_used_at = None, tk_server_id = None\<rparr>],
     servers = [(generateID ''x'', ''web1'')]\<rparr>, db_next = 1\<rparr>"

theorem ValidateToken_stable_witness:
  "fst (ValidateToken (\<lambda>s. s) rel_pool ''y'' 9 ''tok''
       (snd (ValidateToken (\<lambda>s. s) rel_pool ''x'' 5 ''tok'' seeded_db)))
     \<in> {(generateID ''x'', None), ([], Some ''invalid token'')} \<and>
   db_tables (snd (ValidateToken (\<lambda>s. s) rel_pool ''y'' 9 ''tok''
       (snd (ValidateToken (\<lambda>s. s) rel_pool ''x'' 5 ''tok'' seeded_db)))) =
     db_tables (snd (ValidateToken (\<lambda>s. s) rel_pool ''x'' 5 ''tok'' seeded_db))"
proof (rule ValidateToken_stable [OF rel.pg_tables_axioms])
  show "schema_ok (db_tables seeded_db)" by (simp add: schema_ok_def seeded_db_def)
  have "fst (ValidateToken (\<lambda>s. s) rel_pool ''x'' 5 ''tok'' seeded_db) = (generateID ''x'', None)"
    by (simp add: ValidateToken_def rel_pool_def rel_query_def rel_exec_def rel_bind_def
        find_token_def seeded_db_def server_ids_def Let_def)
  then show "ValidateToken (\<lambda>s. s) rel_pool ''x'' 5 ''tok'' seeded_db =
      ((generateID ''x'', None), snd (ValidateToken (\<lambda>s. s) rel_pool ''x'' 5 ''tok'' seeded_db))"
    by (simp add: prod_eq_iff)
qed

end
