(* ===== verification/Server.thy ===== *)
theory Server
  imports Proto
begin

text \<open>
  The concurrent core of \<open>api/internal/grpc/server.go\<close>: the registry of agents, their
  sessions, and \<open>SendCommand\<close>. Goroutines become a step relation. A step is what
  happens between two points where another goroutine can run: a region under the mutex, a
  channel operation, a message received from the stream or sent on it. The two maps of
  \<open>Server\<close> are \<open>agents\<close> and \<open>pending\<close>; a \<open>connectedAgent\<close> object is a
  \<open>session\<close> with a number as its address; a call of \<open>SendCommand\<close> has a number, its
  program counter, and a result channel with that number and room for one result.
\<close>

section \<open>State\<close>

datatype session_pc =
    Looping                            \<comment> \<open>in the \<open>select\<close> of \<open>handleSession\<close>\<close>
  | Delivering nat CommandResult       \<comment> \<open>at \<open>ch <- result\<close>\<close>
  | Leaving                            \<comment> \<open>returned, before the deferred \<open>unregisterAgent\<close>\<close>
  | Gone

record session =
  ss_serverID :: string
  ss_hostname :: string
  ss_send :: "ServerMessage list"
  ss_lastMetrics :: "SystemMetrics option"
  ss_lastSeen :: int
  ss_pc :: session_pc

datatype call_pc =
    Start string "CommandPayload option"
  | Found nat "CommandPayload option"            \<comment> \<open>the session was looked up\<close>
  | Sending nat string "CommandPayload option"   \<comment> \<open>at \<open>agent.send <- \<dots>\<close>\<close>
  | Waiting string                               \<comment> \<open>in the \<open>select\<close>\<close>
  | Expired string                               \<comment> \<open>timed out, before the cleanup\<close>
  | Returned "string option" "goerr + CommandResult"

record server =
  agents :: "string \<rightharpoonup> nat"
  sessions :: "nat \<rightharpoonup> session"
  pending :: "string \<rightharpoonup> nat"
  chans :: "nat \<Rightarrow> CommandResult list"
  calls :: "nat \<rightharpoonup> call_pc"
  used_ids :: "string set"

definition NewServer :: server where
  "NewServer = \<lparr>agents = Map.empty, sessions = Map.empty, pending = Map.empty,
     chans = (\<lambda>_. []), calls = Map.empty, used_ids = {}\<rparr>"

definition send_capacity :: nat where
  "send_capacity = 32"

definition result_capacity :: nat where
  "result_capacity = 1"

section \<open>Operations\<close>

definition set_session :: "nat \<Rightarrow> session \<Rightarrow> server \<Rightarrow> server" where
  "set_session k a s = s\<lparr>sessions := (sessions s)(k \<mapsto> a)\<rparr>"

definition set_call :: "nat \<Rightarrow> call_pc \<Rightarrow> server \<Rightarrow> server" where
  "set_call i pc s = s\<lparr>calls := (calls s)(i \<mapsto> pc)\<rparr>"

text \<open>The session object \<open>Connect\<close> makes, and the two registry operations.\<close>

definition new_session :: "string \<Rightarrow> string \<Rightarrow> session" where
  "new_session serverID hostname =
     \<lparr>ss_serverID = serverID, ss_hostname = hostname, ss_send = [], ss_lastMetrics = None,
      ss_lastSeen = 0, ss_pc = Looping\<rparr>"

definition registerAgent :: "nat \<Rightarrow> session \<Rightarrow> server \<Rightarrow> server" where
  "registerAgent k a s =
     (set_session k a s)\<lparr>agents := (agents s)(ss_serverID a \<mapsto> k)\<rparr>"

definition unregisterAgent :: "string \<Rightarrow> server \<Rightarrow> server" where
  "unregisterAgent serverID s = s\<lparr>agents := (agents s)(serverID := None)\<rparr>"

text \<open>
  \<open>handleAgentMessage\<close> up to the channel send: a heartbeat updates the session, the
  result of a pending command takes its entry out of \<open>pending\<close> and leaves the session at
  the delivery, everything else changes nothing. \<open>now\<close> is the clock.
\<close>

definition handleAgentMessage :: "nat \<Rightarrow> session \<Rightarrow> int \<Rightarrow> AgentMessage \<Rightarrow> server \<Rightarrow> server" where
  "handleAgentMessage k a now msg s =
     (case msg of
        Some (AgentMessage_Heartbeat hb) \<Rightarrow>
          set_session k (a\<lparr>ss_lastMetrics := hb_Metrics hb, ss_lastSeen := now\<rparr>) s
      | Some (AgentMessage_CommandResult r) \<Rightarrow>
          (case pending s (cr_CommandId r) of
             Some i \<Rightarrow> (set_session k (a\<lparr>ss_pc := Delivering i r\<rparr>) s)
               \<lparr>pending := (pending s)(cr_CommandId r := None)\<rparr>
           | None \<Rightarrow> s)
      | _ \<Rightarrow> s)"

definition timeout_error :: goerr where
  "timeout_error = ''command timed out after 30s''"

definition not_connected :: "(string \<Rightarrow> string) \<Rightarrow> string \<Rightarrow> goerr" where
  "not_connected quote serverID = ''server '' @ quote serverID @ '' not connected''"

section \<open>Steps\<close>

text \<open>
  The first five rules are sessions, the others \<open>SendCommand\<close>. The identifier of a
  command is new (\<open>uuid.NewString\<close>): this is the only assumption on it. \<open>quote\<close>
  is the quoting of \<open>%q\<close>.
\<close>

inductive server_step :: "(string \<Rightarrow> string) \<Rightarrow> server \<Rightarrow> server \<Rightarrow> bool" for quote where
  register: "sessions s k = None \<Longrightarrow>
     server_step quote s (registerAgent k (new_session serverID hostname) s)"
| receive: "sessions s k = Some a \<Longrightarrow> ss_pc a = Looping \<Longrightarrow>
     server_step quote s (handleAgentMessage k a now msg s)"
| deliver: "sessions s k = Some a \<Longrightarrow> ss_pc a = Delivering i r \<Longrightarrow>
     length (chans s i) < result_capacity \<Longrightarrow>
     server_step quote s ((set_session k (a\<lparr>ss_pc := Looping\<rparr>) s)
       \<lparr>chans := (chans s)(i := chans s i @ [r])\<rparr>)"
| transmit: "sessions s k = Some a \<Longrightarrow> ss_pc a = Looping \<Longrightarrow> ss_send a = msg # rest \<Longrightarrow>
     server_step quote s (set_session k (a\<lparr>ss_send := rest\<rparr>) s)"
| leave: "sessions s k = Some a \<Longrightarrow> ss_pc a = Looping \<Longrightarrow>
     server_step quote s (set_session k (a\<lparr>ss_pc := Leaving\<rparr>) s)"
| unregister: "sessions s k = Some a \<Longrightarrow> ss_pc a = Leaving \<Longrightarrow>
     server_step quote s (unregisterAgent (ss_serverID a) (set_session k (a\<lparr>ss_pc := Gone\<rparr>) s))"
| call_begin: "calls s i = None \<Longrightarrow> server_step quote s (set_call i (Start serverID p) s)"
| call_refused: "calls s i = Some (Start serverID p) \<Longrightarrow> agents s serverID = None \<Longrightarrow>
     server_step quote s (set_call i (Returned None (Inl (not_connected quote serverID))) s)"
| call_lookup: "calls s i = Some (Start serverID p) \<Longrightarrow> agents s serverID = Some k \<Longrightarrow>
     server_step quote s (set_call i (Found k p) s)"
| call_register: "calls s i = Some (Found k p) \<Longrightarrow> cid \<notin> used_ids s \<Longrightarrow>
     server_step quote s ((set_call i (Sending k cid p) s)
       \<lparr>pending := (pending s)(cid \<mapsto> i), chans := (chans s)(i := []),
        used_ids := insert cid (used_ids s)\<rparr>)"
| call_send: "calls s i = Some (Sending k cid p) \<Longrightarrow> sessions s k = Some a \<Longrightarrow>
     length (ss_send a) < send_capacity \<Longrightarrow>
     server_step quote s (set_call i (Waiting cid) (set_session k
       (a\<lparr>ss_send := ss_send a @
          [Some (ServerMessage_Command \<lparr>cmd_CommandId = cid, cmd_Payload = p\<rparr>)]\<rparr>) s))"
| call_result: "calls s i = Some (Waiting cid) \<Longrightarrow> chans s i = r # rest \<Longrightarrow>
     server_step quote s ((set_call i (Returned (Some cid) (Inr r)) s)
       \<lparr>chans := (chans s)(i := rest)\<rparr>)"
| call_timeout: "calls s i = Some (Waiting cid) \<Longrightarrow>
     server_step quote s (set_call i (Expired cid) s)"
| call_cleanup: "calls s i = Some (Expired cid) \<Longrightarrow>
     server_step quote s ((set_call i (Returned (Some cid) (Inl timeout_error)) s)
       \<lparr>pending := (pending s)(cid := None)\<rparr>)"

inductive reachable :: "(string \<Rightarrow> string) \<Rightarrow> server \<Rightarrow> bool" for quote where
  init: "reachable quote NewServer"
| step: "reachable quote s \<Longrightarrow> server_step quote s t \<Longrightarrow> reachable quote t"

section \<open>Invariant\<close>

text \<open>The identifier of the command a call has issued, and whether it may still be pending.\<close>

fun call_id :: "call_pc \<Rightarrow> string option" where
  "call_id (Start serverID p) = None"
| "call_id (Found k p) = None"
| "call_id (Sending k cid p) = Some cid"
| "call_id (Waiting cid) = Some cid"
| "call_id (Expired cid) = Some cid"
| "call_id (Returned c res) = c"

fun in_flight :: "call_pc \<Rightarrow> bool" where
  "in_flight (Sending k cid p) = True"
| "in_flight (Waiting cid) = True"
| "in_flight (Expired cid) = True"
| "in_flight _ = False"

definition issued :: "server \<Rightarrow> nat \<Rightarrow> string option" where
  "issued s i = (case calls s i of None \<Rightarrow> None | Some pc \<Rightarrow> call_id pc)"

definition delivering :: "server \<Rightarrow> nat \<Rightarrow> nat \<Rightarrow> CommandResult \<Rightarrow> bool" where
  "delivering s k i r \<longleftrightarrow> (\<exists>a. sessions s k = Some a \<and> ss_pc a = Delivering i r)"

text \<open>
  Per command: identifiers belong to one call; a pending entry points to a call in flight
  whose channel is empty and to which nobody is delivering; at most one session delivers to
  a channel, it is empty then, and the result carries the call's identifier; a channel
  holds at most one result, with the call's identifier.
\<close>

definition ids_ok :: "server \<Rightarrow> bool" where
  "ids_ok s \<longleftrightarrow> (\<forall>i c. issued s i = Some c \<longrightarrow> c \<in> used_ids s) \<and>
     (\<forall>i j c. issued s i = Some c \<longrightarrow> issued s j = Some c \<longrightarrow> i = j)"

definition pending_ok :: "server \<Rightarrow> bool" where
  "pending_ok s \<longleftrightarrow> (\<forall>c i. pending s c = Some i \<longrightarrow>
     (\<exists>pc. calls s i = Some pc \<and> in_flight pc \<and> call_id pc = Some c) \<and>
     chans s i = [] \<and> (\<forall>k r. \<not> delivering s k i r))"

definition delivery_ok :: "server \<Rightarrow> bool" where
  "delivery_ok s \<longleftrightarrow> (\<forall>k i r. delivering s k i r \<longrightarrow>
     chans s i = [] \<and> issued s i = Some (cr_CommandId r) \<and>
     (\<forall>k' r'. delivering s k' i r' \<longrightarrow> k' = k))"

definition chans_ok :: "server \<Rightarrow> bool" where
  "chans_ok s \<longleftrightarrow> (\<forall>i. length (chans s i) \<le> 1 \<and>
     (\<forall>r\<in>set (chans s i). issued s i = Some (cr_CommandId r)))"

definition results_ok :: "server \<Rightarrow> bool" where
  "results_ok s \<longleftrightarrow>
     (\<forall>i c r. calls s i = Some (Returned c (Inr r)) \<longrightarrow> c = Some (cr_CommandId r))"

definition registry_ok :: "server \<Rightarrow> bool" where
  "registry_ok s \<longleftrightarrow> (\<forall>sid k. agents s sid = Some k \<longrightarrow>
     (\<exists>a. sessions s k = Some a \<and> ss_serverID a = sid)) \<and>
     (\<forall>i k p. calls s i = Some (Found k p) \<longrightarrow> sessions s k \<noteq> None) \<and>
     (\<forall>i k c p. calls s i = Some (Sending k c p) \<longrightarrow> sessions s k \<noteq> None)"

definition server_inv :: "server \<Rightarrow> bool" where
  "server_inv s \<longleftrightarrow> ids_ok s \<and> pending_ok s \<and> delivery_ok s \<and> chans_ok s \<and> results_ok s \<and>
     registry_ok s"

lemmas inv_defs = ids_ok_def pending_ok_def delivery_ok_def chans_ok_def results_ok_def
  registry_ok_def

lemmas op_defs = set_session_def set_call_def registerAgent_def unregisterAgent_def
  new_session_def

section \<open>The invariant is preserved\<close>

lemma issued_simps [simp]:
  "issued (set_call i pc s) j = (if j = i then call_id pc else issued s j)"
  "issued (set_session k a s) = issued s"
  "issued (s\<lparr>pending := pd\<rparr>) = issued s"
  "issued (s\<lparr>chans := ch\<rparr>) = issued s"
  "issued (s\<lparr>agents := ag\<rparr>) = issued s"
  "issued (s\<lparr>used_ids := u\<rparr>) = issued s"
  by (auto simp: issued_def op_defs fun_eq_iff)

lemma delivering_simps [simp]:
  "delivering (set_session k a s) k' i r =
     (if k' = k then ss_pc a = Delivering i r else delivering s k' i r)"
  "delivering (set_call j pc s) = delivering s"
  "delivering (s\<lparr>pending := pd\<rparr>) = delivering s"
  "delivering (s\<lparr>chans := ch\<rparr>) = delivering s"
  "delivering (s\<lparr>agents := ag\<rparr>) = delivering s"
  "delivering (s\<lparr>used_ids := u\<rparr>) = delivering s"
  by (auto simp: delivering_def op_defs fun_eq_iff)

lemma set_call_simps [simp]:
  "agents (set_call i pc s) = agents s" "sessions (set_call i pc s) = sessions s"
  "pending (set_call i pc s) = pending s" "chans (set_call i pc s) = chans s"
  "used_ids (set_call i pc s) = used_ids s"
  "calls (set_call i pc s) = (calls s)(i \<mapsto> pc)"
  by (simp_all add: set_call_def)

lemma set_session_simps [simp]:
  "agents (set_session k a s) = agents s" "calls (set_session k a s) = calls s"
  "pending (set_session k a s) = pending s" "chans (set_session k a s) = chans s"
  "used_ids (set_session k a s) = used_ids s"
  "sessions (set_session k a s) = (sessions s)(k \<mapsto> a)"
  by (simp_all add: set_session_def)

lemma issuedI: "calls s i = Some pc \<Longrightarrow> call_id pc = Some c \<Longrightarrow> issued s i = Some c"
  by (simp add: issued_def)

lemma issued_calls: "calls s i = Some pc \<Longrightarrow> issued s i = call_id pc"
  by (simp add: issued_def)

lemma issued_none: "calls s i = None \<Longrightarrow> issued s i = None"
  by (simp add: issued_def)

lemma deliveringI: "sessions s k = Some a \<Longrightarrow> ss_pc a = Delivering i r \<Longrightarrow> delivering s k i r"
  by (simp add: delivering_def)

text \<open>One component at a time: the registry needs no other, the identifiers neither.\<close>

lemma registry_step:
  assumes "server_step quote s t" and "registry_ok s"
  shows "registry_ok t"
  using assms
proof (cases rule: server_step.cases)
  case (receive k a now msg)
  then show ?thesis using assms(2)
    by (fastforce simp: registry_ok_def handleAgentMessage_def
        split: option.splits AgentPayload.splits)
qed (fastforce simp: registry_ok_def op_defs split: if_splits)+

lemma results_step:
  assumes "server_step quote s t" and "results_ok s" and "chans_ok s"
  shows "results_ok t"
  using assms(1)
proof (cases rule: server_step.cases)
  case (receive k a now msg)
  then show ?thesis using assms(2)
    by (auto simp: results_ok_def handleAgentMessage_def split: option.splits AgentPayload.splits)
next
  case (call_result i cid r rest)
  have "issued s i = Some (cr_CommandId r)"
    using assms(3) call_result(3) unfolding chans_ok_def by (metis list.set_intros(1))
  then have "cid = cr_CommandId r" using call_result(2) by (simp add: issued_calls)
  then show ?thesis using call_result assms(2) by (auto simp: results_ok_def)
qed (use assms(2) in \<open>auto simp: results_ok_def registerAgent_def unregisterAgent_def split: if_splits\<close>)

lemma ids_step:
  assumes "server_step quote s t" and "ids_ok s"
  shows "ids_ok t"
  using assms(1)
proof (cases rule: server_step.cases)
  case (receive k a now msg)
  then show ?thesis using assms(2)
    by (auto simp: ids_ok_def handleAgentMessage_def split: option.splits AgentPayload.splits)
qed (use assms(2) in \<open>auto simp: ids_ok_def registerAgent_def unregisterAgent_def
       dest!: issued_calls split: if_splits\<close>)

text \<open>The rules that connect the three channel components.\<close>

lemma pendingD:
  assumes "pending_ok s" and "pending s c = Some i"
  shows "\<exists>pc. calls s i = Some pc \<and> in_flight pc \<and> call_id pc = Some c"
    and "issued s i = Some c" and "chans s i = []" and "\<not> delivering s k i r"
proof -
  show 1: "\<exists>pc. calls s i = Some pc \<and> in_flight pc \<and> call_id pc = Some c"
    and "chans s i = []" and "\<not> delivering s k i r"
    using assms unfolding pending_ok_def by blast+
  from 1 show "issued s i = Some c" by (auto simp: issued_def)
qed

lemma deliveryD:
  assumes "delivery_ok s" and "delivering s k i r"
  shows "chans s i = []" and "issued s i = Some (cr_CommandId r)"
    and "delivering s k' i r' \<Longrightarrow> k' = k \<and> r' = r"
proof -
  show "chans s i = []" "issued s i = Some (cr_CommandId r)"
    using assms unfolding delivery_ok_def by blast+
  assume d: "delivering s k' i r'"
  then have "k' = k" using assms unfolding delivery_ok_def by blast
  with d assms(2) show "k' = k \<and> r' = r" by (auto simp: delivering_def)
qed

lemma chansD:
  assumes "chans_ok s" and "chans s i = r # rest"
  shows "rest = []" and "issued s i = Some (cr_CommandId r)"
proof -
  have "length (chans s i) \<le> 1 \<and> (\<forall>r\<in>set (chans s i). issued s i = Some (cr_CommandId r))"
    using assms(1) unfolding chans_ok_def by blast
  with assms(2) show "rest = []" "issued s i = Some (cr_CommandId r)" by auto
qed

lemma not_deliveringI: "sessions s k = Some a \<Longrightarrow> ss_pc a = pc \<Longrightarrow> (\<And>i r. pc \<noteq> Delivering i r) \<Longrightarrow>
    \<not> delivering s k i r"
  by (auto simp: delivering_def)

lemma not_delivering_none: "sessions s k = None \<Longrightarrow> \<not> delivering s k i r"
  by (auto simp: delivering_def)

text \<open>What every step keeps of the channel components.\<close>

definition chan_inv :: "server \<Rightarrow> bool" where
  "chan_inv s \<longleftrightarrow> pending_ok s \<and> delivery_ok s \<and> chans_ok s"

text \<open>
  It depends on the calls only through their identifiers and on the sessions only through
  their deliveries; shrinking \<open>pending\<close> keeps it.
\<close>

lemma chan_inv_cong:
  assumes "chan_inv s"
    and "issued t = issued s" and "delivering t = delivering s" and "chans t = chans s"
    and "\<And>c i. pending t c = Some i \<Longrightarrow> pending s c = Some i \<and>
      (\<exists>pc. calls t i = Some pc \<and> in_flight pc)"
  shows "chan_inv t"
proof -
  have "pending_ok t"
    unfolding pending_ok_def
  proof (intro allI impI)
    fix c i assume p: "pending t c = Some i"
    then obtain pc where pc: "pending s c = Some i" "calls t i = Some pc" "in_flight pc"
      using assms(5) by blast
    have "call_id pc = Some c"
      using pendingD(2) [of s c i] issued_calls [OF pc(2)] assms(1,2) pc(1)
      by (simp add: chan_inv_def)
    then show "(\<exists>pc. calls t i = Some pc \<and> in_flight pc \<and> call_id pc = Some c) \<and>
        chans t i = [] \<and> (\<forall>k r. \<not> delivering t k i r)"
      using pc assms(1,3,4) pendingD(3,4) [of s c i] by (auto simp: chan_inv_def)
  qed
  moreover have "delivery_ok t" "chans_ok t"
    using assms(1-4) by (auto simp: chan_inv_def delivery_ok_def chans_ok_def)
  ultimately show ?thesis by (simp add: chan_inv_def)
qed

lemma issued_move:
  "issued s i = call_id pc \<Longrightarrow> issued (set_call i pc s) = issued s"
  by (auto simp: fun_eq_iff)

lemma delivering_move:
  assumes "\<And>i r. \<not> delivering s k i r" and "\<And>i r. ss_pc b \<noteq> Delivering i r"
  shows "delivering (set_session k b s) = delivering s"
  using assms by (auto simp: fun_eq_iff)

lemma issued_other [simp]:
  "issued (registerAgent k a s) = issued s" "issued (unregisterAgent x s) = issued s"
  by (simp_all add: registerAgent_def unregisterAgent_def)

lemma handleAgentMessage_cases:
  "handleAgentMessage k a now msg s = s \<or>
   (\<exists>hb. msg = Some (AgentMessage_Heartbeat hb) \<and> handleAgentMessage k a now msg s =
      set_session k (a\<lparr>ss_lastMetrics := hb_Metrics hb, ss_lastSeen := now\<rparr>) s) \<or>
   (\<exists>r i. msg = Some (AgentMessage_CommandResult r) \<and> pending s (cr_CommandId r) = Some i \<and>
      handleAgentMessage k a now msg s = (set_session k (a\<lparr>ss_pc := Delivering i r\<rparr>) s)
        \<lparr>pending := (pending s)(cr_CommandId r := None)\<rparr>)"
  by (auto simp: handleAgentMessage_def split: option.split AgentPayload.split)

text \<open>A result that is waited for: its entry goes, and its session stands at the delivery.\<close>

lemma chan_inv_claim:
  assumes inv: "chan_inv s" and hit: "pending s (cr_CommandId r) = Some i"
    and nd: "\<And>i r. \<not> delivering s k i r"
  shows "chan_inv ((set_session k (a\<lparr>ss_pc := Delivering i r\<rparr>) s)\<lparr>pending := (pending s)(cr_CommandId r := None)\<rparr>)"
    (is "chan_inv ?t")
proof -
  note old = inv [unfolded chan_inv_def]
  note p = pendingD [OF conjunct1 [OF old] hit]
  have other: "issued s j = Some (cr_CommandId r') \<and> j \<noteq> i \<and> chans s j = []"
    if "delivering s k' j r'" for k' j r'
    using that old deliveryD [of s k' j r'] p(4) by blast
  have "pending_ok ?t"
    unfolding pending_ok_def
  proof (intro allI impI)
    fix c j assume "pending ?t c = Some j"
    then have c: "c \<noteq> cr_CommandId r" "pending s c = Some j" by (auto split: if_splits)
    note q = pendingD [OF conjunct1 [OF old] c(2)]
    have "j \<noteq> i" using q(2) p(2) c(1) by auto
    with q show "(\<exists>pc. calls ?t j = Some pc \<and> in_flight pc \<and> call_id pc = Some c) \<and>
        chans ?t j = [] \<and> (\<forall>k' r'. \<not> delivering ?t k' j r')"
      by (simp add: nd)
  qed
  moreover have "delivery_ok ?t"
    unfolding delivery_ok_def using p other old deliveryD(3) [of s]
    by (simp add: nd split: if_splits) blast
  moreover have "chans_ok ?t" using old by (simp add: chans_ok_def)
  ultimately show ?thesis by (simp add: chan_inv_def)
qed

lemma chan_inv_receive:
  assumes inv: "chan_inv s" and k: "sessions s k = Some a" "ss_pc a = Looping"
  shows "chan_inv (handleAgentMessage k a now msg s)"
proof -
  have nd: "\<not> delivering s k i r" for i r using k by (auto simp: delivering_def)
  from handleAgentMessage_cases [of k a now msg s] show ?thesis
  proof (elim disjE exE conjE)
    assume "handleAgentMessage k a now msg s = s"
    with inv show ?thesis by simp
  next
    fix hb
    assume beat: "handleAgentMessage k a now msg s =
      set_session k (a\<lparr>ss_lastMetrics := hb_Metrics hb, ss_lastSeen := now\<rparr>) s"
    show ?thesis unfolding beat
      by (rule chan_inv_cong [OF inv])
        (use nd k inv in \<open>auto simp: chan_inv_def delivering_move dest: pendingD\<close>)
  next
    fix r i
    assume "pending s (cr_CommandId r) = Some i"
      "handleAgentMessage k a now msg s = (set_session k (a\<lparr>ss_pc := Delivering i r\<rparr>) s)
         \<lparr>pending := (pending s)(cr_CommandId r := None)\<rparr>"
    then show ?thesis using chan_inv_claim [OF inv _ nd] by simp
  qed
qed

lemma chan_inv_deliver:
  assumes inv: "chan_inv s" and k: "sessions s k = Some a" "ss_pc a = Delivering i r"
  shows "chan_inv ((set_session k (a\<lparr>ss_pc := Looping\<rparr>) s)\<lparr>chans := (chans s)(i := chans s i @ [r])\<rparr>)"
    (is "chan_inv ?t")
proof -
  note old = inv [unfolded chan_inv_def]
  have d: "delivering s k i r" using k by (rule deliveringI)
  note e = deliveryD [OF conjunct1 [OF conjunct2 [OF old]] d]
  have nd: "delivering ?t k' j r' \<longleftrightarrow> k' \<noteq> k \<and> delivering s k' j r'" for k' j r' by auto
  have only: "j \<noteq> i" if "delivering s k' j r'" "k' \<noteq> k" for k' j r'
    using that e(3) by auto
  have "pending_ok ?t"
    using old d unfolding pending_ok_def nd by auto
  moreover have "delivery_ok ?t"
    using old only unfolding delivery_ok_def nd by auto blast
  moreover have "chans_ok ?t"
    using old e by (auto simp: chans_ok_def)
  ultimately show ?thesis by (simp add: chan_inv_def)
qed

lemma chan_inv_call_register:
  assumes inv: "chan_inv s" and ids: "ids_ok s" and i: "calls s i = Some (Found k p)"
    and new: "cid \<notin> used_ids s"
  shows "chan_inv ((set_call i (Sending k cid p) s)
    \<lparr>pending := (pending s)(cid \<mapsto> i), chans := (chans s)(i := []), used_ids := insert cid (used_ids s)\<rparr>)"
    (is "chan_inv ?t")
proof -
  note old = inv [unfolded chan_inv_def]
  have none: "issued s i = None" using i by (simp add: issued_calls)
  have nd: "\<not> delivering s k' i r" for k' r using none old deliveryD(2) [of s k' i r] by auto
  have np: "pending s c \<noteq> Some i" for c using none old pendingD(2) [of s c i] by auto
  have "pending_ok ?t"
    unfolding pending_ok_def
  proof (intro allI impI)
    fix c j assume "pending ?t c = Some j"
    then consider "c = cid" "j = i" | "c \<noteq> cid" "pending s c = Some j" by (auto split: if_splits)
    then show "(\<exists>pc. calls ?t j = Some pc \<and> in_flight pc \<and> call_id pc = Some c) \<and>
      chans ?t j = [] \<and> (\<forall>k r. \<not> delivering ?t k j r)"
    proof cases
      case 1
      with nd show ?thesis by simp
    next
      case 2
      with np have "j \<noteq> i" by auto
      with pendingD [OF conjunct1 [OF old] 2(2)] show ?thesis by simp
    qed
  qed
  moreover have "delivery_ok ?t"
    using old nd unfolding delivery_ok_def by auto
  moreover have "chans_ok ?t"
    using old by (auto simp: chans_ok_def)
  ultimately show ?thesis by (simp add: chan_inv_def)
qed

lemma chan_inv_call_result:
  assumes inv: "chan_inv s" and i: "calls s i = Some (Waiting cid)" and ch: "chans s i = r # rest"
  shows "chan_inv ((set_call i (Returned (Some cid) (Inr r)) s)\<lparr>chans := (chans s)(i := rest)\<rparr>)"
    (is "chan_inv ?t")
proof -
  note old = inv [unfolded chan_inv_def]
  have nd: "\<not> delivering s k' i r" for k' r using ch old deliveryD(1) [of s k' i r] by auto
  have np: "pending s c \<noteq> Some i" for c using ch old pendingD(3) [of s c i] by auto
  have iss: "issued ?t = issued s" using i by (auto simp: fun_eq_iff issued_calls)
  have "pending_ok ?t" using old np by (auto simp: pending_ok_def)
  moreover have "delivery_ok ?t" using old nd unfolding delivery_ok_def iss by auto
  moreover have "chans_ok ?t"
    using old chansD [OF _ ch] unfolding chans_ok_def iss by auto
  ultimately show ?thesis by (simp add: chan_inv_def)
qed

text \<open>Three ways of moving on that leave the channels alone.\<close>

lemma chan_inv_agents [simp]: "chan_inv (s\<lparr>agents := ag\<rparr>) = chan_inv s"
  by (simp add: chan_inv_def pending_ok_def delivery_ok_def chans_ok_def)

lemma chan_inv_session:
  assumes "chan_inv s" and "delivering (set_session k b s) = delivering s"
  shows "chan_inv (set_session k b s)"
  by (rule chan_inv_cong [OF assms(1)])
    (use assms in \<open>auto simp del: delivering_simps simp: chan_inv_def dest: pendingD\<close>)

lemma chan_inv_call:
  assumes "chan_inv s" and "issued s i = call_id pc"
    and "\<And>c. pending s c = Some i \<Longrightarrow> in_flight pc"
  shows "chan_inv (set_call i pc s)"
  by (rule chan_inv_cong [OF assms(1)])
    (use assms in \<open>auto simp: issued_move chan_inv_def dest: pendingD\<close>)

lemma chan_inv_idle_session:
  assumes "chan_inv s" and "\<And>i r. \<not> delivering s k i r" and "\<And>i r. ss_pc b \<noteq> Delivering i r"
  shows "chan_inv (set_session k b s)"
  by (rule chan_inv_session [OF assms(1) delivering_move]) (use assms in auto)

lemma not_pending: "chan_inv s \<Longrightarrow> issued s i = None \<Longrightarrow> pending s c \<noteq> Some i"
  by (auto simp: chan_inv_def dest: pendingD(2))

lemma chan_inv_step:
  assumes "server_step quote s t" and inv: "chan_inv s" and ids: "ids_ok s"
  shows "chan_inv t"
  using assms(1)
proof (cases rule: server_step.cases)
  case (register k serverID hostname)
  then show ?thesis
    using chan_inv_idle_session [OF inv not_delivering_none, of k "new_session serverID hostname"]
    by (simp add: registerAgent_def new_session_def)
next
  case (receive k a now msg)
  with inv show ?thesis by (simp add: chan_inv_receive)
next
  case (deliver k a i r)
  with inv show ?thesis by (simp only: chan_inv_deliver)
next
  case (call_register i k p cid)
  show ?thesis unfolding call_register(1)
    by (rule chan_inv_call_register [OF inv ids call_register(2,3)])
next
  case (call_result i cid r rest)
  with inv show ?thesis by (simp only: chan_inv_call_result)
next
  case (transmit k a msg rest)
  then show ?thesis by (auto simp: delivering_def intro!: chan_inv_idle_session [OF inv])
next
  case (leave k a)
  then show ?thesis by (auto simp: delivering_def intro!: chan_inv_idle_session [OF inv])
next
  case (unregister k a)
  then show ?thesis
    by (auto simp: unregisterAgent_def delivering_def intro!: chan_inv_idle_session [OF inv])
next
  case (call_send i k cid p a)
  let ?b = "a\<lparr>ss_send := ss_send a @ [Some (ServerMessage_Command \<lparr>cmd_CommandId = cid, cmd_Payload = p\<rparr>)]\<rparr>"
  have "chan_inv (set_session k ?b s)"
    by (rule chan_inv_session [OF inv]) (use call_send(3) in \<open>auto simp: fun_eq_iff delivering_def\<close>)
  then show ?thesis unfolding call_send(1)
    by (rule chan_inv_call) (use call_send(2) in \<open>simp_all add: issued_calls\<close>)
next
  case (call_cleanup i cid)
  have "pending s c = Some i \<Longrightarrow> c = cid" for c
    using inv call_cleanup(2) pendingD(2) [of s c i] by (auto simp: chan_inv_def issued_calls)
  with call_cleanup show ?thesis
    by (intro chan_inv_cong [OF inv])
      (use inv in \<open>auto simp: issued_move issued_calls chan_inv_def dest: pendingD split: if_splits\<close>)
qed (use not_pending [OF inv] in \<open>auto simp: issued_calls issued_none intro!: chan_inv_call [OF inv]\<close>)

lemma server_inv_step:
  "server_step quote s t \<Longrightarrow> server_inv s \<Longrightarrow> server_inv t"
  using chan_inv_step ids_step results_step registry_step
  unfolding server_inv_def chan_inv_def by blast

lemma server_inv_init: "server_inv NewServer"
  by (simp add: server_inv_def inv_defs NewServer_def issued_def delivering_def)

lemma reachable_inv: "reachable quote s \<Longrightarrow> server_inv s"
  by (induction rule: reachable.induct) (auto intro: server_inv_init server_inv_step)

lemma reachable_steps:
  "(server_step quote)\<^sup>*\<^sup>* s t \<Longrightarrow> reachable quote s \<Longrightarrow> reachable quote t"
  by (induction rule: rtranclp_induct) (auto intro: reachable.step)

section \<open>Properties of SendCommand\<close>

definition demo_payload :: "CommandPayload option" where
  "demo_payload = Some (Command_DeleteVhost \<lparr>dv_Domain = ''a.org''\<rparr>)"

definition demo_result :: CommandResult where
  "demo_result = \<lparr>cr_CommandId = ''id'', cr_Success = True, cr_Error = []\<rparr>"

text \<open>
  An example run, for the witnesses: one agent connects, one command is sent to it, its
  result comes back and is returned.
\<close>

definition demo_connected :: server where
  "demo_connected = registerAgent 0 (new_session ''srv_1'' ''web1'') NewServer"

definition demo_sending :: server where
  "demo_sending = (set_call 0 (Sending 0 ''id'' demo_payload)
       (set_call 0 (Found 0 demo_payload) (set_call 0 (Start ''srv_1'' demo_payload) demo_connected)))
     \<lparr>pending := Map.empty(''id'' \<mapsto> 0), chans := (\<lambda>_. [])(0 := []), used_ids := {''id''}\<rparr>"

definition demo_sent :: server where
  "demo_sent = set_call 0 (Waiting ''id'') (set_session 0
     ((new_session ''srv_1'' ''web1'')\<lparr>ss_send := [Some (ServerMessage_Command
        \<lparr>cmd_CommandId = ''id'', cmd_Payload = demo_payload\<rparr>)]\<rparr>) demo_sending)"

definition demo_arrived :: server where
  "demo_arrived = handleAgentMessage 0 (the (sessions demo_sent 0)) 7
     (Some (AgentMessage_CommandResult demo_result)) demo_sent"

definition demo_delivered :: server where
  "demo_delivered = (set_session 0 ((the (sessions demo_arrived 0))\<lparr>ss_pc := Looping\<rparr>) demo_arrived)
     \<lparr>chans := (chans demo_arrived)(0 := chans demo_arrived 0 @ [demo_result])\<rparr>"

definition demo_returned :: server where
  "demo_returned = (set_call 0 (Returned (Some ''id'') (Inr demo_result)) demo_delivered)
     \<lparr>chans := (chans demo_delivered)(0 := [])\<rparr>"

lemmas demo_defs = demo_connected_def demo_sending_def demo_sent_def demo_arrived_def
  demo_delivered_def demo_returned_def demo_payload_def demo_result_def

lemmas demo_simps = demo_defs handleAgentMessage_def op_defs NewServer_def

lemma demo_steps:
  "reachable quote demo_connected" "reachable quote demo_sending" "reachable quote demo_sent"
  "reachable quote demo_arrived" "reachable quote demo_delivered" "reachable quote demo_returned"
proof -
  show 1: "reachable quote demo_connected"
    unfolding demo_connected_def
    by (rule reachable.step [OF reachable.init server_step.register]) (simp add: NewServer_def)
  have 2: "reachable quote (set_call 0 (Start ''srv_1'' demo_payload) demo_connected)"
    by (rule reachable.step [OF 1 server_step.call_begin]) (simp add: demo_simps)
  have 3: "reachable quote (set_call 0 (Found 0 demo_payload)
      (set_call 0 (Start ''srv_1'' demo_payload) demo_connected))"
    by (rule reachable.step [OF 2 server_step.call_lookup [where serverID = "''srv_1''"]])
      (simp_all add: demo_simps)
  have "server_step quote (set_call 0 (Found 0 demo_payload)
      (set_call 0 (Start ''srv_1'' demo_payload) demo_connected)) demo_sending"
    using server_step.call_register [of "set_call 0 (Found 0 demo_payload)
      (set_call 0 (Start ''srv_1'' demo_payload) demo_connected)" 0 0 demo_payload "''id''" quote]
    by (simp add: demo_simps)
  with 3 show 4: "reachable quote demo_sending" by (rule reachable.step)
  have "server_step quote demo_sending demo_sent"
    using server_step.call_send [of demo_sending 0 0 "''id''" demo_payload
        "new_session ''srv_1'' ''web1''" quote]
    by (simp add: demo_simps send_capacity_def)
  with 4 show 5: "reachable quote demo_sent" by (rule reachable.step)
  show 6: "reachable quote demo_arrived"
    unfolding demo_arrived_def
    by (rule reachable.step [OF 5 server_step.receive]) (simp_all add: demo_simps)
  show 7: "reachable quote demo_delivered"
    unfolding demo_delivered_def
    by (rule reachable.step [OF 6 server_step.deliver])
      (simp_all add: demo_simps result_capacity_def)
  show "reachable quote demo_returned"
    unfolding demo_returned_def
    by (rule reachable.step [OF 7 server_step.call_result [where cid = "''id''"]])
      (simp_all add: demo_simps)
qed

text \<open>
  C11: handing a result over never blocks the session: whenever a session stands at
  \<open>ch <- result\<close>, the channel has room. So a slow or gone caller, a duplicate or a late
  result never stop a session from serving its agent.
\<close>

theorem delivery_never_blocks:
  assumes "reachable quote s" and "sessions s k = Some a" and "ss_pc a = Delivering i r"
  shows "length (chans s i) < result_capacity"
proof -
  have "delivering s k i r" using assms(2,3) by (rule deliveringI)
  then show ?thesis
    using reachable_inv [OF assms(1)] deliveryD(1) [of s k i r]
    by (simp add: server_inv_def result_capacity_def)
qed

theorem delivery_never_blocks_witness:
  "length (chans demo_arrived 0) < result_capacity"
  by (rule delivery_never_blocks [where quote = id and k = 0 and r = demo_result
        and a = "the (sessions demo_arrived 0)", OF demo_steps(4)])
    (simp_all add: demo_simps)

text \<open>
  C6: answers do not cross: a call that returns a result returns the one that carries the
  identifier of its own command, and no other call has issued that identifier.
\<close>

theorem results_match_calls:
  assumes "reachable quote s" and "calls s i = Some (Returned c (Inr r))"
  shows "c = Some (cr_CommandId r) \<and> {j. issued s j = c} = {i}"
proof -
  have inv: "results_ok s" "ids_ok s" using reachable_inv [OF assms(1)] by (auto simp: server_inv_def)
  then have "c = Some (cr_CommandId r)" using assms(2) by (auto simp: results_ok_def)
  moreover have "issued s i = c" using assms(2) by (simp add: issued_calls)
  ultimately show ?thesis using inv(2) unfolding ids_ok_def by auto
qed

theorem results_match_calls_witness:
  "Some ''id'' = Some (cr_CommandId demo_result) \<and> {j. issued demo_returned j = Some ''id''} = {0}"
  by (rule results_match_calls [where quote = id, OF demo_steps(6)]) (simp add: demo_returned_def)

text \<open>
  C27: no entry is leaked: once a call has returned, with a result, an error or a timeout,
  \<open>pending\<close> has no entry for it.
\<close>

theorem returned_calls_are_forgotten:
  assumes "reachable quote s" and "calls s i = Some (Returned c res)"
  shows "Some i \<notin> range (pending s)"
proof
  assume "Some i \<in> range (pending s)"
  then obtain c' where "pending s c' = Some i" by auto
  then show False
    using reachable_inv [OF assms(1)] pendingD(1) [of s c' i] assms(2) by (auto simp: server_inv_def)
qed

theorem returned_calls_are_forgotten_witness: "Some 0 \<notin> range (pending demo_returned)"
  by (rule returned_calls_are_forgotten [where quote = id and c = "Some ''id''"
        and res = "Inr demo_result", OF demo_steps(6)]) (simp add: demo_returned_def)

text \<open>
  A call that has handed its command to the session always can return: whatever the
  agent does or fails to do, two steps of its own (the timeout and the cleanup) are open to
  it, and they answer with the timeout error and forget the call.
\<close>

theorem waiting_calls_can_return:
  assumes "calls s i = Some (Waiting cid)"
  shows "\<exists>t. (server_step quote)\<^sup>*\<^sup>* s t \<and>
    calls t i = Some (Returned (Some cid) (Inl timeout_error)) \<and> pending t cid = None"
proof -
  let ?s1 = "set_call i (Expired cid) s"
  let ?s2 = "(set_call i (Returned (Some cid) (Inl timeout_error)) ?s1)
    \<lparr>pending := (pending ?s1)(cid := None)\<rparr>"
  have "server_step quote s ?s1" using assms by (rule server_step.call_timeout)
  moreover have "server_step quote ?s1 ?s2" by (rule server_step.call_cleanup) simp
  ultimately have "(server_step quote)\<^sup>*\<^sup>* s ?s2" by auto
  then show ?thesis by (intro exI [of _ ?s2]) simp
qed

theorem waiting_calls_can_return_witness:
  "\<exists>t. (server_step id)\<^sup>*\<^sup>* demo_sent t \<and>
    calls t 0 = Some (Returned (Some ''id'') (Inl timeout_error)) \<and> pending t ''id'' = None"
  by (rule waiting_calls_can_return) (simp add: demo_sent_def)

lemma rtranclp_3: "R a b \<Longrightarrow> R b c \<Longrightarrow> R c d \<Longrightarrow> R\<^sup>*\<^sup>* a d"
  by (rule converse_rtranclp_into_rtranclp [of R a b], assumption,
      rule converse_rtranclp_into_rtranclp [of R b c], assumption, rule r_into_rtranclp)

lemma rtranclp_4: "R a b \<Longrightarrow> R b c \<Longrightarrow> R c d \<Longrightarrow> R d e \<Longrightarrow> R\<^sup>*\<^sup>* a e"
  by (rule converse_rtranclp_into_rtranclp [of R a b], assumption, rule rtranclp_3)

text \<open>
  A command makes the round trip. When the server is registered with a live session
  whose queue has room, a call can put its command at the end of the queue, and whatever
  result the agent then sends back for the command is what the call returns.
\<close>

theorem SendCommand_roundtrip:
  assumes "agents s sid = Some k" and "sessions s k = Some a" and "ss_pc a = Looping"
    and "length (ss_send a) < send_capacity" and "calls s i = None" and "cid \<notin> used_ids s"
    and "cr_CommandId r = cid"
  shows "\<exists>t b u. (server_step quote)\<^sup>*\<^sup>* s t \<and> sessions t k = Some b \<and>
    ss_send b = ss_send a @
      [Some (ServerMessage_Command \<lparr>cmd_CommandId = cid, cmd_Payload = p\<rparr>)] \<and>
    (server_step quote)\<^sup>*\<^sup>* t u \<and> calls u i = Some (Returned (Some cid) (Inr r))"
proof -
  let ?s1 = "set_call i (Start sid p) s"
  let ?s2 = "set_call i (Found k p) ?s1"
  let ?s3 = "(set_call i (Sending k cid p) ?s2)\<lparr>pending := (pending ?s2)(cid \<mapsto> i),
    chans := (chans ?s2)(i := []), used_ids := insert cid (used_ids ?s2)\<rparr>"
  let ?b = "a\<lparr>ss_send := ss_send a @
    [Some (ServerMessage_Command \<lparr>cmd_CommandId = cid, cmd_Payload = p\<rparr>)]\<rparr>"
  let ?t = "set_call i (Waiting cid) (set_session k ?b ?s3)"
  let ?t1 = "(set_session k (?b\<lparr>ss_pc := Delivering i r\<rparr>) ?t)
    \<lparr>pending := (pending ?t)(cr_CommandId r := None)\<rparr>"
  let ?t2 = "(set_session k ((?b\<lparr>ss_pc := Delivering i r\<rparr>)\<lparr>ss_pc := Looping\<rparr>) ?t1)
    \<lparr>chans := (chans ?t1)(i := chans ?t1 i @ [r])\<rparr>"
  let ?u = "(set_call i (Returned (Some cid) (Inr r)) ?t2)\<lparr>chans := (chans ?t2)(i := [])\<rparr>"
  have "server_step quote s ?s1" using assms(5) by (rule server_step.call_begin)
  moreover have "server_step quote ?s1 ?s2"
    by (rule server_step.call_lookup [where serverID = sid]) (simp_all add: assms(1))
  moreover have "server_step quote ?s2 ?s3"
    by (rule server_step.call_register) (simp_all add: assms(6))
  moreover have "server_step quote ?s3 ?t"
    by (rule server_step.call_send) (simp_all add: assms(2,4))
  ultimately have there: "(server_step quote)\<^sup>*\<^sup>* s ?t" by (rule rtranclp_4)
  have "handleAgentMessage k ?b 0 (Some (AgentMessage_CommandResult r)) ?t = ?t1"
    by (simp add: handleAgentMessage_def assms(7))
  then have "server_step quote ?t ?t1"
    using server_step.receive [of ?t k ?b quote 0 "Some (AgentMessage_CommandResult r)"]
    by (simp add: assms(3))
  moreover have "server_step quote ?t1 ?t2"
    by (rule server_step.deliver) (simp_all add: result_capacity_def)
  moreover have "server_step quote ?t2 ?u"
    by (rule server_step.call_result) simp_all
  ultimately have "(server_step quote)\<^sup>*\<^sup>* ?t ?u" by (rule rtranclp_3)
  then show ?thesis
    using there by (intro exI [of _ ?t] exI [of _ ?b] exI [of _ ?u]) simp
qed

theorem SendCommand_roundtrip_witness:
  "\<exists>t b u. (server_step id)\<^sup>*\<^sup>* demo_connected t \<and> sessions t 0 = Some b \<and>
    ss_send b = ss_send (new_session ''srv_1'' ''web1'') @
      [Some (ServerMessage_Command \<lparr>cmd_CommandId = ''id'', cmd_Payload = demo_payload\<rparr>)] \<and>
    (server_step id)\<^sup>*\<^sup>* t u \<and> calls u 0 = Some (Returned (Some ''id'') (Inr demo_result))"
  by (rule SendCommand_roundtrip [where sid = "''srv_1''"])
    (simp_all add: demo_simps send_capacity_def)


section \<open>A call that never returns\<close>

text \<open>A call stuck at the send: its session is gone and has no room left.\<close>

definition stuck :: "nat \<Rightarrow> nat \<Rightarrow> server \<Rightarrow> bool" where
  "stuck i k s \<longleftrightarrow> (\<exists>cid p. calls s i = Some (Sending k cid p)) \<and>
     (\<exists>a. sessions s k = Some a \<and> ss_pc a = Gone \<and> send_capacity \<le> length (ss_send a))"

lemma stuck_step:
  assumes "server_step quote s t" and "stuck i k s"
  shows "stuck i k t \<and> calls t i = calls s i"
  using assms(1)
proof (cases rule: server_step.cases)
  case (receive k' a now msg)
  then have "k' \<noteq> k" using assms(2) by (auto simp: stuck_def)
  then show ?thesis
    using assms(2) handleAgentMessage_cases [of k' a now msg s] unfolding receive(1)
    by (elim disjE exE conjE) (auto simp: stuck_def)
qed (use assms(2) in \<open>auto simp: stuck_def registerAgent_def unregisterAgent_def\<close>)

lemma stuck_forever:
  "(server_step quote)\<^sup>*\<^sup>* s t \<Longrightarrow> stuck i k s \<Longrightarrow> stuck i k t \<and> calls t i = calls s i"
  by (induction rule: rtranclp_induct) (auto dest: stuck_step)

text \<open>Filling the queue of a session that does not send: \<open>n\<close> calls wait.\<close>

definition filled :: "nat \<Rightarrow> server \<Rightarrow> bool" where
  "filled n s \<longleftrightarrow> (\<exists>a. sessions s 0 = Some a \<and> ss_pc a = Looping \<and>
       ss_serverID a = ''srv_1'' \<and> length (ss_send a) = n) \<and>
     agents s ''srv_1'' = Some 0 \<and> finite (used_ids s) \<and> (\<forall>j\<ge>n. calls s j = None)"

lemma new_id: "finite (used_ids s) \<Longrightarrow> \<exists>cid. cid \<notin> used_ids s"
  using ex_new_if_finite infinite_UNIV_listI by blast

text \<open>The steps of a call up to the send.\<close>

lemma call_to_send:
  assumes "reachable quote s" and "calls s i = None" and "agents s ''srv_1'' = Some k"
    and "finite (used_ids s)"
  shows "\<exists>t cid. reachable quote t \<and> calls t = (calls s)(i \<mapsto> Sending k cid None) \<and>
    sessions t = sessions s \<and> agents t = agents s \<and> finite (used_ids t)"
proof -
  let ?s1 = "set_call i (Start ''srv_1'' None) s"
  let ?s2 = "set_call i (Found k None) ?s1"
  obtain cid where new: "cid \<notin> used_ids s" using new_id [OF assms(4)] by auto
  let ?s3 = "(set_call i (Sending k cid None) ?s2)\<lparr>pending := (pending ?s2)(cid \<mapsto> i),
    chans := (chans ?s2)(i := []), used_ids := insert cid (used_ids ?s2)\<rparr>"
  have "server_step quote s ?s1" using assms(2) by (rule server_step.call_begin)
  moreover have "server_step quote ?s1 ?s2"
    by (rule server_step.call_lookup [where serverID = "''srv_1''"]) (simp_all add: assms(3))
  moreover have "server_step quote ?s2 ?s3"
    by (rule server_step.call_register) (simp_all add: new)
  ultimately have "reachable quote ?s3" using assms(1) by (meson reachable.step)
  then show ?thesis by (intro exI [of _ ?s3] exI [of _ cid]) (simp add: assms(4))
qed

lemma reachable_filled: "n \<le> send_capacity \<Longrightarrow> \<exists>s. reachable quote s \<and> filled n s"
proof (induction n)
  case 0
  have "filled 0 demo_connected" by (simp add: filled_def demo_simps)
  then show ?case using demo_steps(1) by blast
next
  case (Suc n)
  then obtain s a where s: "reachable quote s" "sessions s 0 = Some a" "ss_pc a = Looping"
    "ss_serverID a = ''srv_1''" "length (ss_send a) = n" "agents s ''srv_1'' = Some 0"
    "finite (used_ids s)" "\<forall>j\<ge>n. calls s j = None" by (auto simp: filled_def)
  then obtain t cid where t: "reachable quote t" "calls t = (calls s)(n \<mapsto> Sending 0 cid None)"
    "sessions t = sessions s" "agents t = agents s" "finite (used_ids t)"
    using call_to_send [OF s(1) _ s(6,7), of n] by auto
  let ?b = "a\<lparr>ss_send := ss_send a @ [Some (ServerMessage_Command \<lparr>cmd_CommandId = cid, cmd_Payload = None\<rparr>)]\<rparr>"
  let ?u = "set_call n (Waiting cid) (set_session 0 ?b t)"
  have "server_step quote t ?u"
    by (rule server_step.call_send) (use s t Suc.prems in \<open>simp_all\<close>)
  with t(1) have "reachable quote ?u" by (rule reachable.step)
  moreover have "filled (Suc n) ?u" using s t by (auto simp: filled_def)
  ultimately show ?case by blast
qed


end
