(* ===== verification/Machine.thy ===== *)
theory Machine
  imports Paths "HOL-Library.State_Monad"
begin

text \<open>
  Everything the agent does to the outside goes through a system call, an SQL statement, an
  HTTP request or a program it runs. What answers them is not part of the repository: a
  \<open>'w host\<close> is a parameter, a record with one function per operation on an unknown
  world \<open>'w\<close>. A computation runs on a \<open>'w machine\<close>, which pairs the world
  with the history of the calls made so far. \<open>emits P f\<close> says that every call
  \<open>f\<close> makes satisfies \<open>P\<close>, whatever the host answers; its rules are collected
  in \<open>emits_intros\<close>.
\<close>

section \<open>Calls and hosts\<close>

text \<open>Arguments bound to the placeholders of an SQL statement.\<close>

datatype sqlval = SqlStr string | SqlInt int | SqlU64 u64

text \<open>The JSON values the program builds, with objects as lists of fields in order.\<close>

datatype json =
    JNull | JBool bool | JNum int | JStr string
  | JArr "json list" | JObj "(string \<times> json) list"

datatype call =
    CExec string "string list"
  | CMkdirAll string nat
  | CReadFile string
  | COpenRead string
  | CWriteFile string string nat
  | COpenAppend string nat
  | CWriteString string string
  | CRemove string
  | CRemoveAll string
  | CSymlink string string
  | CChmod string nat
  | CStatfs string
  | CSqlExec string "sqlval list"
  | CSqlQueryRow string "sqlval list"
  | CHttp string string "(string \<times> string) list" "json option"

text \<open>
  An error of a file operation that \<open>os.IsNotExist\<close> can recognise, and the two
  outcomes of \<open>QueryRow(...).Scan\<close> other than a row.
\<close>

datatype fs_err = NotExist string | FsErr string

datatype sql_err = ErrNoRows | SqlErr string

fun fs_msg :: "fs_err \<Rightarrow> goerr" where
  "fs_msg (NotExist e) = e"
| "fs_msg (FsErr e) = e"

fun IsNotExist :: "fs_err \<Rightarrow> bool" where
  "IsNotExist (NotExist e) = True"
| "IsNotExist (FsErr e) = False"

fun_cases IsNotExistE: "IsNotExist e"

text \<open>
  The statistics \<open>statfs\<close> fills in: blocks, free blocks, and the block size, a signed
  64-bit number in Go.
\<close>

record statfs_buf =
  Blocks :: u64
  Bfree :: u64
  Bsize :: u64

text \<open>
  The host. Beside the operations it holds what the Unicode tables and the float parser of
  the Go library compute (\<open>uni_upper\<close>, \<open>uni_quote\<close>), and the verdict of
  \<open>http.NewRequest\<close> on a URL.
\<close>

record 'w host =
  h_exec :: "string \<Rightarrow> string list \<Rightarrow> 'w \<Rightarrow> (string \<times> goerr option) \<times> 'w"
  h_mkdir_all :: "string \<Rightarrow> nat \<Rightarrow> 'w \<Rightarrow> goerr option \<times> 'w"
  h_read_file :: "string \<Rightarrow> 'w \<Rightarrow> (string \<times> fs_err option) \<times> 'w"
  h_open_read :: "string \<Rightarrow> 'w \<Rightarrow> (goerr + string) \<times> 'w"
  h_write_file :: "string \<Rightarrow> string \<Rightarrow> nat \<Rightarrow> 'w \<Rightarrow> goerr option \<times> 'w"
  h_open_append :: "string \<Rightarrow> nat \<Rightarrow> 'w \<Rightarrow> goerr option \<times> 'w"
  h_write_string :: "string \<Rightarrow> string \<Rightarrow> 'w \<Rightarrow> goerr option \<times> 'w"
  h_remove :: "string \<Rightarrow> 'w \<Rightarrow> fs_err option \<times> 'w"
  h_remove_all :: "string \<Rightarrow> 'w \<Rightarrow> fs_err option \<times> 'w"
  h_symlink :: "string \<Rightarrow> string \<Rightarrow> 'w \<Rightarrow> goerr option \<times> 'w"
  h_chmod :: "string \<Rightarrow> nat \<Rightarrow> 'w \<Rightarrow> goerr option \<times> 'w"
  h_statfs :: "string \<Rightarrow> 'w \<Rightarrow> (goerr + statfs_buf) \<times> 'w"
  h_sql_exec :: "string \<Rightarrow> sqlval list \<Rightarrow> 'w \<Rightarrow> goerr option \<times> 'w"
  h_sql_query_id :: "string \<Rightarrow> sqlval list \<Rightarrow> 'w \<Rightarrow> (sql_err + int) \<times> 'w"
  h_http :: "string \<Rightarrow> string \<Rightarrow> (string \<times> string) list \<Rightarrow> json option \<Rightarrow> 'w
      \<Rightarrow> (goerr + nat \<times> string) \<times> 'w"
  url_error :: "string \<Rightarrow> string \<Rightarrow> goerr option"
  uni_upper :: "string \<Rightarrow> string"
  uni_quote :: "string \<Rightarrow> string"

record 'w machine =
  world :: 'w
  trace :: "call list"

type_synonym ('w, 'a) io = "('w machine, 'a) state"

text \<open>One operation of the host, recorded in the history.\<close>

definition perform :: "call \<Rightarrow> ('w \<Rightarrow> 'a \<times> 'w) \<Rightarrow> ('w, 'a) io" where
  "perform c f =
     State (\<lambda>m. case f (world m) of (a, w) \<Rightarrow> (a, \<lparr>world = w, trace = trace m @ [c]\<rparr>))"

definition exec_command :: "'w host \<Rightarrow> string \<Rightarrow> string list \<Rightarrow> ('w, string \<times> goerr option) io" where
  "exec_command h prog args = perform (CExec prog args) (h_exec h prog args)"

definition os_MkdirAll :: "'w host \<Rightarrow> string \<Rightarrow> nat \<Rightarrow> ('w, goerr option) io" where
  "os_MkdirAll h p perm = perform (CMkdirAll p perm) (h_mkdir_all h p perm)"

definition os_ReadFile :: "'w host \<Rightarrow> string \<Rightarrow> ('w, string \<times> fs_err option) io" where
  "os_ReadFile h p = perform (CReadFile p) (h_read_file h p)"

definition os_Open :: "'w host \<Rightarrow> string \<Rightarrow> ('w, goerr + string) io" where
  "os_Open h p = perform (COpenRead p) (h_open_read h p)"

definition os_WriteFile :: "'w host \<Rightarrow> string \<Rightarrow> string \<Rightarrow> nat \<Rightarrow> ('w, goerr option) io" where
  "os_WriteFile h p d perm = perform (CWriteFile p d perm) (h_write_file h p d perm)"

definition os_OpenAppend :: "'w host \<Rightarrow> string \<Rightarrow> nat \<Rightarrow> ('w, goerr option) io" where
  "os_OpenAppend h p perm = perform (COpenAppend p perm) (h_open_append h p perm)"

definition file_WriteString :: "'w host \<Rightarrow> string \<Rightarrow> string \<Rightarrow> ('w, goerr option) io" where
  "file_WriteString h p d = perform (CWriteString p d) (h_write_string h p d)"

definition os_Remove :: "'w host \<Rightarrow> string \<Rightarrow> ('w, fs_err option) io" where
  "os_Remove h p = perform (CRemove p) (h_remove h p)"

definition os_RemoveAll :: "'w host \<Rightarrow> string \<Rightarrow> ('w, fs_err option) io" where
  "os_RemoveAll h p = perform (CRemoveAll p) (h_remove_all h p)"

definition os_Symlink :: "'w host \<Rightarrow> string \<Rightarrow> string \<Rightarrow> ('w, goerr option) io" where
  "os_Symlink h old new = perform (CSymlink old new) (h_symlink h old new)"

definition os_Chmod :: "'w host \<Rightarrow> string \<Rightarrow> nat \<Rightarrow> ('w, goerr option) io" where
  "os_Chmod h p mode = perform (CChmod p mode) (h_chmod h p mode)"

definition syscall_Statfs :: "'w host \<Rightarrow> string \<Rightarrow> ('w, goerr + statfs_buf) io" where
  "syscall_Statfs h p = perform (CStatfs p) (h_statfs h p)"

definition db_Exec :: "'w host \<Rightarrow> string \<Rightarrow> sqlval list \<Rightarrow> ('w, goerr option) io" where
  "db_Exec h stmt args = perform (CSqlExec stmt args) (h_sql_exec h stmt args)"

definition db_QueryRowId :: "'w host \<Rightarrow> string \<Rightarrow> sqlval list \<Rightarrow> ('w, sql_err + int) io" where
  "db_QueryRowId h stmt args = perform (CSqlQueryRow stmt args) (h_sql_query_id h stmt args)"

definition http_Do :: "'w host \<Rightarrow> string \<Rightarrow> string \<Rightarrow> (string \<times> string) list \<Rightarrow> json option
    \<Rightarrow> ('w, goerr + nat \<times> string) io" where
  "http_Do h meth url hdrs body = perform (CHttp meth url hdrs body) (h_http h meth url hdrs body)"

lemmas host_ops =
  exec_command_def os_MkdirAll_def os_ReadFile_def os_Open_def os_WriteFile_def
  os_OpenAppend_def file_WriteString_def os_Remove_def os_RemoveAll_def os_Symlink_def
  os_Chmod_def syscall_Statfs_def db_Exec_def db_QueryRowId_def http_Do_def

lemma run_perform [simp]:
  "run_state (perform c f) m =
     (fst (f (world m)), \<lparr>world = snd (f (world m)), trace = trace m @ [c]\<rparr>)"
  by (simp add: perform_def split: prod.splits)

text \<open>
  A host on which every operation succeeds and nothing is stored, for examples: no row is
  found, every file is empty, every request is answered with status 200.
\<close>

definition idle_host :: "'w host" where
  "idle_host =
     \<lparr>h_exec = (\<lambda>_ _ w. (([], None), w)), h_mkdir_all = (\<lambda>_ _ w. (None, w)),
      h_read_file = (\<lambda>_ w. (([], None), w)), h_open_read = (\<lambda>_ w. (Inr [], w)),
      h_write_file = (\<lambda>_ _ _ w. (None, w)), h_open_append = (\<lambda>_ _ w. (None, w)),
      h_write_string = (\<lambda>_ _ w. (None, w)), h_remove = (\<lambda>_ w. (None, w)),
      h_remove_all = (\<lambda>_ w. (None, w)), h_symlink = (\<lambda>_ _ w. (None, w)),
      h_chmod = (\<lambda>_ _ w. (None, w)),
      h_statfs = (\<lambda>_ w. (Inr \<lparr>Blocks = 0, Bfree = 0, Bsize = 0\<rparr>, w)),
      h_sql_exec = (\<lambda>_ _ w. (None, w)), h_sql_query_id = (\<lambda>_ _ w. (Inl ErrNoRows, w)),
      h_http = (\<lambda>_ _ _ _ w. (Inr (200, []), w)), url_error = (\<lambda>_ _. None),
      uni_upper = (\<lambda>s. s), uni_quote = (\<lambda>s. s)\<rparr>"

definition quiet_host :: "unit host" where
  "quiet_host = idle_host"

lemma idle_host_simps [simp]:
  "h_exec idle_host prog args w = (([], None), w)"
  "h_mkdir_all idle_host p perm w = (None, w)"
  "h_read_file idle_host p w = (([], None), w)"
  "h_write_file idle_host p d perm w = (None, w)"
  "h_open_append idle_host p perm w = (None, w)"
  "h_write_string idle_host p d w = (None, w)"
  "h_remove idle_host p w = (None, w)"
  "h_remove_all idle_host p w = (None, w)"
  "h_symlink idle_host p q w = (None, w)"
  "h_chmod idle_host p perm w = (None, w)"
  "h_sql_exec idle_host stmt vals w = (None, w)"
  "h_sql_query_id idle_host stmt vals w = (Inl ErrNoRows, w)"
  "h_http idle_host meth url hdrs body w = (Inr (200, []), w)"
  "url_error idle_host meth url = None"
  "uni_upper idle_host = (\<lambda>s. s)"
  "uni_quote idle_host = (\<lambda>s. s)"
  by (simp_all add: idle_host_def)

lemma quiet_host_simps [simp]:
  "h_exec quiet_host prog args w = (([], None), w)"
  "h_mkdir_all quiet_host p perm w = (None, w)"
  "h_read_file quiet_host p w = (([], None), w)"
  "h_write_file quiet_host p d perm w = (None, w)"
  "h_open_append quiet_host p perm w = (None, w)"
  "h_write_string quiet_host p d w = (None, w)"
  "h_remove quiet_host p w = (None, w)"
  "h_remove_all quiet_host p w = (None, w)"
  "h_symlink quiet_host p q w = (None, w)"
  "h_chmod quiet_host p perm w = (None, w)"
  "h_sql_exec quiet_host stmt vals w = (None, w)"
  "h_sql_query_id quiet_host stmt vals w = (Inl ErrNoRows, w)"
  "h_http quiet_host meth url hdrs body w = (Inr (200, []), w)"
  "url_error quiet_host meth url = None"
  "uni_upper quiet_host s = s"
  "uni_quote quiet_host s = s"
  by (simp_all add: quiet_host_def)

section \<open>Go's error idiom\<close>

text \<open>
  \<open>try_io f wrap k\<close> is
  \<^verbatim>\<open>
    if err := f(); err != nil { return wrap(err) }
    k
  \<close>
\<close>

definition try_io :: "('w, goerr option) io \<Rightarrow> (goerr \<Rightarrow> goerr) \<Rightarrow> ('w, goerr option) io
    \<Rightarrow> ('w, goerr option) io" where
  "try_io f wrap k = do {
     err \<leftarrow> f;
     case err of Some e \<Rightarrow> State_Monad.return (Some (wrap e)) | None \<Rightarrow> k
   }"

text \<open>\<open>_ = f()\<close>\<close>

definition ignore_io :: "('w, 'a) io \<Rightarrow> ('w, 'b) io \<Rightarrow> ('w, 'b) io" where
  "ignore_io f k = do { _ \<leftarrow> f; k }"

text \<open>A program run for its exit status, its output quoted in the error: \<open>%w: %s\<close>.\<close>

definition run_checked :: "'w host \<Rightarrow> string \<Rightarrow> string list \<Rightarrow> ('w, goerr option) io" where
  "run_checked h prog args = do {
     r \<leftarrow> exec_command h prog args;
     case r of
       (out, Some e) \<Rightarrow> State_Monad.return (Some (e @ '': '' @ out))
     | (out, None) \<Rightarrow> State_Monad.return None
   }"

lemma run_try_io [simp]:
  "run_state (try_io f wrap k) m =
     (case run_state f m of
        (Some e, m') \<Rightarrow> (Some (wrap e), m')
      | (None, m') \<Rightarrow> run_state k m')"
  by (simp add: try_io_def split: prod.splits option.splits)

lemma run_ignore_io [simp]:
  "run_state (ignore_io f k) m = run_state k (snd (run_state f m))"
  by (simp add: ignore_io_def split: prod.splits)

lemma try_io_ok_iff:
  "fst (run_state (try_io f wrap k) m) = None \<longleftrightarrow>
     fst (run_state f m) = None \<and> fst (run_state k (snd (run_state f m))) = None"
  by (auto split: prod.splits option.splits)

text \<open>
  A sequence of single calls, each guarded by the idiom. The calls made are a prefix of the
  planned ones: all of them when the result is nil, and up to the failing one otherwise.
\<close>

fun try_all :: "(call \<times> ('w \<Rightarrow> goerr option \<times> 'w) \<times> (goerr \<Rightarrow> goerr)) list \<Rightarrow> ('w, goerr option) io" where
  "try_all [] = State_Monad.return None"
| "try_all ((c, f, wrap) # steps) = try_io (perform c f) wrap (try_all steps)"

theorem try_all_trace:
  "\<exists>n \<le> length steps.
     trace (snd (run_state (try_all steps) m)) = trace m @ map fst (take n steps) \<and>
     (fst (run_state (try_all steps) m) = None \<longrightarrow> n = length steps) \<and>
     (fst (run_state (try_all steps) m) \<noteq> None \<longrightarrow> 0 < n)"
proof (induction steps arbitrary: m)
  case Nil
  then show ?case by simp
next
  case (Cons s steps)
  obtain c f wrap where s: "s = (c, f, wrap)" by (cases s)
  let ?m1 = "\<lparr>world = snd (f (world m)), trace = trace m @ [c]\<rparr>"
  show ?case
  proof (cases "fst (f (world m))")
    case (Some e)
    then show ?thesis by (intro exI [of _ "Suc 0"]) (simp add: s)
  next
    case None
    obtain n where "n \<le> length steps" and
      "trace (snd (run_state (try_all steps) ?m1)) = trace ?m1 @ map fst (take n steps)" and
      "fst (run_state (try_all steps) ?m1) = None \<longrightarrow> n = length steps"
      using Cons.IH by blast
    with None show ?thesis by (intro exI [of _ "Suc n"]) (simp add: s)
  qed
qed

section \<open>What a computation may call\<close>

definition emits :: "(call \<Rightarrow> bool) \<Rightarrow> ('w, 'a) io \<Rightarrow> bool" where
  "emits P f \<longleftrightarrow>
     (\<forall>m. \<exists>tr. trace (snd (run_state f m)) = trace m @ tr \<and> list_all P tr)"

named_theorems emits_intros

lemma emitsI:
  "(\<And>m. \<exists>tr. trace (snd (run_state f m)) = trace m @ tr \<and> list_all P tr) \<Longrightarrow> emits P f"
  by (simp add: emits_def)

lemma emitsE:
  assumes "emits P f"
  obtains tr where "trace (snd (run_state f m)) = trace m @ tr" and "list_all P tr"
  using assms by (auto simp: emits_def)

lemma emits_return [emits_intros]: "emits P (State_Monad.return x)"
  by (simp add: emits_def)

lemma emits_perform [emits_intros]: "P c \<Longrightarrow> emits P (perform c f)"
  by (simp add: emits_def)

lemma emits_bind [emits_intros]:
  assumes "emits P f" and "\<And>x. emits P (g x)"
  shows "emits P (State_Monad.bind f g)"
proof (rule emitsI)
  fix m
  obtain x m1 where f: "run_state f m = (x, m1)" by fastforce
  obtain t1 where t1: "trace m1 = trace m @ t1" "list_all P t1"
    using assms(1) f by (metis emitsE snd_conv)
  obtain t2 where t2: "trace (snd (run_state (g x) m1)) = trace m1 @ t2" "list_all P t2"
    using assms(2) by (rule emitsE)
  show "\<exists>tr. trace (snd (run_state (State_Monad.bind f g) m)) = trace m @ tr \<and> list_all P tr"
    using f t1 t2 by (intro exI [of _ "t1 @ t2"]) simp
qed

lemma emits_if [emits_intros]:
  "(b \<Longrightarrow> emits P f) \<Longrightarrow> (\<not> b \<Longrightarrow> emits P g) \<Longrightarrow> emits P (if b then f else g)"
  by simp

lemma emits_option [emits_intros]:
  "(x = None \<Longrightarrow> emits P f) \<Longrightarrow> (\<And>y. x = Some y \<Longrightarrow> emits P (g y)) \<Longrightarrow>
   emits P (case x of None \<Rightarrow> f | Some y \<Rightarrow> g y)"
  by (cases x) simp_all

lemma emits_sum [emits_intros]:
  "(\<And>y. emits P (f y)) \<Longrightarrow> (\<And>z. emits P (g z)) \<Longrightarrow>
   emits P (case x of Inl y \<Rightarrow> f y | Inr z \<Rightarrow> g z)"
  by (cases x) simp_all

lemma emits_prod [emits_intros]:
  "(\<And>y z. emits P (f y z)) \<Longrightarrow> emits P (case x of (y, z) \<Rightarrow> f y z)"
  by (cases x) simp

lemma emits_try_io [emits_intros]:
  "emits P f \<Longrightarrow> emits P k \<Longrightarrow> emits P (try_io f wrap k)"
  unfolding try_io_def by (intro emits_intros)

lemma emits_ignore_io [emits_intros]:
  "emits P f \<Longrightarrow> emits P k \<Longrightarrow> emits P (ignore_io f k)"
  unfolding ignore_io_def by (intro emits_intros)

lemma emits_run_checked [emits_intros]:
  "P (CExec prog args) \<Longrightarrow> emits P (run_checked h prog args)"
  unfolding run_checked_def host_ops by (intro emits_intros)

lemma emits_mono: "emits P f \<Longrightarrow> (\<And>c. P c \<Longrightarrow> Q c) \<Longrightarrow> emits Q f"
  unfolding emits_def by (meson list.pred_mono_strong)

section \<open>What a computation leaves alone\<close>

text \<open>An observation of the world that a computation does not change, whatever its outcome.\<close>

definition keeps :: "('w \<Rightarrow> 'b) \<Rightarrow> ('w, 'a) io \<Rightarrow> bool" where
  "keeps obs f \<longleftrightarrow> (\<forall>m. obs (world (snd (run_state f m))) = obs (world m))"

named_theorems keeps_intros

lemma keepsD: "keeps obs f \<Longrightarrow> run_state f m = (r, m') \<Longrightarrow> obs (world m') = obs (world m)"
  by (metis keeps_def snd_conv)

lemma keeps_snd: "keeps obs f \<Longrightarrow> obs (world (snd (run_state f m))) = obs (world m)"
  by (simp add: keeps_def)

lemma keeps_return [keeps_intros]: "keeps obs (State_Monad.return x)"
  by (simp add: keeps_def)

lemma keeps_perform: "(\<And>w. obs (snd (f w)) = obs w) \<Longrightarrow> keeps obs (perform c f)"
  by (simp add: keeps_def)

lemma keeps_bind [keeps_intros]:
  "keeps obs f \<Longrightarrow> (\<And>x. keeps obs (g x)) \<Longrightarrow> keeps obs (State_Monad.bind f g)"
  by (simp add: keeps_def split: prod.splits) (metis snd_conv)

lemma keeps_if [keeps_intros]:
  "(b \<Longrightarrow> keeps obs f) \<Longrightarrow> (\<not> b \<Longrightarrow> keeps obs g) \<Longrightarrow> keeps obs (if b then f else g)"
  by simp

lemma keeps_option [keeps_intros]:
  "(x = None \<Longrightarrow> keeps obs f) \<Longrightarrow> (\<And>y. x = Some y \<Longrightarrow> keeps obs (g y)) \<Longrightarrow>
   keeps obs (case x of None \<Rightarrow> f | Some y \<Rightarrow> g y)"
  by (cases x) simp_all

lemma keeps_prod [keeps_intros]:
  "(\<And>y z. keeps obs (f y z)) \<Longrightarrow> keeps obs (case x of (y, z) \<Rightarrow> f y z)"
  by (cases x) simp

lemma keeps_try_io [keeps_intros]:
  "keeps obs f \<Longrightarrow> keeps obs k \<Longrightarrow> keeps obs (try_io f wrap k)"
  unfolding try_io_def by (intro keeps_intros)

lemma keeps_ignore_io [keeps_intros]:
  "keeps obs f \<Longrightarrow> keeps obs k \<Longrightarrow> keeps obs (ignore_io f k)"
  unfolding ignore_io_def by (intro keeps_intros)

text \<open>
  A guarded step whose continuation keeps the observation: the step alone decides it. When
  the step fails nothing follows.
\<close>

lemma try_io_obs:
  assumes "keeps obs k" and "run_state (try_io f wrap k) m = (r, m')"
  obtains e m1 where "run_state f m = (e, m1)" and "obs (world m') = obs (world m1)"
    and "r = None \<Longrightarrow> e = None"
proof -
  obtain e m1 where f: "run_state f m = (e, m1)" by fastforce
  show ?thesis
  proof (rule that [OF f])
    show "obs (world m') = obs (world m1)"
      using assms f by (auto simp: keeps_def split: option.splits) (metis snd_conv)
    show "r = None \<Longrightarrow> e = None" using assms(2) f by (auto split: option.splits)
  qed
qed

end
