(* ===== verification/Routes.thy ===== *)
theory Routes
  imports Auth Server Machine
begin

text \<open>
  \<open>api/internal/grpc/routes.go\<close>: the HTTP interface. A request is its method, the
  segments of its cleaned and decoded path, the \<open>X-Admin-Key\<close> header, and the first
  JSON value of its body or the error of reading one. \<open>SendCommand\<close> is an argument of
  the handlers that use it, \<open>send\<close>: its outcome for a server and a payload, any of
  those the steps of theory \<open>Server\<close> can return. The \<open>struct\<close> types that are
  written as JSON are records here, and \<open>encode_body\<close> says when the encoder accepts
  them: not when a float is infinite or no number, and its error is ignored.
\<close>

section \<open>Requests and responses\<close>

record http_request =
  hr_Method :: string
  hr_Path :: "string list"
  hr_AdminKey :: string
  hr_Body :: "goerr + json"

record serverInfo =
  si_ServerID :: string
  si_Hostname :: string

record metrics =
  m_CPUPercent :: float64
  m_MemTotal :: u64
  m_MemUsed :: u64
  m_DiskTotal :: u64
  m_DiskUsed :: u64
  m_Load1 :: float64
  m_Load5 :: float64
  m_Load15 :: float64

record server_info_response =
  re_ServerID :: string
  re_Hostname :: string
  re_Online :: bool
  re_LastSeen :: string
  re_Metrics :: "metrics option"

datatype http_body =
    NoBody
  | TextBody string
  | TokenBody string
  | ServersBody "serverInfo list"
  | ServerBody server_info_response

record http_response =
  status :: nat
  body :: http_body

definition http_Error :: "string \<Rightarrow> nat \<Rightarrow> http_response" where
  "http_Error msg code = \<lparr>status = code, body = TextBody (msg @ [CHR 0x0A])\<rparr>"

fun is_finite :: "float64 \<Rightarrow> bool" where
  "is_finite (Finite x) = True"
| "is_finite x = False"

definition metrics_finite :: "metrics \<Rightarrow> bool" where
  "metrics_finite m \<longleftrightarrow> is_finite (m_CPUPercent m) \<and> is_finite (m_Load1 m) \<and>
     is_finite (m_Load5 m) \<and> is_finite (m_Load15 m)"

text \<open>\<open>_ = json.NewEncoder(w).Encode(v)\<close>: status 200, and the value if it can be encoded.\<close>

definition encode_body :: "http_body \<Rightarrow> http_response" where
  "encode_body b = \<lparr>status = 200, body =
     (case b of
        ServerBody r \<Rightarrow>
          (case re_Metrics r of
             Some m \<Rightarrow> if metrics_finite m then b else NoBody
           | None \<Rightarrow> b)
      | _ \<Rightarrow> b)\<rparr>"

section \<open>Times\<close>

text \<open>
  A \<open>time.Time\<close> is its seconds since the start of the year 1 in UTC, the instant of the
  zero value; \<open>rfc3339\<close> is \<open>Format(time.RFC3339)\<close> in UTC. The date is computed
  in years that begin in March, as days of 400-year cycles.
\<close>

definition civil :: "nat \<Rightarrow> nat \<times> nat \<times> nat" where
  "civil d =
     (let z = d + 306; era = z div 146097; doe = z mod 146097;
          yoe = (doe + doe div 36524 - doe div 1460 - doe div 146096) div 365;
          doy = doe + yoe div 100 - (365 * yoe + yoe div 4);
          mp = (5 * doy + 2) div 153;
          day = doy - (153 * mp + 2) div 5 + 1;
          month = (if mp < 10 then mp + 3 else mp - 9)
      in (era * 400 + yoe + (if month \<le> 2 then 1 else 0), month, day))"

definition pad :: "nat \<Rightarrow> nat \<Rightarrow> string" where
  "pad w n = (let s = show_nat n in replicate (w - length s) (CHR ''0'') @ s)"

definition rfc3339 :: "nat \<Rightarrow> string" where
  "rfc3339 t =
     (case civil (t div 86400) of (y, m, d) \<Rightarrow>
        pad 4 y @ ''-'' @ pad 2 m @ ''-'' @ pad 2 d @ ''T'' @ pad 2 (t div 3600 mod 24) @ '':''
        @ pad 2 (t div 60 mod 60) @ '':'' @ pad 2 (t mod 60) @ ''Z'')"

section \<open>Decoding the body of a vhost request\<close>

record VhostBody =
  vb_Username :: string
  vb_Domain :: string
  vb_Docroot :: string
  vb_PHPVersion :: string
  vb_Aliases :: "string list"

definition zero_body :: VhostBody where
  "zero_body = \<lparr>vb_Username = [], vb_Domain = [], vb_Docroot = [], vb_PHPVersion = [], vb_Aliases = []\<rparr>"

text \<open>
  Keys match up to case folding, which takes the letters long s and Kelvin sign to ASCII.
\<close>

fun fold_key :: "string \<Rightarrow> string" where
  "fold_key [] = []"
| "fold_key (c # s) =
     (if c = CHR 0xC5 \<and> HasPrefix s [CHR 0xBF] then CHR ''S'' # fold_key (drop 1 s)
      else if c = CHR 0xE2 \<and> HasPrefix s [CHR 0x84, CHR 0xAA] then CHR ''K'' # fold_key (drop 2 s)
      else upper_char c # fold_key s)"

text \<open>A value of the wrong type is an error (\<open>None\<close>); \<open>null\<close> leaves a string as it is.\<close>

definition decode_string :: "string \<Rightarrow> json \<Rightarrow> string option" where
  "decode_string old v = (case v of JStr s \<Rightarrow> Some s | JNull \<Rightarrow> Some old | _ \<Rightarrow> None)"

definition decode_strings :: "json \<Rightarrow> string list option" where
  "decode_strings v =
     (case v of
        JArr vs \<Rightarrow> those (map (decode_string []) vs)
      | JNull \<Rightarrow> Some []
      | _ \<Rightarrow> None)"

definition decode_field :: "VhostBody \<Rightarrow> string \<Rightarrow> json \<Rightarrow> VhostBody option" where
  "decode_field b key v =
     (let k = fold_key key in
      if k = ''USERNAME'' then map_option (\<lambda>s. b\<lparr>vb_Username := s\<rparr>) (decode_string (vb_Username b) v)
      else if k = ''DOMAIN'' then map_option (\<lambda>s. b\<lparr>vb_Domain := s\<rparr>) (decode_string (vb_Domain b) v)
      else if k = ''DOCROOT'' then map_option (\<lambda>s. b\<lparr>vb_Docroot := s\<rparr>) (decode_string (vb_Docroot b) v)
      else if k = ''PHP_VERSION''
      then map_option (\<lambda>s. b\<lparr>vb_PHPVersion := s\<rparr>) (decode_string (vb_PHPVersion b) v)
      else if k = ''ALIASES'' then map_option (\<lambda>s. b\<lparr>vb_Aliases := s\<rparr>) (decode_strings v)
      else Some b)"

fun decode_fields :: "VhostBody \<Rightarrow> (string \<times> json) list \<Rightarrow> VhostBody option" where
  "decode_fields b [] = Some b"
| "decode_fields b ((k, v) # kvs) =
     (case decode_field b k v of None \<Rightarrow> None | Some b' \<Rightarrow> decode_fields b' kvs)"

definition decode_vhost :: "goerr + json \<Rightarrow> VhostBody option" where
  "decode_vhost bd =
     (case bd of
        Inr (JObj kvs) \<Rightarrow> decode_fields zero_body kvs
      | Inr JNull \<Rightarrow> Some zero_body
      | _ \<Rightarrow> None)"

section \<open>Handlers\<close>

definition handleHealthz :: http_response where
  "handleHealthz = \<lparr>status = 200, body = TextBody ''ok''\<rparr>"

definition handleCreateToken :: "(string \<Rightarrow> string) \<Rightarrow> string \<Rightarrow> 'p pgpool option \<Rightarrow> goerr + string
    \<Rightarrow> int \<Rightarrow> http_request \<Rightarrow> 'p \<Rightarrow> http_response \<times> 'p" where
  "handleCreateToken sha256 adminKey store raw now r p =
     (if adminKey = [] \<or> hr_AdminKey r \<noteq> adminKey then (http_Error ''unauthorized'' 401, p)
      else (case store of
        None \<Rightarrow> (http_Error ''store not configured'' 503, p)
      | Some pool \<Rightarrow>
          (case CreateToken sha256 pool raw now p of
             ((token, Some e), p') \<Rightarrow> (http_Error e 500, p')
           | ((token, None), p') \<Rightarrow> (encode_body (TokenBody token), p'))))"

text \<open>\<open>order\<close>: the order in which the iteration over the map meets the keys.\<close>

definition handleListServers :: "string list \<Rightarrow> server \<Rightarrow> http_response" where
  "handleListServers order s =
     encode_body (ServersBody (map (\<lambda>key. let a = the (sessions s (the (agents s key))) in
       \<lparr>si_ServerID = ss_serverID a, si_Hostname = ss_hostname a\<rparr>) order))"

definition metrics_of :: "SystemMetrics \<Rightarrow> metrics" where
  "metrics_of m =
     \<lparr>m_CPUPercent = CpuPercent m, m_MemTotal = MemTotal m, m_MemUsed = MemUsed m,
      m_DiskTotal = DiskTotal m, m_DiskUsed = DiskUsed m, m_Load1 = Load_1 m,
      m_Load5 = Load_5 m, m_Load15 = Load_15 m\<rparr>"

definition handleGetServer :: "string \<Rightarrow> server \<Rightarrow> http_response" where
  "handleGetServer serverID s =
     (case agents s serverID of
        None \<Rightarrow> http_Error ''server not found'' 404
      | Some k \<Rightarrow>
          (let a = the (sessions s k) in
           encode_body (ServerBody
             \<lparr>re_ServerID = ss_serverID a, re_Hostname = ss_hostname a, re_Online = True,
              re_LastSeen = rfc3339 (nat (ss_lastSeen a)),
              re_Metrics = map_option metrics_of (ss_lastMetrics a)\<rparr>)))"

text \<open>What both vhost handlers do with the outcome of \<open>SendCommand\<close>.\<close>

definition command_response :: "nat \<Rightarrow> goerr + CommandResult \<Rightarrow> http_response" where
  "command_response code res =
     (case res of
        Inl e \<Rightarrow> http_Error e 502
      | Inr r \<Rightarrow>
          if \<not> cr_Success r then http_Error (cr_Error r) 422
          else \<lparr>status = code, body = NoBody\<rparr>)"

definition vhost_command :: "VhostBody \<Rightarrow> CommandPayload option" where
  "vhost_command b = Some (Command_CreateVhost
     \<lparr>cv_Username = vb_Username b, cv_Domain = vb_Domain b, cv_Docroot = vb_Docroot b,
      cv_PhpVersion = vb_PHPVersion b, cv_Ssl = False, cv_Aliases = vb_Aliases b\<rparr>)"

definition handleCreateVhost_http :: "(string \<Rightarrow> CommandPayload option \<Rightarrow> goerr + CommandResult)
    \<Rightarrow> string \<Rightarrow> http_request \<Rightarrow> http_response" where
  "handleCreateVhost_http send serverID r =
     (case decode_vhost (hr_Body r) of
        None \<Rightarrow> http_Error ''invalid request body'' 400
      | Some b \<Rightarrow>
          if vb_Domain b = [] then http_Error ''domain is required'' 400
          else command_response 201 (send serverID (vhost_command b)))"

definition handleDeleteVhost_http :: "(string \<Rightarrow> CommandPayload option \<Rightarrow> goerr + CommandResult)
    \<Rightarrow> string \<Rightarrow> string \<Rightarrow> http_response" where
  "handleDeleteVhost_http send serverID domain =
     command_response 204 (send serverID (Some (Command_DeleteVhost \<lparr>dv_Domain = domain\<rparr>)))"

section \<open>Routing\<close>

datatype path_elem = Lit string | Wild

datatype endpoint = Healthz | NewToken | ListServers | GetServer | PostVhost | RemoveVhost

text \<open>The patterns \<open>routes\<close> registers, in its order.\<close>

definition routes :: "(string \<times> path_elem list \<times> endpoint) list" where
  "routes =
     [(''GET'', [Lit ''healthz''], Healthz),
      (''POST'', [Lit ''api'', Lit ''v1'', Lit ''admin'', Lit ''tokens''], NewToken),
      (''GET'', [Lit ''api'', Lit ''v1'', Lit ''servers''], ListServers),
      (''GET'', [Lit ''api'', Lit ''v1'', Lit ''servers'', Wild], GetServer),
      (''POST'', [Lit ''api'', Lit ''v1'', Lit ''servers'', Wild, Lit ''vhosts''], PostVhost),
      (''DELETE'', [Lit ''api'', Lit ''v1'', Lit ''servers'', Wild, Lit ''vhosts'', Wild], RemoveVhost)]"

text \<open>A wildcard takes one segment that is not empty; the segments taken are the path values.\<close>

fun match_path :: "path_elem list \<Rightarrow> string list \<Rightarrow> string list option" where
  "match_path [] [] = Some []"
| "match_path (Lit l # ps) (seg # segs) = (if l = seg then match_path ps segs else None)"
| "match_path (Wild # ps) (seg # segs) =
     (if seg = [] then None else map_option (Cons seg) (match_path ps segs))"
| "match_path _ _ = None"

text \<open>A pattern for \<open>GET\<close> also serves \<open>HEAD\<close>.\<close>

definition match_method :: "string \<Rightarrow> string \<Rightarrow> bool" where
  "match_method pat meth \<longleftrightarrow> meth = pat \<or> (pat = ''GET'' \<and> meth = ''HEAD'')"

definition matching :: "string \<Rightarrow> string list \<Rightarrow> (endpoint \<times> string list) list" where
  "matching meth path = concat (map (\<lambda>(pm, pat, e).
     if match_method pm meth then (case match_path pat path of Some vs \<Rightarrow> [(e, vs)] | None \<Rightarrow> []) else [])
     routes)"

definition path_known :: "string list \<Rightarrow> bool" where
  "path_known path = list_ex (\<lambda>(pm, pat, e). match_path pat path \<noteq> None) routes"

definition serve_endpoint :: "(string \<Rightarrow> string) \<Rightarrow> string \<Rightarrow> 'p pgpool option \<Rightarrow> goerr + string \<Rightarrow> int
    \<Rightarrow> string list \<Rightarrow> (string \<Rightarrow> CommandPayload option \<Rightarrow> goerr + CommandResult)
    \<Rightarrow> http_request \<Rightarrow> server \<Rightarrow> 'p \<Rightarrow> endpoint \<Rightarrow> string list \<Rightarrow> http_response \<times> 'p" where
  "serve_endpoint sha256 adminKey store raw now order send r s p e vs =
     (case e of
        Healthz \<Rightarrow> (handleHealthz, p)
      | NewToken \<Rightarrow> handleCreateToken sha256 adminKey store raw now r p
      | ListServers \<Rightarrow> (handleListServers order s, p)
      | GetServer \<Rightarrow> (handleGetServer (vs ! 0) s, p)
      | PostVhost \<Rightarrow> (handleCreateVhost_http send (vs ! 0) r, p)
      | RemoveVhost \<Rightarrow> (handleDeleteVhost_http send (vs ! 0) (vs ! 1), p))"

text \<open>The multiplexer: an unknown path is 404, a known one with another method 405.\<close>

definition serve :: "(string \<Rightarrow> string) \<Rightarrow> string \<Rightarrow> 'p pgpool option \<Rightarrow> goerr + string \<Rightarrow> int
    \<Rightarrow> string list \<Rightarrow> (string \<Rightarrow> CommandPayload option \<Rightarrow> goerr + CommandResult)
    \<Rightarrow> http_request \<Rightarrow> server \<Rightarrow> 'p \<Rightarrow> http_response \<times> 'p" where
  "serve sha256 adminKey store raw now order send r s p =
     (case matching (hr_Method r) (hr_Path r) of
        (e, vs) # _ \<Rightarrow> serve_endpoint sha256 adminKey store raw now order send r s p e vs
      | [] \<Rightarrow>
          if path_known (hr_Path r) then (http_Error ''Method Not Allowed'' 405, p)
          else (http_Error ''404 page not found'' 404, p))"

section \<open>Properties\<close>

text \<open>
  The routing table is unambiguous: no request matches two of its patterns, so the
  order of registration does not matter.
\<close>

theorem routes_unambiguous:
  "length (matching meth path) \<le> 1"
proof -
  consider "path = []" | a where "path = [a]" | a b where "path = [a, b]"
    | a b c where "path = [a, b, c]" | a b c d where "path = [a, b, c, d]"
    | a b c d e where "path = [a, b, c, d, e]" | a b c d e f where "path = [a, b, c, d, e, f]"
    | a b c d e f g ps where "path = a # b # c # d # e # f # g # ps"
    by (metis neq_Nil_conv)
  then show ?thesis
    by cases (auto simp: matching_def routes_def match_method_def)
qed

lemma serve_token_unauthorized:
  assumes "adminKey = [] \<or> hr_AdminKey r \<noteq> adminKey"
    and "hr_Path r = [''api'', ''v1'', ''admin'', ''tokens'']" and "hr_Method r = ''POST''"
  shows "serve sha adminKey store raw now order send r s p = (http_Error ''unauthorized'' 401, p)"
  using assms by (simp add: serve_def matching_def routes_def match_method_def
      serve_endpoint_def handleCreateToken_def)

text \<open>
  C33: tokens are guarded by the admin key. Without a configured key, or with another key in
  the header, the token endpoint answers 401 and neither reads nor writes the store.
\<close>

theorem tokens_need_admin_key:
  assumes "adminKey = [] \<or> hr_AdminKey r \<noteq> adminKey"
    and "hr_Path r = [''api'', ''v1'', ''admin'', ''tokens'']" and "hr_Method r = ''POST''"
  shows "serve sha adminKey store raw now order send r s p = (http_Error ''unauthorized'' 401, p)"
  using assms by (rule serve_token_unauthorized)

theorem tokens_need_admin_key_witness:
  "serve id ''secret'' (Some rel_pool) (Inr ''ab'') 1 [] (\<lambda>_ _. Inl [])
     \<lparr>hr_Method = ''POST'', hr_Path = [''api'', ''v1'', ''admin'', ''tokens''], hr_AdminKey = ''guess'',
      hr_Body = Inl ''EOF''\<rparr> NewServer fresh_db = (http_Error ''unauthorized'' 401, fresh_db)"
  by (rule tokens_need_admin_key) simp_all

lemma match_lits: "match_path (map Lit ls) path = Some vs \<Longrightarrow> path = ls"
proof (induction ls arbitrary: path)
  case Nil
  then show ?case by (cases path) simp_all
next
  case (Cons l ls)
  then show ?case by (cases path) (auto split: if_splits)
qed

lemma matchingD:
  assumes "(e, vs) \<in> set (matching meth path)"
  shows "\<exists>pm pat. (pm, pat, e) \<in> set routes \<and> match_path pat path = Some vs"
proof -
  let ?f = "\<lambda>(pm, pat, e). if match_method pm meth
    then (case match_path pat path of Some vs \<Rightarrow> [(e, vs)] | None \<Rightarrow> []) else []"
  obtain x where x: "x \<in> set routes" "(e, vs) \<in> set (?f x)"
    using assms unfolding matching_def set_concat set_map by blast
  obtain pm pat e' where t: "x = (pm, pat, e')" by (cases x)
  have "match_path pat path = Some vs \<and> e' = e"
    using x(2) unfolding t by (cases "match_method pm meth"; cases "match_path pat path") simp_all
  with x(1) t show ?thesis by blast
qed

lemma matching_NewToken:
  assumes "(NewToken, vs) \<in> set (matching meth path)"
  shows "path = [''api'', ''v1'', ''admin'', ''tokens'']"
proof -
  obtain pm pat where pat: "(pm, pat, NewToken) \<in> set routes" "match_path pat path = Some vs"
    using matchingD [OF assms] by blast
  then have "pat = map Lit [''api'', ''v1'', ''admin'', ''tokens'']" by (simp add: routes_def)
  with pat(2) show ?thesis using match_lits by metis
qed

text \<open>
  Nothing else is guarded. On every other path the answer and the effect do not depend
  on the header: anyone who reaches the HTTP port can list servers and create or delete
  virtual hosts on them.
\<close>

theorem other_routes_ignore_admin_key:
  assumes "hr_Path r \<noteq> [''api'', ''v1'', ''admin'', ''tokens'']"
  shows "serve sha adminKey store raw now order send (r\<lparr>hr_AdminKey := key\<rparr>) s p =
    serve sha adminKey store raw now order send r s p"
proof -
  have "(e, vs) \<in> set (matching (hr_Method r) (hr_Path r)) \<Longrightarrow> e \<noteq> NewToken" for e vs
    using assms matching_NewToken by blast
  moreover have "e \<noteq> NewToken \<Longrightarrow>
      serve_endpoint sha adminKey store raw now order send (r\<lparr>hr_AdminKey := key\<rparr>) s p e vs =
      serve_endpoint sha adminKey store raw now order send r s p e vs" for e vs
    by (cases e) (simp_all add: serve_endpoint_def handleCreateVhost_http_def)
  ultimately have "serve_endpoint sha adminKey store raw now order send (r\<lparr>hr_AdminKey := key\<rparr>) s p e vs =
      serve_endpoint sha adminKey store raw now order send r s p e vs"
    if "matching (hr_Method r) (hr_Path r) = (e, vs) # rest" for e vs rest
    using that by (metis list.set_intros(1))
  then show ?thesis
    by (auto simp: serve_def split: list.split)
qed

definition delete_request :: http_request where
  "delete_request = \<lparr>hr_Method = ''DELETE'',
     hr_Path = [''api'', ''v1'', ''servers'', ''srv_1'', ''vhosts'', ''a.org''], hr_AdminKey = ''secret'',
     hr_Body = Inl ''EOF''\<rparr>"

theorem other_routes_ignore_admin_key_witness:
  "serve id ''secret'' (Some rel_pool) (Inr ''ab'') 1 [] (\<lambda>_ _. Inr demo_result)
       (delete_request\<lparr>hr_AdminKey := []\<rparr>) NewServer fresh_db =
     serve id ''secret'' (Some rel_pool) (Inr ''ab'') 1 [] (\<lambda>_ _. Inr demo_result)
       delete_request NewServer fresh_db \<and>
   status (fst (serve id ''secret'' (Some rel_pool) (Inr ''ab'') 1 [] (\<lambda>_ _. Inr demo_result)
       delete_request NewServer fresh_db)) = 204"
proof
  show "serve id ''secret'' (Some rel_pool) (Inr ''ab'') 1 [] (\<lambda>_ _. Inr demo_result)
       (delete_request\<lparr>hr_AdminKey := []\<rparr>) NewServer fresh_db =
     serve id ''secret'' (Some rel_pool) (Inr ''ab'') 1 [] (\<lambda>_ _. Inr demo_result)
       delete_request NewServer fresh_db"
    by (rule other_routes_ignore_admin_key) (simp add: delete_request_def)
  show "status (fst (serve id ''secret'' (Some rel_pool) (Inr ''ab'') 1 [] (\<lambda>_ _. Inr demo_result)
       delete_request NewServer fresh_db)) = 204"
    by (simp add: delete_request_def serve_def matching_def routes_def match_method_def
        serve_endpoint_def handleDeleteVhost_http_def command_response_def demo_result_def)
qed

text \<open>
  The members of a JSON object for a body: the value of a key is the field its folded
  spelling names, and anything (\<open>junk\<close>) for other keys.
\<close>

definition field_names :: "string list" where
  "field_names = [''USERNAME'', ''DOMAIN'', ''DOCROOT'', ''PHP_VERSION'', ''ALIASES'']"

definition member :: "VhostBody \<Rightarrow> (string \<Rightarrow> json) \<Rightarrow> string \<Rightarrow> string \<times> json" where
  "member b junk key =
     (let k = fold_key key in
      (key, if k = ''USERNAME'' then JStr (vb_Username b)
            else if k = ''DOMAIN'' then JStr (vb_Domain b)
            else if k = ''DOCROOT'' then JStr (vb_Docroot b)
            else if k = ''PHP_VERSION'' then JStr (vb_PHPVersion b)
            else if k = ''ALIASES'' then JArr (map JStr (vb_Aliases b))
            else junk key))"

lemma those_decode [simp]: "those (map (decode_string [] \<circ> JStr) xs) = Some xs"
  by (induction xs) (auto simp: decode_string_def)

text \<open>Decoding overwrites the fields it meets and leaves the others.\<close>

definition overwritten :: "string set \<Rightarrow> VhostBody \<Rightarrow> VhostBody \<Rightarrow> VhostBody" where
  "overwritten K b b0 =
     \<lparr>vb_Username = (if ''USERNAME'' \<in> K then vb_Username b else vb_Username b0),
      vb_Domain = (if ''DOMAIN'' \<in> K then vb_Domain b else vb_Domain b0),
      vb_Docroot = (if ''DOCROOT'' \<in> K then vb_Docroot b else vb_Docroot b0),
      vb_PHPVersion = (if ''PHP_VERSION'' \<in> K then vb_PHPVersion b else vb_PHPVersion b0),
      vb_Aliases = (if ''ALIASES'' \<in> K then vb_Aliases b else vb_Aliases b0)\<rparr>"

lemma decode_field_member:
  "decode_field b0 (fst (member b junk key)) (snd (member b junk key)) =
     Some (overwritten {fold_key key} b b0)"
  by (cases b0) (auto simp: decode_field_def member_def overwritten_def Let_def decode_string_def
      decode_strings_def)

lemma overwritten_twice: "overwritten K b (overwritten L b b0) = overwritten (L \<union> K) b b0"
  by (auto simp: overwritten_def)

lemma decode_members:
  "decode_fields b0 (map (member b junk) ks) = Some (overwritten (fold_key ` set ks) b b0)"
proof (induction ks arbitrary: b0)
  case Nil
  then show ?case by (cases b0) (simp add: overwritten_def)
next
  case (Cons k ks)
  show ?case
    using decode_field_member [of b0 b junk k] Cons.IH
    by (cases "member b junk k") (simp add: overwritten_twice)
qed

text \<open>
  C34: decoding inverts encoding. A JSON object that has every field of the body, in any
  order, in any upper and lower case, repeated or with unknown members of any value between
  them, decodes to exactly that body.
\<close>

theorem decode_vhost_roundtrip:
  assumes "set field_names \<subseteq> fold_key ` set ks"
  shows "decode_vhost (Inr (JObj (map (member b junk) ks))) = Some b"
  using assms by (cases b) (simp add: decode_vhost_def decode_members overwritten_def field_names_def)

theorem decode_vhost_roundtrip_witness:
  "decode_vhost (Inr (JObj (map (member
       \<lparr>vb_Username = ''bob'', vb_Domain = ''a.org'', vb_Docroot = [], vb_PHPVersion = ''8.2'',
        vb_Aliases = [''www.a.org'']\<rparr> (\<lambda>_. JNum 3))
       [''username'', ''Domain'', ''note'', ''docroot'', ''php_version'', ''aliases'']))) =
   Some \<lparr>vb_Username = ''bob'', vb_Domain = ''a.org'', vb_Docroot = [], vb_PHPVersion = ''8.2'',
        vb_Aliases = [''www.a.org'']\<rparr>"
  by (rule decode_vhost_roundtrip) code_simp

text \<open>
  What a heartbeat reports is what the API shows. After a session has handled a
  heartbeat, the server's entry shows the time it was handled and the metrics it carried,
  as long as they are numbers; when one of them is not finite the encoder fails, and the
  answer is status 200 with no body.
\<close>

theorem heartbeat_is_shown:
  assumes "agents s sid = Some k" and "sessions s k = Some a"
  shows "handleGetServer sid (handleAgentMessage k a now (Some (AgentMessage_Heartbeat hb)) s) =
    \<lparr>status = 200, body =
       (if \<forall>m\<in>set_option (hb_Metrics hb). metrics_finite (metrics_of m)
        then ServerBody \<lparr>re_ServerID = ss_serverID a, re_Hostname = ss_hostname a, re_Online = True,
          re_LastSeen = rfc3339 (nat now), re_Metrics = map_option metrics_of (hb_Metrics hb)\<rparr>
        else NoBody)\<rparr>"
  using assms by (auto simp: handleGetServer_def handleAgentMessage_def encode_body_def Let_def
      split: option.split)

definition nan_heartbeat :: Heartbeat where
  "nan_heartbeat = \<lparr>hb_Timestamp = 0, hb_Metrics = Some \<lparr>CpuPercent = NaN, MemTotal = 0, MemUsed = 0,
     DiskTotal = 0, DiskUsed = 0, Load_1 = Finite 0, Load_5 = Finite 0, Load_15 = Finite 0\<rparr>,
     hb_Services = []\<rparr>"

theorem heartbeat_is_shown_witness:
  "handleGetServer ''srv_1'' (handleAgentMessage 0 (new_session ''srv_1'' ''web1'') 9
      (Some (AgentMessage_Heartbeat nan_heartbeat)) demo_connected) = \<lparr>status = 200, body = NoBody\<rparr>"
  by (subst heartbeat_is_shown)
    (simp_all add: demo_simps nan_heartbeat_def metrics_finite_def metrics_of_def)

text \<open>
  The server list has one entry for each registered server, with the identifier it is
  registered under, whatever the order of the iteration.
\<close>

theorem ListServers_lists_registry:
  assumes "reachable quote s" and "set order = dom (agents s)"
  shows "\<exists>infos. handleListServers order s = \<lparr>status = 200, body = ServersBody infos\<rparr> \<and>
    map si_ServerID infos = order"
proof -
  have "ss_serverID (the (sessions s (the (agents s sid)))) = sid" if "sid \<in> set order" for sid
  proof -
    have "sid \<in> dom (agents s)" using that assms(2) by blast
    then obtain k where k: "agents s sid = Some k" by blast
    then obtain a where "sessions s k = Some a" "ss_serverID a = sid"
      using reachable_inv [OF assms(1)] unfolding server_inv_def registry_ok_def by blast
    with k show ?thesis by simp
  qed
  then show ?thesis
    by (auto simp: handleListServers_def encode_body_def Let_def intro!: map_idI)
qed

theorem ListServers_lists_registry_witness:
  "\<exists>infos. handleListServers [''srv_1''] demo_connected = \<lparr>status = 200, body = ServersBody infos\<rparr> \<and>
    map si_ServerID infos = [''srv_1'']"
  by (rule ListServers_lists_registry [where quote = id, OF demo_steps(1)]) (simp add: demo_simps)

text \<open>Dates, and the zero time.\<close>

lemma digit_chars:
  "digit_char 0 = CHR ''0''" "digit_char (Suc 0) = CHR ''1''" "digit_char 2 = CHR ''2''"
  "digit_char 3 = CHR ''3''" "digit_char 4 = CHR ''4''" "digit_char 5 = CHR ''5''"
  "digit_char 6 = CHR ''6''" "digit_char 7 = CHR ''7''" "digit_char 8 = CHR ''8''"
  "digit_char 9 = CHR ''9''"
  by code_simp+

lemma replicate_small:
  "replicate 2 x = [x, x]" "replicate 3 x = [x, x, x]" "replicate (Suc 0) x = [x]"
  by (simp_all add: numeral_eq_Suc)

lemma rfc3339_examples:
  "rfc3339 0 = ''0001-01-01T00:00:00Z''"
  "rfc3339 63839707445 = ''2024-01-01T12:04:05Z''"
  "rfc3339 63844847999 = ''2024-02-29T23:59:59Z''"
  by (simp_all add: rfc3339_def civil_def pad_def Let_def show_nat.simps digit_chars
      replicate_small)

text \<open>
  A server is shown as online from the moment it registers, but until its first
  heartbeat, up to fifteen seconds later, it was last seen in the year 1.
\<close>

theorem GetServer_before_heartbeat:
  "handleGetServer sid (registerAgent k (new_session sid host) s) =
    \<lparr>status = 200, body = ServerBody \<lparr>re_ServerID = sid, re_Hostname = host, re_Online = True,
      re_LastSeen = ''0001-01-01T00:00:00Z'', re_Metrics = None\<rparr>\<rparr>"
  using rfc3339_examples(1)
  by (simp add: handleGetServer_def op_defs encode_body_def)

end
