(* ===== verification/ServerRun.thy ===== *)
theory ServerRun
  imports Auth Server
begin

text \<open>
  The rest of \<open>api/internal/grpc/server.go\<close>: one agent's \<open>Connect\<close> from its
  first message to its return, as a function of what the stream does, and the process that
  \<open>Run\<close> is, from its listeners to its shutdown. \<open>Connect\<close> is shown to be a
  sequence of the steps of theory \<open>Server\<close>; the process interleaves these steps with
  its own.
\<close>

section \<open>One session\<close>

text \<open>
  The branches of the \<open>select\<close> in \<open>handleSession\<close>, in the order they are taken:
  the stream's context is done, the reader got an error, a message of the queue is sent
  with this outcome, a message arrived at this time. A branch that is not ready is not
  taken.
\<close>

datatype recv_err = EOF | RecvErr goerr

datatype session_event =
    Stream_Done
  | Recv_Err recv_err
  | Outbound "goerr option"
  | Inbound AgentMessage int

definition leave_session :: "nat \<Rightarrow> server \<Rightarrow> server" where
  "leave_session k s = (case sessions s k of
     None \<Rightarrow> s | Some a \<Rightarrow> set_session k (a\<lparr>ss_pc := Leaving\<rparr>) s)"

text \<open>\<open>ch <- result\<close>, at the end of \<open>handleAgentMessage\<close>; it waits while the channel is full.\<close>

definition deliver_result :: "nat \<Rightarrow> server \<Rightarrow> server option" where
  "deliver_result k s = (case sessions s k of
     None \<Rightarrow> Some s
   | Some a \<Rightarrow> (case ss_pc a of
        Delivering i r \<Rightarrow>
          if length (chans s i) < result_capacity
          then Some ((set_session k (a\<lparr>ss_pc := Looping\<rparr>) s)\<lparr>chans := (chans s)(i := chans s i @ [r])\<rparr>)
          else None
      | _ \<Rightarrow> Some s))"

text \<open>
  The result is \<open>None\<close> while the loop has not returned: it waits for another event, or
  for the result channel.
\<close>

fun handleSession :: "nat \<Rightarrow> session_event list \<Rightarrow> server \<Rightarrow> goerr option option \<times> server" where
  "handleSession k [] s = (None, s)"
| "handleSession k (ev # evs) s =
     (case sessions s k of
        None \<Rightarrow> (None, s)
      | Some a \<Rightarrow> (case ev of
          Stream_Done \<Rightarrow> (Some None, leave_session k s)
        | Recv_Err EOF \<Rightarrow> (Some None, leave_session k s)
        | Recv_Err (RecvErr e) \<Rightarrow> (Some (Some e), leave_session k s)
        | Outbound err \<Rightarrow>
            (case ss_send a of
               [] \<Rightarrow> handleSession k evs s
             | msg # rest \<Rightarrow>
                 (let s1 = set_session k (a\<lparr>ss_send := rest\<rparr>) s in
                  case err of
                    Some e \<Rightarrow> (Some (Some e), leave_session k s1)
                  | None \<Rightarrow> handleSession k evs s1))
        | Inbound msg now \<Rightarrow>
            (case deliver_result k (handleAgentMessage k a now msg s) of
               None \<Rightarrow> (None, handleAgentMessage k a now msg s)
             | Some s1 \<Rightarrow> handleSession k evs s1)))"

text \<open>The deferred call, with the session's end.\<close>

definition finish_session :: "nat \<Rightarrow> string \<Rightarrow> server \<Rightarrow> server" where
  "finish_session k serverID s = (case sessions s k of
     None \<Rightarrow> unregisterAgent serverID s
   | Some a \<Rightarrow> unregisterAgent serverID (set_session k (a\<lparr>ss_pc := Gone\<rparr>) s))"

text \<open>
  \<open>Connect\<close>: the messages sent on the stream before the session, what it returned, and
  the server and the database afterwards. \<open>k\<close> is the address of the new session.
\<close>

definition Connect :: "(string \<Rightarrow> string) \<Rightarrow> 'p pgpool option \<Rightarrow> string \<Rightarrow> int
    \<Rightarrow> (ServerMessage \<Rightarrow> goerr option) \<Rightarrow> goerr + AgentMessage \<Rightarrow> session_event list \<Rightarrow> nat
    \<Rightarrow> server \<Rightarrow> 'p \<Rightarrow> ServerMessage list \<times> goerr option option \<times> server \<times> 'p" where
  "Connect sha256 store b now send recv evs k s p =
     (case connect_prologue sha256 store b now send recv p of
        ((sent, Inl e), p1) \<Rightarrow> (sent, Some (Some e), s, p1)
      | ((sent, Inr (serverID, hostname)), p1) \<Rightarrow>
          (case handleSession k evs (registerAgent k (new_session serverID hostname) s) of
             (Some res, s1) \<Rightarrow> (sent, Some res, finish_session k serverID s1, p1)
           | (None, s1) \<Rightarrow> (sent, None, s1, p1)))"

section \<open>It takes the steps of the server\<close>

lemma step_leave:
  assumes "sessions s k = Some a" and "ss_pc a = Looping"
  shows "server_step quote s (leave_session k s)"
    and "sessions (leave_session k s) k = Some (a\<lparr>ss_pc := Leaving\<rparr>)"
  using server_step.leave [OF assms, of quote] assms by (simp_all add: leave_session_def)

lemma reachable_rtranclp:
  "(server_step quote)\<^sup>*\<^sup>* s t \<Longrightarrow> reachable quote s \<Longrightarrow> reachable quote t"
  by (induction rule: rtranclp_induct) (auto intro: reachable.step)

text \<open>A received message, with the delivery it leads to: the channel has room.\<close>

lemma message_steps:
  assumes "reachable quote s" and k: "sessions s k = Some a" "ss_pc a = Looping"
  obtains s1 b where "deliver_result k (handleAgentMessage k a now msg s) = Some s1"
    and "(server_step quote)\<^sup>*\<^sup>* s s1" and "sessions s1 k = Some b" and "ss_pc b = Looping"
    and "ss_serverID b = ss_serverID a"
proof -
  let ?s' = "handleAgentMessage k a now msg s"
  have step: "server_step quote s ?s'" using k by (rule server_step.receive)
  have inv: "server_inv ?s'" using assms(1) step by (blast intro: reachable_inv reachable.step)
  show thesis
  proof (cases "\<exists>i r. sessions ?s' k = Some (a\<lparr>ss_pc := Delivering i r\<rparr>)")
    case True
    then obtain i r where a': "sessions ?s' k = Some (a\<lparr>ss_pc := Delivering i r\<rparr>)" by blast
    then have "delivering ?s' k i r" by (auto simp: delivering_def)
    then have "chans ?s' i = []" using inv deliveryD(1) by (auto simp: server_inv_def)
    then have room: "length (chans ?s' i) < result_capacity" by (simp add: result_capacity_def)
    let ?s1 = "(set_session k (a\<lparr>ss_pc := Looping\<rparr>) ?s')\<lparr>chans := (chans ?s')(i := chans ?s' i @ [r])\<rparr>"
    have "server_step quote ?s' ?s1" using server_step.deliver [OF a' _ room, of r quote] by simp
    then show thesis using a' room step
      by (intro that [of ?s1 "a\<lparr>ss_pc := Looping\<rparr>"]) (auto simp: deliver_result_def)
  next
    case False
    obtain b where "sessions ?s' k = Some b" "ss_pc b = Looping" "ss_serverID b = ss_serverID a"
      using handleAgentMessage_cases [of k a now msg s] False k by (auto, blast)
    then show thesis using step by (intro that [of ?s' b]) (auto simp: deliver_result_def)
  qed
qed

text \<open>A message of the queue that could not be sent: the session takes it and leaves.\<close>

lemma failed_send_steps:
  assumes "sessions s k = Some a" and "ss_pc a = Looping" and "ss_send a = msg # rest"
  shows "(server_step quote)\<^sup>*\<^sup>* s (leave_session k (set_session k (a\<lparr>ss_send := rest\<rparr>) s))"
    and "sessions (leave_session k (set_session k (a\<lparr>ss_send := rest\<rparr>) s)) k =
      Some (a\<lparr>ss_send := rest, ss_pc := Leaving\<rparr>)"
proof -
  let ?s1 = "set_session k (a\<lparr>ss_send := rest\<rparr>) s"
  have k1: "sessions ?s1 k = Some (a\<lparr>ss_send := rest\<rparr>)" "ss_pc (a\<lparr>ss_send := rest\<rparr>) = Looping"
    using assms by simp_all
  show "(server_step quote)\<^sup>*\<^sup>* s (leave_session k ?s1)"
    using server_step.transmit [OF assms, of quote] step_leave(1) [OF k1, of quote] by auto
  show "sessions (leave_session k ?s1) k = Some (a\<lparr>ss_send := rest, ss_pc := Leaving\<rparr>)"
    using step_leave(2) [OF k1] by simp
qed

text \<open>
  A session that is looping runs by steps; when the function returned, it is leaving.
\<close>

lemma handleSession_steps:
  assumes "reachable quote s" and "sessions s k = Some a" and "ss_pc a = Looping"
    and "handleSession k evs s = (res, s')"
  shows "(server_step quote)\<^sup>*\<^sup>* s s' \<and> (\<exists>b. sessions s' k = Some b \<and> ss_serverID b = ss_serverID a \<and>
    ss_pc b = (case res of None \<Rightarrow> Looping | Some err \<Rightarrow> Leaving))"
  using assms
proof (induction k evs s arbitrary: a rule: handleSession.induct)
  case (2 k ev evs s)
  note k = "2.prems"(2,3)
  note leave = step_leave(1) [OF k, of quote] step_leave(2) [OF k]
  show ?case
  proof (cases ev)
    case Stream_Done
    with 2 leave show ?thesis by auto
  next
    case (Recv_Err e)
    with 2 leave show ?thesis by (cases e) auto
  next
    case (Outbound err)
    show ?thesis
    proof (cases "ss_send a")
      case Nil
      with 2 Outbound show ?thesis by simp
    next
      case (Cons msg rest)
      let ?s1 = "set_session k (a\<lparr>ss_send := rest\<rparr>) s"
      have step: "server_step quote s ?s1" using server_step.transmit [OF k Cons] .
      show ?thesis
      proof (cases err)
        case None
        have "reachable quote ?s1" using "2.prems"(1) step by (rule reachable.step)
        then have "(server_step quote)\<^sup>*\<^sup>* ?s1 s' \<and> (\<exists>b. sessions s' k = Some b \<and> ss_serverID b = ss_serverID a \<and>
            ss_pc b = (case res of None \<Rightarrow> Looping | Some err \<Rightarrow> Leaving))"
          using "2.IH"(2) [OF k(1) Outbound Cons refl None, of "a\<lparr>ss_send := rest\<rparr>"] "2.prems"(4) k Outbound Cons None
          by simp
        with step show ?thesis by (blast intro: converse_rtranclp_into_rtranclp)
      next
        case (Some e)
        then show ?thesis using failed_send_steps(1) [OF k Cons, of quote] failed_send_steps(2) [OF k Cons] "2.prems"(4) k Outbound Cons by auto
      qed
    qed
  next
    case (Inbound msg now)
    obtain s1 b where d: "deliver_result k (handleAgentMessage k a now msg s) = Some s1"
      and steps: "(server_step quote)\<^sup>*\<^sup>* s s1" and b: "sessions s1 k = Some b" "ss_pc b = Looping"
      and id: "ss_serverID b = ss_serverID a"
      using message_steps [OF "2.prems"(1) k] by blast
    have "reachable quote s1" using steps "2.prems"(1) by (rule reachable_rtranclp)
    then have "(server_step quote)\<^sup>*\<^sup>* s1 s' \<and> (\<exists>c. sessions s' k = Some c \<and> ss_serverID c = ss_serverID b \<and>
        ss_pc c = (case res of None \<Rightarrow> Looping | Some err \<Rightarrow> Leaving))"
      using "2.IH"(3) [OF k(1) Inbound d] b "2.prems"(4) k Inbound d by simp
    with steps id show ?thesis by (auto intro: rtranclp_trans)
  qed
qed auto

text \<open>
  C13: \<open>Connect\<close>, run as it is written, is a sequence of the steps that theory
  \<open>Server\<close> interleaves: it either changes nothing, or registers a session, runs it, and
  has taken it out of the registry when it returns.
\<close>

theorem Connect_runs_steps:
  assumes "reachable quote s" and "sessions s k = None"
    and "Connect sha store b now send recv evs k s p = (sent, res, s', p')"
  shows "(server_step quote)\<^sup>*\<^sup>* s s' \<and>
    (case res of
       None \<Rightarrow> \<exists>a. sessions s' k = Some a \<and> ss_pc a = Looping
     | Some err \<Rightarrow> s' = s \<or>
         (\<exists>a. sessions s' k = Some a \<and> ss_pc a = Gone \<and> agents s' (ss_serverID a) = None))"
proof -
  obtain out p1 where pro: "connect_prologue sha store b now send recv p = (out, p1)" by fastforce
  obtain sent' r where out: "out = (sent', r)" by fastforce
  show ?thesis
  proof (cases r)
    case (Inl e)
    then show ?thesis using assms(3) pro out by (auto simp: Connect_def)
  next
    case (Inr x)
    obtain sid host where x: "x = (sid, host)" by fastforce
    let ?a = "new_session sid host"
    let ?s1 = "registerAgent k ?a s"
    obtain res1 s2 where h: "handleSession k evs ?s1 = (res1, s2)" by fastforce
    have step: "server_step quote s ?s1" using assms(2) by (rule server_step.register)
    have k1: "sessions ?s1 k = Some ?a" "ss_pc ?a = Looping" "ss_serverID ?a = sid"
      by (simp_all add: registerAgent_def new_session_def)
    obtain c where steps: "(server_step quote)\<^sup>*\<^sup>* ?s1 s2" and c: "sessions s2 k = Some c" "ss_serverID c = sid"
      "ss_pc c = (case res1 of None \<Rightarrow> Looping | Some err \<Rightarrow> Leaving)"
      using handleSession_steps [OF reachable.step [OF assms(1) step] k1(1,2) h] k1(3) by auto
    have run: "(server_step quote)\<^sup>*\<^sup>* s s2" using step steps by (rule converse_rtranclp_into_rtranclp)
    show ?thesis
    proof (cases res1)
      case None
      then show ?thesis using assms(3) pro out Inr x h run c by (auto simp: Connect_def)
    next
      case (Some err)
      then have fin: "server_step quote s2 (finish_session k sid s2)"
        using server_step.unregister [OF c(1), of quote] c by (simp add: finish_session_def)
      have s': "s' = finish_session k sid s2" "res = Some err"
        using assms(3) pro out Inr x h Some by (auto simp: Connect_def)
      have "sessions s' k = Some (c\<lparr>ss_pc := Gone\<rparr>)" "agents s' sid = None"
        using c by (simp_all add: s' finish_session_def unregisterAgent_def)
      then show ?thesis using run fin c(2) s' by auto
    qed
  qed
qed

text \<open>The witness: a session with a heartbeat that the agent ends.\<close>

definition demo_registration :: "goerr + AgentMessage" where
  "demo_registration = Inr (Some (AgentMessage_Register
     \<lparr>rq_Token = ''t'', rq_Hostname = ''web1'', rq_Os = [], rq_Arch = [], rq_Version = []\<rparr>))"

definition demo_events :: "session_event list" where
  "demo_events = [Inbound (Some (AgentMessage_Heartbeat
     \<lparr>hb_Timestamp = 1, hb_Metrics = None, hb_Services = []\<rparr>)) 5, Recv_Err EOF]"

theorem Connect_runs_steps_witness:
  "let out = Connect id (None :: unit pgpool option) [] 0 (\<lambda>_. None) demo_registration demo_events 0 NewServer ()
   in fst (snd out) = Some None \<and> (server_step id)\<^sup>*\<^sup>* NewServer (fst (snd (snd out)))"
proof -
  let ?out = "Connect id (None :: unit pgpool option) [] 0 (\<lambda>_. None) demo_registration demo_events 0 NewServer ()"
  have res: "fst (snd ?out) = Some None"
    by (simp add: Connect_def connect_prologue_def authenticate_def registerAgent_def new_session_def
        NewServer_def handleAgentMessage_def deliver_result_def leave_session_def demo_registration_def
        demo_events_def)
  have "?out = (fst ?out, fst (snd ?out), fst (snd (snd ?out)), snd (snd (snd ?out)))"
    by (simp only: prod.collapse)
  from Connect_runs_steps [OF reachable.init _ this, of id] res
  show ?thesis by (simp add: Let_def NewServer_def)
qed

section \<open>The process\<close>

text \<open>
  \<open>Run\<close> with its two goroutines: the gRPC server and the HTTP server, each of which
  reports at most once on \<open>errCh\<close>, and the \<open>select\<close> with the shutdown after it.
\<close>

datatype run_pc = Serving | Stopping | Closing | Finished "goerr option"

record process =
  pr_pc :: run_pc
  pr_grpc :: bool                  \<comment> \<open>\<open>Serve\<close> has not returned\<close>
  pr_http :: bool                  \<comment> \<open>\<open>ListenAndServe\<close> has not returned\<close>
  pr_errs :: "goerr option list"   \<comment> \<open>\<open>errCh\<close>\<close>
  pr_server :: server

definition err_capacity :: nat where
  "err_capacity = 2"

text \<open>\<open>listen\<close>: the outcome of \<open>net.Listen\<close>.\<close>

definition run_start :: "string \<Rightarrow> goerr option \<Rightarrow> goerr + process" where
  "run_start grpcAddr listen = (case listen of
     Some e \<Rightarrow> Inl (''listen '' @ grpcAddr @ '': '' @ e)
   | None \<Rightarrow> Inr \<lparr>pr_pc = Serving, pr_grpc = True, pr_http = True, pr_errs = [], pr_server = NewServer\<rparr>)"

definition all_gone :: "server \<Rightarrow> bool" where
  "all_gone s \<longleftrightarrow> (\<forall>k a. sessions s k = Some a \<longrightarrow> ss_pc a = Gone)"

definition all_returned :: "server \<Rightarrow> bool" where
  "all_returned s \<longleftrightarrow> (\<forall>i pc. calls s i = Some pc \<longrightarrow> (\<exists>c r. pc = Returned c r))"

text \<open>
  \<open>GracefulStop\<close> accepts no new stream and returns when the handlers of the open ones
  have; \<open>Shutdown\<close> accepts no new request and returns when the running ones have.
  \<open>Serve\<close> returns nil only after a stop, and \<open>ErrServerClosed\<close>, which is not
  reported, comes only with the shutdown.
\<close>

inductive process_step :: "(string \<Rightarrow> string) \<Rightarrow> process \<Rightarrow> process \<Rightarrow> bool" for quote where
  serve: "pr_pc p = Serving \<Longrightarrow> server_step quote (pr_server p) s \<Longrightarrow>
     process_step quote p (p\<lparr>pr_server := s\<rparr>)"
| drain: "pr_pc p = Stopping \<Longrightarrow> server_step quote (pr_server p) s \<Longrightarrow>
     dom (sessions s) = dom (sessions (pr_server p)) \<Longrightarrow> process_step quote p (p\<lparr>pr_server := s\<rparr>)"
| close: "pr_pc p = Closing \<Longrightarrow> server_step quote (pr_server p) s \<Longrightarrow>
     dom (sessions s) = dom (sessions (pr_server p)) \<Longrightarrow> dom (calls s) = dom (calls (pr_server p)) \<Longrightarrow>
     process_step quote p (p\<lparr>pr_server := s\<rparr>)"
| grpc_fails: "pr_grpc p \<Longrightarrow> length (pr_errs p) < err_capacity \<Longrightarrow>
     process_step quote p (p\<lparr>pr_grpc := False, pr_errs := pr_errs p @ [Some e]\<rparr>)"
| grpc_stopped: "pr_grpc p \<Longrightarrow> pr_pc p \<noteq> Serving \<Longrightarrow> length (pr_errs p) < err_capacity \<Longrightarrow>
     process_step quote p (p\<lparr>pr_grpc := False, pr_errs := pr_errs p @ [None]\<rparr>)"
| http_fails: "pr_http p \<Longrightarrow> length (pr_errs p) < err_capacity \<Longrightarrow>
     process_step quote p (p\<lparr>pr_http := False, pr_errs := pr_errs p @ [Some e]\<rparr>)"
| http_closed: "pr_http p \<Longrightarrow> pr_pc p = Closing \<Longrightarrow> process_step quote p (p\<lparr>pr_http := False\<rparr>)"
| cancelled: "pr_pc p = Serving \<Longrightarrow> process_step quote p (p\<lparr>pr_pc := Stopping\<rparr>)"
| failed: "pr_pc p = Serving \<Longrightarrow> pr_errs p = err # rest \<Longrightarrow>
     process_step quote p (p\<lparr>pr_pc := Finished err, pr_errs := rest\<rparr>)"
| stopped: "pr_pc p = Stopping \<Longrightarrow> all_gone (pr_server p) \<Longrightarrow>
     process_step quote p (p\<lparr>pr_pc := Closing\<rparr>)"
| shut: "pr_pc p = Closing \<Longrightarrow> all_returned (pr_server p) \<Longrightarrow>
     process_step quote p (p\<lparr>pr_pc := Finished None\<rparr>)"

definition process_reachable :: "(string \<Rightarrow> string) \<Rightarrow> process \<Rightarrow> bool" where
  "process_reachable quote p \<longleftrightarrow>
     (\<exists>p0. run_start [] None = Inr p0 \<and> (process_step quote)\<^sup>*\<^sup>* p0 p)"

text \<open>A session that is gone stays gone.\<close>

lemma gone_step:
  assumes "server_step quote s t" and "sessions s k = Some a" and "ss_pc a = Gone"
  shows "\<exists>b. sessions t k = Some b \<and> ss_pc b = Gone"
  using assms
proof (cases rule: server_step.cases)
  case (receive k' a' now msg)
  then show ?thesis using assms(2,3) handleAgentMessage_cases [of k' a' now msg s] by auto
qed (auto simp: registerAgent_def unregisterAgent_def)

lemma all_gone_step:
  assumes "server_step quote s t" and "dom (sessions t) = dom (sessions s)" and "all_gone s"
  shows "all_gone t"
  unfolding all_gone_def
proof (intro allI impI)
  fix k b assume b: "sessions t k = Some b"
  then obtain a where a: "sessions s k = Some a" using assms(2) by (metis domD domI)
  then have "ss_pc a = Gone" using assms(3) by (simp add: all_gone_def)
  from gone_step [OF assms(1) a this] b show "ss_pc b = Gone" by simp
qed

text \<open>
  The invariant of the process: its server is reachable, a goroutine has room for its
  report, nil is reported only in the shutdown, and the shutdown has gone past the sessions
  only when they are gone.
\<close>

definition process_inv :: "(string \<Rightarrow> string) \<Rightarrow> process \<Rightarrow> bool" where
  "process_inv quote p \<longleftrightarrow> reachable quote (pr_server p) \<and>
     length (pr_errs p) + (if pr_grpc p then 1 else 0) + (if pr_http p then 1 else 0) \<le> err_capacity \<and>
     (pr_pc p = Serving \<longrightarrow> None \<notin> set (pr_errs p)) \<and>
     (pr_pc p = Closing \<or> pr_pc p = Finished None \<longrightarrow> all_gone (pr_server p))"

lemma process_inv_step: "process_step quote p q \<Longrightarrow> process_inv quote p \<Longrightarrow> process_inv quote q"
  by (induction rule: process_step.induct)
    (auto simp: process_inv_def intro: reachable.step all_gone_step)

lemma process_inv_steps:
  "(process_step quote)\<^sup>*\<^sup>* p q \<Longrightarrow> process_inv quote p \<Longrightarrow> process_inv quote q"
  by (induction rule: rtranclp_induct) (auto intro: process_inv_step)

lemma process_inv_start: "run_start addr listen = Inr p \<Longrightarrow> process_inv quote p"
  by (auto simp: run_start_def err_capacity_def process_inv_def intro: reachable.init split: option.splits)

lemma process_reachable_inv: "process_reachable quote p \<Longrightarrow> process_inv quote p"
  unfolding process_reachable_def using process_inv_start process_inv_steps by blast

text \<open>The process only ever moves on: its states are ordered by their stage.\<close>

fun run_stage :: "run_pc \<Rightarrow> nat" where
  "run_stage Serving = 0"
| "run_stage Stopping = 1"
| "run_stage Closing = 2"
| "run_stage (Finished err) = 3"

instantiation run_pc :: preorder
begin

definition less_eq_run_pc :: "run_pc \<Rightarrow> run_pc \<Rightarrow> bool" where
  "x \<le> y \<longleftrightarrow> run_stage x \<le> run_stage y"

definition less_run_pc :: "run_pc \<Rightarrow> run_pc \<Rightarrow> bool" where
  "x < y \<longleftrightarrow> run_stage x < run_stage y"

instance
  by standard (auto simp: less_eq_run_pc_def less_run_pc_def)

end

inductive_cases process_stepE: "process_step quote p q"

lemma process_moves_on: "process_step quote p q \<Longrightarrow> pr_pc p \<le> pr_pc q"
  by (elim process_stepE) (simp_all add: less_eq_run_pc_def)

text \<open>From \<open>Stopping\<close> there is no way to an error.\<close>

lemma stopping_steps:
  assumes "(process_step quote)\<^sup>*\<^sup>* p q" and "pr_pc p = Stopping"
  shows "pr_pc q \<in> {Stopping, Closing, Finished None}"
  using assms
proof (induction rule: rtranclp_induct)
  case (step q r)
  then show ?case by (elim process_stepE) auto
qed simp


definition demo_process :: process where
  "demo_process = \<lparr>pr_pc = Stopping, pr_grpc = True, pr_http = True, pr_errs = [],
     pr_server = registerAgent 0 (new_session ''srv_1'' ''web1'') NewServer\<rparr>"

lemma demo_process_reachable: "process_reachable quote demo_process"
proof -
  let ?p0 = "\<lparr>pr_pc = Serving, pr_grpc = True, pr_http = True, pr_errs = [], pr_server = NewServer\<rparr>"
  let ?s = "registerAgent 0 (new_session ''srv_1'' ''web1'') NewServer"
  have "server_step quote NewServer ?s" by (rule server_step.register) (simp add: NewServer_def)
  then have "process_step quote ?p0 (?p0\<lparr>pr_server := ?s\<rparr>)" by (intro process_step.serve) simp_all
  moreover have "process_step quote (?p0\<lparr>pr_server := ?s\<rparr>) demo_process"
    using process_step.cancelled [of "?p0\<lparr>pr_server := ?s\<rparr>" quote] by (simp add: demo_process_def)
  ultimately show ?thesis
    unfolding process_reachable_def by (auto simp: run_start_def intro: converse_rtranclp_into_rtranclp)
qed


text \<open>
  The goroutines never block on \<open>errCh\<close>: each finds room for its one report.
\<close>

theorem error_reports_have_room:
  assumes "process_reachable quote p" and "pr_grpc p \<or> pr_http p"
  shows "length (pr_errs p) < err_capacity"
  using process_reachable_inv [OF assms(1)] assms(2) by (auto simp: process_inv_def split: if_splits)

theorem error_reports_have_room_witness: "length (pr_errs demo_process) < err_capacity"
  by (rule error_reports_have_room [OF demo_process_reachable]) (simp add: demo_process_def)

end
