(* ===== verification/ApiMain.thy ===== *)
theory ApiMain
  imports Routes ServerRun
begin

text \<open>
  The start of \<open>api/cmd/api/main.go\<close>: what the control plane is configured with.
\<close>

record api_flags =
  fl_grpc :: string
  fl_http :: string
  fl_db :: string
  fl_adminKey :: string

text \<open>
  \<open>main\<close> up to the call of \<open>Run\<close>: the exit status 1, or the admin key and the
  store, which is nil when no database is configured. \<open>opened\<close> and \<open>ping\<close> are
  the driver's answers for a data source name.
\<close>

definition api_main :: "(string \<Rightarrow> string) \<Rightarrow> (string \<Rightarrow> goerr + 'p pgpool) \<Rightarrow> goerr option
    \<Rightarrow> api_flags \<Rightarrow> 'p \<Rightarrow> (nat + string \<times> 'p pgpool option) \<times> 'p" where
  "api_main getenv opened ping fl p =
     (let dbURL = flag_or_env getenv (fl_db fl) ''GRATIS_DB_URL'';
          adminKey = flag_or_env getenv (fl_adminKey fl) ''GRATIS_ADMIN_KEY''
      in if dbURL \<noteq> []
         then (case NewStore (opened dbURL) ping p of
             (Inl e, p') \<Rightarrow> (Inl 1, p')
           | (Inr st, p') \<Rightarrow> (Inr (adminKey, Some st), p'))
         else (Inr (adminKey, None), p))"

text \<open>
  The exit status of the process: that of the start, or what \<open>Run\<close> returned, with
  \<open>listened\<close> the outcome of its \<open>net.Listen\<close>. \<open>None\<close> while it runs.
\<close>

definition api_exit :: "nat + 'a \<Rightarrow> goerr + process \<Rightarrow> nat option" where
  "api_exit started listened =
     (case started of
        Inl code \<Rightarrow> Some code
      | Inr x \<Rightarrow> (case listened of
          Inl e \<Rightarrow> Some 1
        | Inr p \<Rightarrow> (case pr_pc p of
            Finished None \<Rightarrow> Some 0 | Finished (Some e) \<Rightarrow> Some 1 | _ \<Rightarrow> None)))"

text \<open>
  An API that starts without an admin key, in the flags and in the environment, never
  issues a token: the token endpoint answers 401 whatever header is sent.
\<close>

theorem no_admin_key_no_tokens:
  assumes "fl_adminKey fl = []" and "getenv ''GRATIS_ADMIN_KEY'' = []"
    and "api_main getenv opened ping fl p = (Inr (key, store), p1)"
    and "hr_Path r = [''api'', ''v1'', ''admin'', ''tokens'']" and "hr_Method r = ''POST''"
  shows "serve sha key store raw now order send r s p2 = (http_Error ''unauthorized'' 401, p2)"
proof -
  have "key = []"
    using assms(1-3) by (auto simp: api_main_def flag_or_env_def Let_def split: if_splits prod.splits sum.splits)
  then show ?thesis using serve_token_unauthorized [of key r] assms(4,5) by simp
qed

theorem no_admin_key_no_tokens_witness:
  "serve id [] (None :: unit pgpool option) (Inr ''ab'') 1 [] (\<lambda>_ _. Inl [])
     \<lparr>hr_Method = ''POST'', hr_Path = [''api'', ''v1'', ''admin'', ''tokens''], hr_AdminKey = [],
      hr_Body = Inl ''EOF''\<rparr> NewServer () = (http_Error ''unauthorized'' 401, ())"
  by (rule no_admin_key_no_tokens [where getenv = "\<lambda>_. []" and opened = "\<lambda>_. Inl []" and ping = None
        and fl = "\<lparr>fl_grpc = [], fl_http = [], fl_db = [], fl_adminKey = []\<rparr>" and p = "()" and ?p1.0 = "()"])
    (simp_all add: api_main_def flag_or_env_def)

end
