(* ===== verification/ControlPlane.thy ===== *)
theory ControlPlane
  imports Auth Server
begin

text \<open>
  The server and its store. In theory \<open>Server\<close> a session can begin with any identifier;
  here it begins only after \<open>connect_prologue\<close> (theory \<open>Auth\<close>) accepted the agent,
  against the database that tokens and servers are kept in.
\<close>

section \<open>State and steps\<close>

text \<open>
  \<open>cp_accepted\<close>: the agents that were accepted and are not registered yet, with their
  identifiers and host names. The statements of one authentication are one step.
\<close>

record 'p control_plane =
  cp_server :: server
  cp_accepted :: "(string \<times> string) set"
  cp_store :: 'p

definition started :: "'p \<Rightarrow> 'p control_plane" where
  "started p = \<lparr>cp_server = NewServer, cp_accepted = {}, cp_store = p\<rparr>"

inductive cp_step :: "(string \<Rightarrow> string) \<Rightarrow> (string \<Rightarrow> string) \<Rightarrow> 'p pgpool
    \<Rightarrow> 'p control_plane \<Rightarrow> 'p control_plane \<Rightarrow> bool" for quote sha pool where
  accept: "connect_prologue sha (Some pool) b now send recv (cp_store c) = ((sent, Inr (sid, host)), p) \<Longrightarrow>
     cp_step quote sha pool c (c\<lparr>cp_accepted := insert (sid, host) (cp_accepted c), cp_store := p\<rparr>)"
| refuse: "connect_prologue sha (Some pool) b now send recv (cp_store c) = ((sent, Inl e), p) \<Longrightarrow>
     cp_step quote sha pool c (c\<lparr>cp_store := p\<rparr>)"
| register: "(sid, host) \<in> cp_accepted c \<Longrightarrow> sessions (cp_server c) k = None \<Longrightarrow>
     cp_step quote sha pool c (c\<lparr>cp_server := registerAgent k (new_session sid host) (cp_server c)\<rparr>)"
| server: "server_step quote (cp_server c) t \<Longrightarrow> dom (sessions t) \<subseteq> dom (sessions (cp_server c)) \<Longrightarrow>
     cp_step quote sha pool c (c\<lparr>cp_server := t\<rparr>)"
| token: "cp_step quote sha pool c (c\<lparr>cp_store := snd (CreateToken sha pool raw now (cp_store c))\<rparr>)"
| restart: "cp_step quote sha pool c (started (snd (NewStore (Inr pool) ping (cp_store c))))"

inductive_cases cp_stepE: "cp_step quote sha pool c c'"

text \<open>What the prologue leaves to the session, and what it does to the database.\<close>

lemma prologue_accepted:
  assumes "connect_prologue sha store b now send recv p = ((sent, Inr (sid, host)), p')"
  obtains req where "authenticate sha store b now req p = ((sid, None), p')"
  using assms by (auto simp: connect_prologue_def Let_def
      split: sum.splits option.splits AgentPayload.splits prod.splits)

lemma prologue_store:
  assumes "connect_prologue sha store b now send recv p = (out, p')"
  obtains "p' = p" | req where "p' = snd (authenticate sha store b now req p)"
proof (cases "\<exists>req. recv = Inr (Some (AgentMessage_Register req))")
  case True
  then obtain req where "recv = Inr (Some (AgentMessage_Register req))" by blast
  then have "p' = snd (authenticate sha store b now req p)"
    using assms by (auto simp: connect_prologue_def Let_def split: option.splits prod.splits)
  then show thesis by (rule that(2))
next
  case False
  then have "p' = p"
    using assms by (auto simp: connect_prologue_def split: sum.splits option.splits AgentPayload.splits)
  then show thesis by (rule that(1))
qed

text \<open>A session keeps its identifier, so those of one state of the server are those of the next.\<close>

lemma server_step_ids:
  assumes "server_step quote s t" and "dom (sessions t) \<subseteq> dom (sessions s)" and "sessions t k = Some b"
  shows "\<exists>a. sessions s k = Some a \<and> ss_serverID a = ss_serverID b"
  using assms
proof (cases rule: server_step.cases)
  case (receive k' a now msg)
  then show ?thesis using assms(3) handleAgentMessage_cases [of k' a now msg s]
    by (auto split: if_splits)
qed (auto simp: registerAgent_def unregisterAgent_def split: if_splits)

section \<open>Bound tokens\<close>

text \<open>A server identifier that a token is bound to; bindings stay.\<close>

definition bound_ids :: "tables \<Rightarrow> string set" where
  "bound_ids t = {sid. \<exists>r\<in>set (tokens t). tk_server_id r = Some sid}"

lemma bound_server_ids: "schema_ok t \<Longrightarrow> bound_ids t \<subseteq> server_ids t"
  by (auto simp: schema_ok_def bound_ids_def)

context pg_tables
begin

lemma bind_binds:
  assumes ok: "schema_ok (tabs p)" and r: "find_token P (tabs p) = Some r" "tk_server_id r = None"
    and b: "pg_exec pool bind_token_sql [PgTime now, PgText sid, PgText (tk_id r)] p = (err, p')"
  shows "bound_ids (tabs p) \<subseteq> bound_ids (tabs p') \<and> (err = None \<longrightarrow> sid \<in> bound_ids (tabs p'))"
proof (cases err)
  case (Some e)
  then show ?thesis using exec_fail b by auto
next
  case None
  then have t: "tabs p' = (tabs p)\<lparr>tokens := map (bind_row now sid (tk_id r)) (tokens (tabs p))\<rparr>"
    using bind_ok b by simp
  have rin: "r \<in> set (tokens (tabs p))" using find_token_SomeD [OF r(1)] by simp
  have "bind_row now sid (tk_id r) r' = r'" if "r' \<in> set (tokens (tabs p))" "tk_server_id r' = Some x" for r' x
  proof -
    have "r' \<noteq> r" using that(2) r(2) by auto
    then have "tk_id r' \<noteq> tk_id r" using ok that(1) rin by (auto simp: schema_ok_def distinct_map inj_on_def)
    then show ?thesis by (simp add: bind_row_def)
  qed
  then have "bound_ids (tabs p) \<subseteq> bound_ids (tabs p')"
    by (auto simp: bound_ids_def t) (metis image_eqI)
  moreover have "bind_row now sid (tk_id r) r \<in> set (tokens (tabs p'))" using rin by (simp add: t)
  then have "sid \<in> bound_ids (tabs p')" by (force simp: bound_ids_def bind_row_def)
  ultimately show ?thesis by simp
qed

lemma ValidateToken_binds:
  assumes ok: "schema_ok (tabs p)" and v: "ValidateToken sha pool b now tok p = ((sid, err), p')"
  shows "schema_ok (tabs p') \<and> bound_ids (tabs p) \<subseteq> bound_ids (tabs p') \<and>
    (err = None \<longrightarrow> sid \<in> bound_ids (tabs p'))"
proof -
  obtain res p1 where q: "pg_query_token pool select_token_sql [PgText (hashToken sha tok)] p = (res, p1)"
    by fastforce
  have same: "tabs p1 = tabs p" using q by (rule select_same)
  show ?thesis
  proof (cases res)
    case (Inl e)
    then show ?thesis using v q ok same by (auto simp: ValidateToken_def)
  next
    case (Inr row)
    obtain i u s where row: "row = (i, u, s)" by (cases row)
    obtain r where r: "find_token (\<lambda>r. tk_hash r = hashToken sha tok) (tabs p1) = Some r" "tk_id r = i"
      "tk_server_id r = s" using select_row [OF q [unfolded Inr row]] same by auto
    show ?thesis
    proof (cases "s = None \<and> u = None")
      case False
      then have "tabs p' = tabs p" "err = None \<Longrightarrow> s = Some sid"
        using v q Inr row same by (auto simp: ValidateToken_def split: if_splits option.splits)
      then show ?thesis using ok r same find_token_SomeD [OF r(1)] by (auto simp: bound_ids_def)
    next
      case True
      then have b: "pg_exec pool bind_token_sql [PgTime now, PgText sid, PgText i] p1 = (err, p')"
        using v q Inr row by (auto simp: ValidateToken_def Let_def split: prod.splits)
      then show ?thesis
        using bind_binds [OF _ r(1)] r(2,3) True exec_schema [OF _ b] ok same by auto
    qed
  qed
qed

lemma authenticate_binds:
  assumes ok: "schema_ok (tabs p)" and a: "authenticate sha (Some pool) b now req p = ((sid, err), p')"
  shows "schema_ok (tabs p') \<and> bound_ids (tabs p) \<subseteq> bound_ids (tabs p') \<and>
    (err = None \<longrightarrow> sid \<in> bound_ids (tabs p'))"
proof (cases "rq_Token req = []")
  case True
  then show ?thesis using ok a by (auto simp: authenticate_def)
next
  case False
  obtain x e p1 where v: "ValidateToken sha pool b now (rq_Token req) p = ((x, e), p1)"
    by (metis prod.exhaust)
  note bound = ValidateToken_binds [OF ok v]
  show ?thesis
  proof (cases e)
    case (Some msg)
    then show ?thesis using False v a bound by (auto simp: authenticate_def)
  next
    case None
    obtain err' p2 where u: "UpsertServer pool x (rq_Hostname req) p1 = (err', p2)" by fastforce
    have "schema_ok (tabs p2)" using bound u exec_schema by (auto simp: UpsertServer_def)
    moreover have "tokens (tabs p2) = tokens (tabs p1)"
      using u upsert_ok exec_fail by (cases err') (auto simp: UpsertServer_def)
    ultimately show ?thesis using False v u None a bound by (auto simp: authenticate_def bound_ids_def)
  qed
qed

lemma CreateToken_binds:
  "bound_ids (tabs (snd (CreateToken sha pool raw now p))) = bound_ids (tabs p)"
proof (cases raw)
  case (Inr bytes)
  obtain err p' where e: "pg_exec pool insert_token_sql
      [PgText (hashToken sha (hex_encode bytes)), PgTime now] p = (err, p')" by fastforce
  have "bound_ids (tabs p') = bound_ids (tabs p)"
    using insert_ok e exec_fail by (cases err) (fastforce simp: bound_ids_def)+
  then show ?thesis using Inr e by (simp add: CreateToken_def Let_def)
qed (simp add: CreateToken_def)

end

section \<open>The invariant\<close>

text \<open>Everyone who was accepted, registered or not, has an identifier that a token is bound to.\<close>

definition cp_inv :: "('p \<Rightarrow> tables) \<Rightarrow> 'p control_plane \<Rightarrow> bool" where
  "cp_inv tabs c \<longleftrightarrow> schema_ok (tabs (cp_store c)) \<and>
     fst ` cp_accepted c \<subseteq> bound_ids (tabs (cp_store c)) \<and>
     (\<forall>k a. sessions (cp_server c) k = Some a \<longrightarrow> ss_serverID a \<in> bound_ids (tabs (cp_store c)))"

lemma cp_invD:
  assumes "cp_inv tabs c"
  shows "schema_ok (tabs (cp_store c))" and "(sid, host) \<in> cp_accepted c \<Longrightarrow> sid \<in> bound_ids (tabs (cp_store c))"
    and "sessions (cp_server c) k = Some a \<Longrightarrow> ss_serverID a \<in> bound_ids (tabs (cp_store c))"
  using assms by (force simp: cp_inv_def)+

text \<open>A server without sessions: calls have not looked for theirs, or were refused.\<close>

definition refuses_all :: "(string \<Rightarrow> string) \<Rightarrow> server \<Rightarrow> bool" where
  "refuses_all quote s \<longleftrightarrow> agents s = Map.empty \<and> (\<forall>i pc. calls s i = Some pc \<longrightarrow>
     (\<exists>sid p. pc = Start sid p) \<or> (\<exists>sid. pc = Returned None (Inl (not_connected quote sid))))"

lemma refuses_all_step:
  assumes "server_step quote s t" and "\<And>k. sessions s k = None" and "refuses_all quote s"
    and "dom (sessions t) \<subseteq> dom (sessions s)"
  shows "refuses_all quote t"
  using assms(1)
proof (cases rule: server_step.cases)
  case (register k serverID hostname)
  then show ?thesis using assms(2,4) by (auto simp: registerAgent_def)
qed (use assms(2,3) in \<open>auto simp: refuses_all_def\<close>)

context pg_tables
begin

lemma prologue_binds:
  assumes "schema_ok (tabs p)" and "connect_prologue sha (Some pool) b now send recv p = ((sent, res), p')"
  shows "schema_ok (tabs p') \<and> bound_ids (tabs p) \<subseteq> bound_ids (tabs p')"
    and "res = Inr (sid, host) \<Longrightarrow> sid \<in> bound_ids (tabs p')"
proof -
  have auth: "schema_ok (tabs (snd (authenticate sha (Some pool) b now req p))) \<and>
      bound_ids (tabs p) \<subseteq> bound_ids (tabs (snd (authenticate sha (Some pool) b now req p)))" for req
    using authenticate_binds [OF assms(1)] by (metis prod.collapse)
  show "schema_ok (tabs p') \<and> bound_ids (tabs p) \<subseteq> bound_ids (tabs p')"
    using assms(2) by (rule prologue_store) (use assms(1) auth in auto)
  assume "res = Inr (sid, host)"
  then show "sid \<in> bound_ids (tabs p')"
    using assms(2) authenticate_binds [OF assms(1)] by (auto elim!: prologue_accepted)
qed

lemma store_step:
  assumes "cp_step quote sha pool c c'" and ok: "schema_ok (tabs (cp_store c))"
  shows "schema_ok (tabs (cp_store c')) \<and> bound_ids (tabs (cp_store c)) \<subseteq> bound_ids (tabs (cp_store c'))"
  using assms(1)
proof (cases rule: cp_step.cases)
  case (accept b now send recv sent sid host p)
  then show ?thesis using prologue_binds(1) [OF ok accept(2)] by simp
next
  case (refuse b now send recv sent e p)
  then show ?thesis using prologue_binds(1) [OF ok refuse(2)] by simp
next
  case (token raw now)
  then show ?thesis using CreateToken_tables [OF ok] CreateToken_binds by simp
next
  case (restart ping)
  then show ?thesis using ok NewStore_tables by (simp add: started_def)
qed (use ok in simp_all)

lemma cp_inv_step:
  assumes step: "cp_step quote sha pool c c'" and inv: "cp_inv tabs c"
  shows "cp_inv tabs c'"
proof -
  note ok = cp_invD(1) [OF inv]
  note store = store_step [OF step ok]
  have "sid \<in> bound_ids (tabs (cp_store c'))" if "(sid, host) \<in> cp_accepted c'" for sid host
    using step
  proof (cases rule: cp_step.cases)
    case (accept b now send recv sent sid' host' p)
    then show ?thesis
      using that store cp_invD(2) [OF inv, of sid host] prologue_binds(2) [OF ok accept(2) refl] by auto
  qed (use that store cp_invD(2) [OF inv, of sid host] in \<open>auto simp: started_def\<close>)
  moreover have "ss_serverID a \<in> bound_ids (tabs (cp_store c'))" if k: "sessions (cp_server c') k = Some a" for k a
    using step
  proof (cases rule: cp_step.cases)
    case (register sid host k')
    then show ?thesis using k cp_invD(2) [OF inv register(2)] cp_invD(3) [OF inv, of k a]
      by (auto simp: registerAgent_def new_session_def split: if_splits)
  next
    case (server t)
    then obtain b where "sessions (cp_server c) k = Some b" "ss_serverID b = ss_serverID a"
      using server_step_ids [OF server(2,3), of k a] k by auto
    then show ?thesis using cp_invD(3) [OF inv, of k b] store by auto
  qed (use k store cp_invD(3) [OF inv, of k a] in \<open>auto simp: started_def NewServer_def\<close>)
  ultimately show ?thesis using store unfolding cp_inv_def by auto
qed

lemma cp_inv_reachable:
  assumes "(cp_step quote sha pool)\<^sup>*\<^sup>* (started p) c" and "schema_ok (tabs p)"
  shows "cp_inv tabs c"
  using assms(1)
proof (induction rule: rtranclp_induct)
  case base
  then show ?case using assms(2) by (simp add: cp_inv_def started_def NewServer_def)
next
  case (step c c')
  then show ?case by (blast intro: cp_inv_step)
qed

text \<open>With no servers in the database there is nobody to serve, and that never changes.\<close>

lemma prologue_no_servers:
  assumes "schema_ok (tabs p)" and "servers (tabs p) = []"
    and "connect_prologue sha (Some pool) b now send recv p = (out, p')"
  shows "tabs p' = tabs p"
  using assms(3)
proof (rule prologue_store)
  fix req assume "p' = snd (authenticate sha (Some pool) b now req p)"
  then show ?thesis using authenticate_no_servers [OF assms(1)] assms(2) by (simp add: server_ids_def)
qed simp

lemma no_servers_step:
  assumes "cp_step quote sha pool c c'" and "schema_ok (tabs (cp_store c))" and "servers (tabs (cp_store c)) = []"
  shows "servers (tabs (cp_store c')) = []"
  using assms(1)
proof (cases rule: cp_step.cases)
  case (accept b now send recv sent sid host p)
  then show ?thesis using prologue_no_servers [OF assms(2,3) accept(2)] assms(3) by simp
next
  case (refuse b now send recv sent e p)
  then show ?thesis using prologue_no_servers [OF assms(2,3) refuse(2)] assms(3) by simp
next
  case (token raw now)
  then show ?thesis using CreateToken_tables [OF assms(2)] assms(3) by simp
next
  case (restart ping)
  then show ?thesis using NewStore_tables assms(3) by (simp add: started_def)
qed (use assms(3) in simp_all)

lemma no_servers_reachable:
  assumes "(cp_step quote sha pool)\<^sup>*\<^sup>* (started p) c" and "schema_ok (tabs p)" and "servers (tabs p) = []"
  shows "cp_inv tabs c \<and> servers (tabs (cp_store c)) = []"
  using assms(1)
proof (induction rule: rtranclp_induct)
  case base
  then show ?case using assms cp_inv_reachable by (auto simp: started_def)
next
  case (step c c')
  then have c: "cp_inv tabs c" "servers (tabs (cp_store c)) = []" by simp_all
  then show ?case
    using cp_inv_step [OF step.hyps(2)] no_servers_step [OF step.hyps(2) cp_invD(1) [OF c(1)]] by simp
qed

lemma no_sessions:
  assumes "cp_inv tabs c" and "servers (tabs (cp_store c)) = []"
  shows "sessions (cp_server c) k = None" and "cp_accepted c = {}"
proof -
  have none: "bound_ids (tabs (cp_store c)) = {}"
    using bound_server_ids [OF cp_invD(1) [OF assms(1)]] assms(2) by (auto simp: server_ids_def)
  show "sessions (cp_server c) k = None"
    using cp_invD(3) [OF assms(1), of k] none by (cases "sessions (cp_server c) k") auto
  show "cp_accepted c = {}" using cp_invD(2) [OF assms(1)] none by auto
qed

lemma refuses_all_reachable:
  assumes "(cp_step quote sha pool)\<^sup>*\<^sup>* (started p) c" and "schema_ok (tabs p)" and "servers (tabs p) = []"
  shows "refuses_all quote (cp_server c)"
  using assms(1)
proof (induction rule: rtranclp_induct)
  case base
  then show ?case by (simp add: started_def NewServer_def refuses_all_def)
next
  case (step c c')
  have c: "cp_inv tabs c" "servers (tabs (cp_store c)) = []"
    using no_servers_reachable [OF step.hyps(1) assms(2,3)] by simp_all
  note none = no_sessions [OF c]
  from step.hyps(2) show ?case
  proof (cases rule: cp_step.cases)
    case (server t)
    then show ?thesis using refuses_all_step [OF server(2) none(1) step.IH server(3)] by simp
  next
    case (register sid host k)
    then show ?thesis using none(2) by simp
  qed (use step.IH in \<open>simp_all add: started_def NewServer_def refuses_all_def\<close>)
qed

lemma sessions_bound:
  assumes "schema_ok (tabs p)" and "(cp_step quote sha pool)\<^sup>*\<^sup>* (started p) c"
  shows "ss_serverID ` ran (sessions (cp_server c)) \<subseteq> bound_ids (tabs (cp_store c)) \<inter> server_ids (tabs (cp_store c))"
    and "Collect (cp_step quote sha pool c) \<subseteq> {c'. bound_ids (tabs (cp_store c)) \<subseteq> bound_ids (tabs (cp_store c'))}"
proof -
  have inv: "cp_inv tabs c" using assms(2,1) by (rule cp_inv_reachable)
  show "ss_serverID ` ran (sessions (cp_server c)) \<subseteq> bound_ids (tabs (cp_store c)) \<inter> server_ids (tabs (cp_store c))"
    using cp_invD(3) [OF inv] bound_server_ids [OF cp_invD(1) [OF inv]] by (auto simp: ran_def)
  show "Collect (cp_step quote sha pool c) \<subseteq> {c'. bound_ids (tabs (cp_store c)) \<subseteq> bound_ids (tabs (cp_store c'))}"
    using store_step [OF _ cp_invD(1) [OF inv]] by auto
qed

end

section \<open>Properties\<close>

text \<open>
  A session, from its registration to its end, belongs to a server that a provisioning
  token is bound to and that has a row in the table of servers, whatever agents, commands,
  tokens and restarts come in between; no step undoes a binding.
\<close>

theorem sessions_have_tokens:
  assumes "pg_tables pool tabs" and "schema_ok (tabs p)" and "(cp_step quote sha pool)\<^sup>*\<^sup>* (started p) c"
  shows "ss_serverID ` ran (sessions (cp_server c)) \<subseteq> bound_ids (tabs (cp_store c)) \<inter> server_ids (tabs (cp_store c)) \<and>
    Collect (cp_step quote sha pool c) \<subseteq> {c'. bound_ids (tabs (cp_store c)) \<subseteq> bound_ids (tabs (cp_store c'))}"
  using pg_tables.sessions_bound [OF assms] by blast

text \<open>The witness: the agent of a server that is in the table registers with its token.\<close>

definition web1_request :: RegisterRequest where
  "web1_request = \<lparr>rq_Token = ''tok'', rq_Hostname = ''web1'', rq_Os = [], rq_Arch = [], rq_Version = []\<rparr>"

definition web1_prologue :: "(ServerMessage list \<times> (goerr + string \<times> string)) \<times> reldb" where
  "web1_prologue = connect_prologue (\<lambda>s. s) (Some rel_pool) ''x'' 5 (\<lambda>_. None)
     (Inr (Some (AgentMessage_Register web1_request))) seeded_db"

definition web1_connected :: "reldb control_plane" where
  "web1_connected = \<lparr>cp_server = registerAgent 0 (new_session (generateID ''x'') ''web1'') NewServer,
     cp_accepted = {(generateID ''x'', ''web1'')}, cp_store = snd web1_prologue\<rparr>"

lemma web1_connects: "(cp_step id (\<lambda>s. s) rel_pool)\<^sup>*\<^sup>* (started seeded_db) web1_connected"
proof -
  let ?c = "\<lparr>cp_server = NewServer, cp_accepted = {(generateID ''x'', ''web1'')}, cp_store = snd web1_prologue\<rparr>"
  have "snd (fst web1_prologue) = Inr (generateID ''x'', ''web1'')"
    by (simp add: web1_prologue_def connect_prologue_def authenticate_def web1_request_def ValidateToken_def
        UpsertServer_def rel_pool_def rel_query_def rel_exec_def rel_bind_def find_token_def seeded_db_def
        server_ids_def Let_def split: prod.split)
  then have "web1_prologue = ((fst (fst web1_prologue), Inr (generateID ''x'', ''web1'')), snd web1_prologue)"
    by (simp add: prod_eq_iff)
  then have "cp_step id (\<lambda>s. s) rel_pool (started seeded_db) ?c"
    using cp_step.accept [of "\<lambda>s. s" rel_pool "''x''" 5 "\<lambda>_. None" "Inr (Some (AgentMessage_Register web1_request))"
        "started seeded_db"] by (simp add: web1_prologue_def started_def)
  moreover have "cp_step id (\<lambda>s. s) rel_pool ?c web1_connected"
    using cp_step.register [of "generateID ''x''" "''web1''" ?c 0 id "\<lambda>s. s" rel_pool]
    by (simp add: web1_connected_def NewServer_def)
  ultimately show ?thesis by auto
qed

theorem sessions_have_tokens_witness:
  "ss_serverID ` ran (sessions (cp_server web1_connected)) \<subseteq>
     bound_ids (db_tables (cp_store web1_connected)) \<inter> server_ids (db_tables (cp_store web1_connected)) \<and>
   Collect (cp_step id (\<lambda>s. s) rel_pool web1_connected) \<subseteq>
     {c'. bound_ids (db_tables (cp_store web1_connected)) \<subseteq> bound_ids (db_tables (cp_store c'))}"
  by (rule sessions_have_tokens [OF rel.pg_tables_axioms _ web1_connects])
    (simp add: schema_ok_def seeded_db_def server_ids_def)

text \<open>
  C5: a control plane with a store, started on the tables that it migrates itself, never
  serves anybody: however it is used and restarted, no agent is registered, and every command
  is refused with the error that its server is not connected.
\<close>

theorem fresh_deployment_serves_nobody:
  assumes "pg_tables pool tabs" and "tabs p = \<lparr>tokens = [], servers = []\<rparr>"
    and "(cp_step quote sha pool)\<^sup>*\<^sup>* (started p) c"
    and "calls (cp_server c) i = Some (Returned cid res)"
  shows "agents (cp_server c) = Map.empty \<and> cid = None \<and> res \<in> range (\<lambda>sid. Inl (not_connected quote sid))"
proof -
  have "schema_ok (tabs p)" using assms(2) by (simp add: schema_ok_def)
  then have "refuses_all quote (cp_server c)"
    using pg_tables.refuses_all_reachable [OF assms(1,3)] assms(2) by simp
  then have "agents (cp_server c) = Map.empty"
    and "\<exists>sid. Returned cid res = Returned None (Inl (not_connected quote sid))"
    using assms(4) unfolding refuses_all_def by blast+
  then show ?thesis by auto
qed

text \<open>The witness: a command on the relational pool.\<close>

definition refused_server :: server where
  "refused_server = set_call 0 (Returned None (Inl (not_connected id ''srv_1'')))
     (set_call 0 (Start ''srv_1'' None) NewServer)"

lemma refused_steps:
  "(cp_step id (\<lambda>s. s) rel_pool)\<^sup>*\<^sup>* (started fresh_db) (started fresh_db\<lparr>cp_server := refused_server\<rparr>)"
proof -
  let ?s = "set_call 0 (Start ''srv_1'' None) NewServer"
  have "server_step id NewServer ?s" by (rule server_step.call_begin) (simp add: NewServer_def)
  then have "cp_step id (\<lambda>s. s) rel_pool (started fresh_db) (started fresh_db\<lparr>cp_server := ?s\<rparr>)"
    by (intro cp_step.server) (simp_all add: started_def)
  moreover have "server_step id ?s refused_server"
    unfolding refused_server_def by (rule server_step.call_refused [where p = None]) (simp_all add: NewServer_def)
  then have "cp_step id (\<lambda>s. s) rel_pool (started fresh_db\<lparr>cp_server := ?s\<rparr>)
      (started fresh_db\<lparr>cp_server := refused_server\<rparr>)"
    using cp_step.server [of id "started fresh_db\<lparr>cp_server := ?s\<rparr>" refused_server "\<lambda>s. s" rel_pool]
    by (simp add: refused_server_def)
  ultimately show ?thesis by auto
qed

theorem fresh_deployment_serves_nobody_witness:
  "agents refused_server = Map.empty \<and> None = (None :: string option) \<and>
   (Inl (not_connected id ''srv_1'') :: goerr + CommandResult) \<in> range (\<lambda>sid. Inl (not_connected id sid))"
  using fresh_deployment_serves_nobody [OF rel.pg_tables_axioms _ refused_steps, of 0 None
      "Inl (not_connected id ''srv_1'')"]
  by (simp add: fresh_db_def refused_server_def)

end
