(* ===== verification/Metrics.thy ===== *)
theory Metrics
  imports Machine Float64
begin

text \<open>
  \<open>agent/internal/system/metrics.go\<close>: the CPU, memory, load and disk readers behind
  the heartbeat. Counters are 64-bit words that wrap; the percentage is computed in
  \<open>float64\<close>. A file under \<open>/proc\<close> is the byte string the host returns.
\<close>

section \<open>Reading lines\<close>

text \<open>
  \<open>bufio.Scanner\<close> with its default line splitter: a final line without newline
  counts, an empty rest does not, a trailing carriage return is dropped, and the scan ends
  at the first line that does not fit the 64 KiB buffer.
\<close>

definition drop_cr :: "string \<Rightarrow> string" where
  "drop_cr l = TrimSuffix l [CHR 0x0D]"

definition scan_lines :: "string \<Rightarrow> string list" where
  "scan_lines s =
     (let ls = split_on (CHR 0x0A) s;
          ls' = (if last ls = [] then butlast ls else ls)
      in map drop_cr (takeWhile (\<lambda>l. length l \<le> 65535) ls'))"

definition parse_u64 :: "string \<Rightarrow> u64" where
  "parse_u64 s = of_nat (fst (ParseUint s))"

section \<open>CPU\<close>

record CPUSample =
  total :: u64
  idle :: u64

text \<open>The loop over \<open>fields[1:]\<close>: index, running total, idle counter.\<close>

fun cpu_sum :: "nat \<Rightarrow> u64 \<Rightarrow> u64 \<Rightarrow> string list \<Rightarrow> CPUSample" where
  "cpu_sum i t d [] = \<lparr>total = t, idle = d\<rparr>"
| "cpu_sum i t d (f # fs) =
     (let v = parse_u64 f in cpu_sum (Suc i) (t + v) (if i = 3 then v else d) fs)"

fun sample_lines :: "string list \<Rightarrow> goerr + CPUSample" where
  "sample_lines [] = Inl ''cpu line not found in /proc/stat''"
| "sample_lines (line # rest) =
     (if \<not> HasPrefix line ''cpu '' then sample_lines rest
      else let fields = Fields line in
        if length fields < 5 then Inl ''unexpected /proc/stat format''
        else Inr (cpu_sum 0 0 0 (tl fields)))"

definition SampleCPU :: "'w host \<Rightarrow> ('w, goerr + CPUSample) io" where
  "SampleCPU h = do {
     f \<leftarrow> os_Open h ''/proc/stat'';
     case f of
       Inl e \<Rightarrow> State_Monad.return (Inl e)
     | Inr data \<Rightarrow> State_Monad.return (sample_lines (scan_lines data))
   }"

definition CPUPercent :: "CPUSample \<Rightarrow> CPUSample \<Rightarrow> rat" where
  "CPUPercent a b =
     (let totalDelta = total b - total a; idleDelta = idle b - idle a in
      if totalDelta = 0 then 0
      else float_mul (float_div (float_of_uint64 (totalDelta - idleDelta))
                        (float_of_uint64 totalDelta)) 100)"

section \<open>Memory\<close>

record MemInfo =
  mem_Total :: u64
  mem_Used :: u64

text \<open>One line of \<open>/proc/meminfo\<close>; values are kept in bytes.\<close>

definition meminfo_line :: "string \<Rightarrow> (string \<rightharpoonup> u64) \<Rightarrow> (string \<rightharpoonup> u64)" where
  "meminfo_line line values =
     (case Fields line of
        f0 # f1 # _ \<Rightarrow> values(TrimSuffix f0 '':'' \<mapsto> parse_u64 f1 * 1024)
      | _ \<Rightarrow> values)"

text \<open>Indexing a Go map: a missing key reads as zero.\<close>

definition map_get :: "(string \<rightharpoonup> u64) \<Rightarrow> string \<Rightarrow> u64" where
  "map_get m k = (case m k of None \<Rightarrow> 0 | Some v \<Rightarrow> v)"

definition meminfo_of :: "(string \<rightharpoonup> u64) \<Rightarrow> MemInfo" where
  "meminfo_of values =
     (let t = map_get values ''MemTotal'';
          free = map_get values ''MemFree'' + map_get values ''Buffers''
               + map_get values ''Cached'' + map_get values ''SReclaimable''
      in \<lparr>mem_Total = t, mem_Used = t - free\<rparr>)"

definition ReadMemInfo :: "'w host \<Rightarrow> ('w, goerr + MemInfo) io" where
  "ReadMemInfo h = do {
     f \<leftarrow> os_Open h ''/proc/meminfo'';
     case f of
       Inl e \<Rightarrow> State_Monad.return (Inl e)
     | Inr data \<Rightarrow> State_Monad.return
         (Inr (meminfo_of (fold meminfo_line (scan_lines data) Map.empty)))
   }"

section \<open>Load averages and disk\<close>

record LoadAvg =
  Load1 :: float64
  Load5 :: float64
  Load15 :: float64

text \<open>\<open>parse_float\<close> is the value \<open>strconv.ParseFloat\<close> returns, errors included.\<close>

definition ReadLoadAvg :: "(string \<Rightarrow> float64) \<Rightarrow> 'w host \<Rightarrow> ('w, goerr + LoadAvg) io" where
  "ReadLoadAvg parse_float h = do {
     r \<leftarrow> os_ReadFile h ''/proc/loadavg'';
     case r of
       (data, Some e) \<Rightarrow> State_Monad.return (Inl (fs_msg e))
     | (data, None) \<Rightarrow> State_Monad.return
         (let fields = Fields data in
          if length fields < 3 then Inl ''unexpected /proc/loadavg format''
          else Inr \<lparr>Load1 = parse_float (fields ! 0), Load5 = parse_float (fields ! 1),
                    Load15 = parse_float (fields ! 2)\<rparr>)
   }"

record DiskInfo =
  disk_Total :: u64
  disk_Used :: u64

definition ReadDiskInfo :: "'w host \<Rightarrow> string \<Rightarrow> ('w, goerr + DiskInfo) io" where
  "ReadDiskInfo h path = do {
     r \<leftarrow> syscall_Statfs h path;
     case r of
       Inl e \<Rightarrow> State_Monad.return (Inl e)
     | Inr st \<Rightarrow> State_Monad.return
         (let t = Blocks st * Bsize st; free = Bfree st * Bsize st in
          Inr \<lparr>disk_Total = t, disk_Used = t - free\<rparr>)
   }"

section \<open>Properties\<close>

lemma float_div_unit: "0 \<le> x \<Longrightarrow> x \<le> y \<Longrightarrow> 0 < y \<Longrightarrow> 0 \<le> float_div x y \<and> float_div x y \<le> 1"
  using round53_mono [of "x / y" 1] by (simp add: float_div_def)

lemma float_mul_100: "0 \<le> x \<Longrightarrow> x \<le> 1 \<Longrightarrow> 0 \<le> float_mul x 100 \<and> float_mul x 100 \<le> 100"
  using round53_mono [of "x * 100" 100] by (simp add: float_mul_def)



text \<open>
  The idle counter of the kernel may run backwards. The 64-bit difference then wraps,
  and the reported usage is at least 100 whatever the CPU did; it can exceed 100.
\<close>

theorem CPUPercent_idle_backwards:
  assumes "0 < k" and "idle b = idle a - of_nat k" and "total b - total a = t" and "t \<noteq> 0"
    and "unat t + k < 2 ^ 64"
  shows "100 \<le> CPUPercent a b"
proof -
  have d: "t - (idle b - idle a) = t + of_nat k" using assms(2) by simp
  have "unat (t + of_nat k) = unat t + k"
    using assms(5) by (simp add: unat_word_ariths unat_of_nat)
  then have "t \<le> t + of_nat k" by (simp add: word_le_nat_alt)
  then have "float_of_uint64 t \<le> float_of_uint64 (t + of_nat k)" by (rule float_of_uint64_mono)
  moreover have "0 < float_of_uint64 t" using assms(4) by (intro float_of_uint64_pos) (simp add: word_gt_0)
  ultimately have "1 \<le> float_of_uint64 (t + of_nat k) / float_of_uint64 t" by simp
  then have "1 \<le> float_div (float_of_uint64 (t + of_nat k)) (float_of_uint64 t)"
    using round53_mono [of 1] by (fastforce simp: float_div_def)
  then have "100 \<le> float_mul (float_div (float_of_uint64 (t + of_nat k)) (float_of_uint64 t)) 100"
    using round53_mono [of 100] by (fastforce simp: float_mul_def)
  then show ?thesis using assms(4) unfolding CPUPercent_def Let_def assms(3) d by simp
qed

theorem CPUPercent_idle_backwards_witness:
  "100 \<le> CPUPercent \<lparr>total = 100, idle = 40\<rparr> \<lparr>total = 110, idle = 30\<rparr> \<and>
   CPUPercent \<lparr>total = 100, idle = 40\<rparr> \<lparr>total = 110, idle = 30\<rparr> > 100"
proof
  show "100 \<le> CPUPercent \<lparr>total = 100, idle = 40\<rparr> \<lparr>total = 110, idle = 30\<rparr>"
    by (rule CPUPercent_idle_backwards [where k = 10 and t = 10]) simp_all
  have "round53 20 = 20" and "round53 10 = 10" and "round53 2 = 2" and "round53 200 = 200"
    by code_simp+
  then show "CPUPercent \<lparr>total = 100, idle = 40\<rparr> \<lparr>total = 110, idle = 30\<rparr> > 100"
    by (simp add: CPUPercent_def float_mul_def float_div_def float_of_uint64_def)
qed

text \<open>Words without white space, joined by single blanks, are what \<open>Fields\<close> returns.\<close>

definition word_char :: "char \<Rightarrow> bool" where
  "word_char c \<longleftrightarrow> 32 < (of_char c :: nat) \<and> (of_char c :: nat) < 128"

lemma space_runes_heads: "r \<in> set space_runes \<Longrightarrow> \<exists>b bs. r = b # bs \<and> \<not> word_char b"
proof -
  have "list_all (\<lambda>r. r \<noteq> [] \<and> \<not> word_char (hd r)) space_runes" by code_simp
  then show "r \<in> set space_runes \<Longrightarrow> ?thesis" by (cases r) (auto simp: list_all_iff)
qed

lemma space_at_start_word: "word_char c \<Longrightarrow> space_at_start (c # cs) = 0"
  by (fastforce simp: space_at_start_def HasPrefix_prefix find_None_iff
      split: option.split dest!: find_Some_set space_runes_heads)

lemma space_at_start_blank: "space_at_start (CHR 0x20 # cs) = Suc 0"
  by (simp add: space_at_start_def space_runes_def HasPrefix_def)

lemma fields_loop_word:
  "list_all word_char w \<Longrightarrow> fields_loop cur (w @ s) = fields_loop (rev w @ cur) s"
  by (induction w arbitrary: cur) (simp_all add: space_at_start_word)

lemma fields_loop_join:
  "\<forall>w\<in>set ws. w \<noteq> [] \<and> list_all word_char w \<Longrightarrow> fields_loop [] (join '' '' ws) = ws"
proof (induction ws)
  case Nil
  then show ?case by simp
next
  case (Cons w ws)
  have w: "list_all word_char w" "w \<noteq> []" using Cons.prems by simp_all
  show ?case
  proof (cases "ws = []")
    case True
    then show ?thesis using fields_loop_word [OF w(1), of "[]" "[]"] w by simp
  next
    case False
    then have "fields_loop [] (join '' '' (w # ws)) = fields_loop (rev w) (CHR '' '' # join '' '' ws)"
      using fields_loop_word [OF w(1), of "[]"] by (simp add: join_Cons)
    also have "\<dots> = w # fields_loop [] (join '' '' ws)"
      using w by (simp add: space_at_start_blank)
    also have "\<dots> = w # ws" using Cons by simp
    finally show ?thesis .
  qed
qed

lemma Fields_join:
  "\<forall>w\<in>set ws. w \<noteq> [] \<and> list_all word_char w \<Longrightarrow> Fields (join '' '' ws) = ws"
  by (simp add: Fields_def fields_loop_join)

lemma show_nat_word: "show_nat n \<noteq> [] \<and> list_all word_char (show_nat n)"
  using show_nat_digits [of n]
  by (auto simp: word_char_def is_digit_def elim!: list.pred_mono_strong)

lemma parse_u64_show: "n \<le> max_uint64 \<Longrightarrow> parse_u64 (show_nat n) = of_nat n"
  by (simp add: parse_u64_def ParseUint_show_nat)

lemma cpu_sum_fields:
  "\<forall>v\<in>set vs. v \<le> max_uint64 \<Longrightarrow>
   cpu_sum i t d (map show_nat vs) =
     \<lparr>total = t + of_nat (sum_list vs),
      idle = (if i \<le> 3 \<and> 3 - i < length vs then of_nat (vs ! (3 - i)) else d)\<rparr>"
proof (induction vs arbitrary: i t d)
  case Nil
  then show ?case by simp
next
  case (Cons v vs)
  then show ?case
    by (cases "i = 3"; cases "i < 3")
      (auto simp: Let_def parse_u64_show nth_Cons' Suc_diff_le split: if_splits)
qed

text \<open>
  A well-formed \<open>cpu\<close> line of \<open>/proc/stat\<close> (at least the four counters up to
  idle, each a 64-bit number in decimal) is read back: the sample's total is the 64-bit sum
  of all the counters and its idle time the fourth of them, whatever lines precede it.
\<close>

theorem sample_lines_cpu:
  assumes "\<forall>l\<in>set before. \<not> HasPrefix l ''cpu ''"
    and "4 \<le> length vs" and "\<forall>v\<in>set vs. v \<le> max_uint64"
  shows "sample_lines (before @ join '' '' (''cpu'' # map show_nat vs) # after) =
    Inr \<lparr>total = of_nat (sum_list vs), idle = of_nat (vs ! 3)\<rparr>"
  using assms(1)
proof (induction before)
  case Nil
  let ?ws = "''cpu'' # map show_nat vs"
  have vs: "vs \<noteq> []" using assms(2) by auto
  have "Fields (join '' '' ?ws) = ?ws"
    using show_nat_word by (intro Fields_join) (auto simp: word_char_def)
  moreover have "HasPrefix (join '' '' ?ws) ''cpu ''"
    using vs by (simp add: join_Cons HasPrefix_def)
  ultimately show ?case using assms(2,3) by (simp add: cpu_sum_fields)
next
  case (Cons l ls)
  then show ?case by simp
qed

theorem sample_lines_cpu_witness:
  "sample_lines ([] @ join '' '' (''cpu'' # map show_nat [10, 2, 3, 400, 5]) # [''intr 1'']) =
     Inr \<lparr>total = of_nat (sum_list [10, 2, 3, 400, 5]), idle = of_nat ([10, 2, 3, 400, 5] ! 3)\<rparr>"
  by (rule sample_lines_cpu) (simp_all add: max_uint64_def)

lemma word_sub_wraps: "t < f \<Longrightarrow> t < t - f" for t f :: u64
  using unsigned_less [of f, where ?'a = nat] by (simp add: word_less_nat_alt unat_sub_if')

text \<open>
  The memory in use is the total minus free, buffers, cache and reclaimable slab, as
  long as these do not exceed the total; when their 64-bit sum does exceed it, the
  subtraction wraps and the reported use is larger than the total.
\<close>

theorem meminfo_used:
  "let free = map_get m ''MemFree'' + map_get m ''Buffers'' + map_get m ''Cached''
     + map_get m ''SReclaimable''
   in mem_Total (meminfo_of m) = map_get m ''MemTotal'' \<and>
    (if free \<le> map_get m ''MemTotal''
     then unat (mem_Used (meminfo_of m)) = unat (map_get m ''MemTotal'') - unat free
     else mem_Total (meminfo_of m) < mem_Used (meminfo_of m))"
  by (auto simp: meminfo_of_def Let_def unat_sub intro: word_sub_wraps)

end
