(* ===== verification/Accounts.thy ===== *)
theory Accounts
  imports Machine
begin

text \<open>
  \<open>agent/internal/system/accounts.go\<close>: Linux accounts, created and removed by the
  shadow tools. User names are checked against a regular expression before any program
  runs, so no user name is read as an option.
\<close>

definition user_first :: "char \<Rightarrow> bool" where
  "user_first c \<longleftrightarrow> (97 \<le> (of_char c :: nat) \<and> (of_char c :: nat) \<le> 122) \<or> c = CHR ''_''"

definition user_rest :: "char \<Rightarrow> bool" where
  "user_rest c \<longleftrightarrow> user_first c \<or> is_digit c \<or> c = CHR ''-''"

text \<open>\<open>^[a-z_][a-z0-9_-]{0,31}$\<close>; in Go \<open>$\<close> is the end of the text only.\<close>

fun validUsername :: "string \<Rightarrow> bool" where
  "validUsername [] = False"
| "validUsername (c # cs) = (user_first c \<and> length cs \<le> 31 \<and> list_all user_rest cs)"

definition setQuota :: "'w host \<Rightarrow> string \<Rightarrow> u64 \<Rightarrow> ('w, goerr option) io" where
  "setQuota h username quotaBytes =
     (let softKB = quotaBytes div 1024;
          hardKB = softKB + softKB div 10
      in run_checked h ''setquota''
           [''-u'', username, show_nat (unat softKB), show_nat (unat hardKB), ''0'', ''0'', ''/''])"

definition useradd_args :: "string \<Rightarrow> u32 \<Rightarrow> string \<Rightarrow> string list" where
  "useradd_args username uid homedir =
     [''-m'', ''-s'', ''/bin/bash'']
     @ (if homedir \<noteq> [] then [''-d'', homedir] else [])
     @ (if uid > 0 then [''-u'', show_nat (unat uid)] else [])
     @ [username]"

definition CreateAccount :: "'w host \<Rightarrow> string \<Rightarrow> u32 \<Rightarrow> string \<Rightarrow> u64 \<Rightarrow> ('w, goerr option) io" where
  "CreateAccount h username uid homedir quotaBytes =
     (if \<not> validUsername username then
        State_Monad.return (Some (''invalid username '' @ go_quote (uni_quote h) username))
      else try_io (run_checked h ''useradd'' (useradd_args username uid homedir))
             (\<lambda>e. ''useradd: '' @ e)
             (if quotaBytes > 0
              then ignore_io (setQuota h username quotaBytes) (State_Monad.return None)
              else State_Monad.return None))"

definition DeleteAccount :: "'w host \<Rightarrow> string \<Rightarrow> bool \<Rightarrow> ('w, goerr option) io" where
  "DeleteAccount h username purgeFiles =
     (if \<not> validUsername username then
        State_Monad.return (Some (''invalid username '' @ go_quote (uni_quote h) username))
      else try_io (run_checked h ''userdel'' ((if purgeFiles then [''-r''] else []) @ [username]))
             (\<lambda>e. ''userdel: '' @ e)
             (State_Monad.return None))"

section \<open>Properties\<close>

lemma validUsername_shape:
  "validUsername u \<Longrightarrow> 0 < length u \<and> length u \<le> 32 \<and> hd u \<noteq> CHR ''-'' \<and> CHR ''/'' \<notin> set u"
  by (cases u) (auto simp: user_first_def user_rest_def is_digit_def list_all_iff)

text \<open>Which programs the module runs, and with which arguments.\<close>

definition account_call :: "call \<Rightarrow> bool" where
  "account_call c \<longleftrightarrow>
     (\<exists>prog args u. c = CExec prog args \<and> validUsername u \<and>
        (prog = ''useradd'' \<and> last args = u \<or>
         prog = ''userdel'' \<and> (args = [u] \<or> args = [''-r'', u]) \<or>
         prog = ''setquota'' \<and> length args = 7 \<and> args ! 0 = ''-u'' \<and> args ! 1 = u))"

lemma emits_CreateAccount: "emits account_call (CreateAccount h u uid dir q)"
  unfolding CreateAccount_def setQuota_def Let_def
  by (intro emits_intros) (auto simp: account_call_def useradd_args_def)

lemma emits_DeleteAccount: "emits account_call (DeleteAccount h u purge)"
  unfolding DeleteAccount_def
  by (intro emits_intros) (auto simp: account_call_def)

text \<open>
  Creating an account with a valid name runs \<open>useradd\<close> once with the name as its
  last argument, and \<open>setquota\<close> afterwards exactly when \<open>useradd\<close> succeeded and a
  quota was asked for; the result is nil exactly when \<open>useradd\<close> succeeded, whatever
  \<open>setquota\<close> answers. With an invalid name nothing runs and the result is an error.
\<close>

theorem CreateAccount_behaviour:
  "let r = run_state (CreateAccount h u uid dir q) m;
       add = fst (h_exec h ''useradd'' (useradd_args u uid dir) (world m))
   in if validUsername u
    then (fst r = None \<longleftrightarrow> snd add = None) \<and>
      trace (snd r) = trace m @ CExec ''useradd'' (useradd_args u uid dir) #
        (if snd add = None \<and> 0 < q
         then [CExec ''setquota'' [''-u'', u, show_nat (unat (q div 1024)),
                 show_nat (unat (q div 1024 + q div 1024 div 10)), ''0'', ''0'', ''/'']]
         else [])
    else fst r \<noteq> None \<and> snd r = m"
  by (auto simp: CreateAccount_def setQuota_def run_checked_def host_ops Let_def
      split: prod.splits option.splits)

text \<open>
  The quota arithmetic never wraps: the soft limit is the number of whole kibibytes in
  the quota, and the hard limit exceeds it by a tenth, rounded down.
\<close>

theorem setQuota_limits:
  fixes q :: u64
  shows "trace (snd (run_state (setQuota h u q) m)) = trace m @
    [CExec ''setquota'' [''-u'', u, show_nat (unat q div 1024),
       show_nat (unat q div 1024 + unat q div 1024 div 10), ''0'', ''0'', ''/'']]"
proof -
  have soft: "unat (q div 1024) = unat q div 1024" by (simp add: unat_div)
  have "unat q < 18446744073709551616" using unsigned_less [of q, where ?'a = nat] by simp
  then have "unat q div 1024 + unat q div 1024 div 10 < 18446744073709551616" by linarith
  then have hard: "unat (q div 1024 + q div 1024 div 10) = unat q div 1024 + unat q div 1024 div 10"
    by (simp add: unat_word_ariths unat_div)
  show ?thesis
    by (simp add: setQuota_def run_checked_def host_ops Let_def soft hard split: prod.splits option.splits)
qed

text \<open>
  A quota of less than one kibibyte is passed on as the limits 0 and 0, which
  \<open>setquota\<close> reads as "no limit", although the caller asked for a limit.
\<close>

theorem setQuota_tiny_is_unlimited:
  assumes "validUsername u" and "0 < q" and "q < 1024"
    and "snd (fst (h_exec h ''useradd'' (useradd_args u uid dir) (world m))) = None"
  shows "trace (snd (run_state (CreateAccount h u uid dir q) m)) = trace m @
    [CExec ''useradd'' (useradd_args u uid dir),
     CExec ''setquota'' [''-u'', u, ''0'', ''0'', ''0'', ''0'', ''/'']]"
proof -
  have "unat q < 1024" using assms(3) by (simp add: word_less_nat_alt)
  then have "unat (q div 1024) = 0" by (simp add: unat_div)
  then have "q div 1024 = 0" by (simp add: unat_eq_zero)
  moreover have "show_nat 0 = ''0''" by code_simp
  ultimately show ?thesis
    using assms by (auto simp: CreateAccount_def setQuota_def run_checked_def host_ops Let_def
        split: prod.splits option.splits)
qed

theorem setQuota_tiny_is_unlimited_witness:
  "trace (snd (run_state (CreateAccount quiet_host ''bob'' 0 [] 1000) \<lparr>world = (), trace = []\<rparr>)) =
    [CExec ''useradd'' (useradd_args ''bob'' 0 []),
     CExec ''setquota'' [''-u'', ''bob'', ''0'', ''0'', ''0'', ''0'', ''/'']]"
proof -
  have "validUsername ''bob''" by code_simp
  then show ?thesis
    by (subst setQuota_tiny_is_unlimited) (simp_all add: quiet_host_def)
qed

end
