(* ===== verification/Mariadb.thy ===== *)
theory Mariadb
  imports Machine
begin

text \<open>
  \<open>agent/internal/database/mariadb.go\<close>: databases and their users. Names reach SQL
  either as bound arguments or, where SQL takes no argument, between backquotes after a
  check against \<open>validIdent\<close>. Statements are sent one by one; the first that fails
  ends the operation.
\<close>

abbreviation backquote :: char where
  "backquote \<equiv> CHR 0x60"

abbreviation quote1 :: string where
  "quote1 \<equiv> [CHR 0x27]"

definition ident_char :: "char \<Rightarrow> bool" where
  "ident_char c \<longleftrightarrow> (97 \<le> (of_char c :: nat) \<and> (of_char c :: nat) \<le> 122) \<or>
     (65 \<le> (of_char c :: nat) \<and> (of_char c :: nat) \<le> 90) \<or> is_digit c \<or> c = CHR ''_''"

text \<open>\<open>^[a-zA-Z0-9_]{1,64}$\<close>\<close>

definition validIdent :: "string \<Rightarrow> bool" where
  "validIdent s \<longleftrightarrow> 1 \<le> length s \<and> length s \<le> 64 \<and> list_all ident_char s"

definition create_database_sql :: "string \<Rightarrow> string" where
  "create_database_sql d = ''CREATE DATABASE IF NOT EXISTS '' @ [backquote] @ d @ [backquote]"

definition create_user_sql :: string where
  "create_user_sql = ''CREATE USER IF NOT EXISTS ?@'' @ quote1 @ ''localhost'' @ quote1
     @ '' IDENTIFIED BY ?''"

definition grant_sql :: "string \<Rightarrow> string" where
  "grant_sql d = ''GRANT ALL ON '' @ [backquote] @ d @ [backquote] @ ''.* TO ?@'' @ quote1
     @ ''localhost'' @ quote1"

definition drop_database_sql :: "string \<Rightarrow> string" where
  "drop_database_sql d = ''DROP DATABASE IF EXISTS '' @ [backquote] @ d @ [backquote]"

definition drop_user_sql :: string where
  "drop_user_sql = ''DROP USER IF EXISTS ?@'' @ quote1 @ ''localhost'' @ quote1"

definition CreateDatabase :: "'w host \<Rightarrow> string \<Rightarrow> string \<Rightarrow> string \<Rightarrow> ('w, goerr option) io" where
  "CreateDatabase h dbName user password =
     (if \<not> validIdent dbName then
        State_Monad.return (Some (''invalid database name '' @ go_quote (uni_quote h) dbName))
      else if \<not> validIdent user then
        State_Monad.return (Some (''invalid username '' @ go_quote (uni_quote h) user))
      else
        try_io (db_Exec h (create_database_sql dbName) [])
          (\<lambda>e. ''exec '' @ go_quote (uni_quote h) (create_database_sql dbName) @ '': '' @ e)
        (try_io (db_Exec h create_user_sql [SqlStr user, SqlStr password])
          (\<lambda>e. ''create user '' @ go_quote (uni_quote h) user @ '': '' @ e)
        (try_io (db_Exec h (grant_sql dbName) [SqlStr user])
          (\<lambda>e. ''grant privileges: '' @ e)
        (try_io (db_Exec h ''FLUSH PRIVILEGES'' [])
          (\<lambda>e. ''flush privileges: '' @ e)
        (State_Monad.return None)))))"

definition DeleteDatabase :: "'w host \<Rightarrow> string \<Rightarrow> string \<Rightarrow> ('w, goerr option) io" where
  "DeleteDatabase h dbName user =
     (if \<not> validIdent dbName then
        State_Monad.return (Some (''invalid database name '' @ go_quote (uni_quote h) dbName))
      else if \<not> validIdent user then
        State_Monad.return (Some (''invalid username '' @ go_quote (uni_quote h) user))
      else
        try_io (db_Exec h (drop_database_sql dbName) []) (\<lambda>e. ''drop database: '' @ e)
        (try_io (db_Exec h drop_user_sql [SqlStr user]) (\<lambda>e. ''drop user: '' @ e)
        (try_io (db_Exec h ''FLUSH PRIVILEGES'' []) (\<lambda>e. ''flush privileges: '' @ e)
        (State_Monad.return None))))"

text \<open>The data source name of \<open>NewManager\<close>: opened, then pinged.\<close>

definition mariadb_dsn :: "string \<Rightarrow> string" where
  "mariadb_dsn socketPath = ''root@unix('' @ socketPath @ '')/''"

text \<open>
  \<open>NewManager\<close>: the driver's \<open>Open\<close> and \<open>Ping\<close> are parameters; the manager
  holds the opened handle.
\<close>

definition NewDbManager :: "(string \<Rightarrow> goerr + 'db) \<Rightarrow> ('db \<Rightarrow> goerr option) \<Rightarrow> string
    \<Rightarrow> goerr + 'db" where
  "NewDbManager sql_open ping socketPath =
     (case sql_open (mariadb_dsn socketPath) of
        Inl e \<Rightarrow> Inl e
      | Inr db \<Rightarrow>
          (case ping db of
             Some e \<Rightarrow> Inl (''connect to MariaDB at '' @ socketPath @ '': '' @ e)
           | None \<Rightarrow> Inr db))"

section \<open>Properties\<close>

text \<open>The statements the module can send.\<close>

definition mariadb_call :: "call \<Rightarrow> bool" where
  "mariadb_call c \<longleftrightarrow>
     (\<exists>d u. validIdent d \<and> validIdent u \<and>
        (c = CSqlExec (create_database_sql d) [] \<or>
         (\<exists>p. c = CSqlExec create_user_sql [SqlStr u, SqlStr p]) \<or>
         c = CSqlExec (grant_sql d) [SqlStr u] \<or>
         c = CSqlExec (drop_database_sql d) [] \<or>
         c = CSqlExec drop_user_sql [SqlStr u] \<or>
         c = CSqlExec ''FLUSH PRIVILEGES'' []))"

lemma emits_CreateDatabase: "emits mariadb_call (CreateDatabase h d u p)"
  unfolding CreateDatabase_def host_ops
  by (intro emits_intros) (auto simp: mariadb_call_def)

lemma emits_DeleteDatabase: "emits mariadb_call (DeleteDatabase h d u)"
  unfolding DeleteDatabase_def host_ops
  by (intro emits_intros) (auto simp: mariadb_call_def)

lemma validIdent_no_backquote: "validIdent d \<Longrightarrow> backquote \<notin> set d"
  by (auto simp: validIdent_def list_all_iff ident_char_def is_digit_def)

text \<open>
  A valid database name stays inside its quotes: read back by splitting at the
  backquotes, each statement that embeds it consists of its fixed head, the name and its
  fixed tail, so the name cannot end the identifier and add SQL of its own.
\<close>

theorem identifiers_stay_quoted:
  assumes "validIdent d"
  shows "split_on backquote (create_database_sql d) = [''CREATE DATABASE IF NOT EXISTS '', d, []] \<and>
    split_on backquote (drop_database_sql d) = [''DROP DATABASE IF EXISTS '', d, []] \<and>
    split_on backquote (grant_sql d) =
      [''GRANT ALL ON '', d, ''.* TO ?@'' @ quote1 @ ''localhost'' @ quote1]"
  using validIdent_no_backquote [OF assms]
  by (simp add: create_database_sql_def drop_database_sql_def grant_sql_def split_on_append
      split_on_fresh)

theorem identifiers_stay_quoted_witness:
  "split_on backquote (create_database_sql ''shop_1'') = [''CREATE DATABASE IF NOT EXISTS '', ''shop_1'', []] \<and>
    split_on backquote (drop_database_sql ''shop_1'') = [''DROP DATABASE IF EXISTS '', ''shop_1'', []] \<and>
    split_on backquote (grant_sql ''shop_1'') =
      [''GRANT ALL ON '', ''shop_1'', ''.* TO ?@'' @ quote1 @ ''localhost'' @ quote1]"
  by (rule identifiers_stay_quoted) code_simp

text \<open>The four statements of a creation, in order.\<close>

definition create_plan :: "string \<Rightarrow> string \<Rightarrow> string \<Rightarrow> call list" where
  "create_plan d u p =
     [CSqlExec (create_database_sql d) [], CSqlExec create_user_sql [SqlStr u, SqlStr p],
      CSqlExec (grant_sql d) [SqlStr u], CSqlExec ''FLUSH PRIVILEGES'' []]"

definition delete_plan :: "string \<Rightarrow> string \<Rightarrow> call list" where
  "delete_plan d u =
     [CSqlExec (drop_database_sql d) [], CSqlExec drop_user_sql [SqlStr u],
      CSqlExec ''FLUSH PRIVILEGES'' []]"

definition runs_plan :: "call list \<Rightarrow> ('w, goerr option) io \<Rightarrow> 'w machine \<Rightarrow> bool" where
  "runs_plan plan f m \<longleftrightarrow>
     (\<exists>n \<le> length plan. trace (snd (run_state f m)) = trace m @ take n plan \<and>
        (fst (run_state f m) = None \<longrightarrow> n = length plan) \<and>
        (fst (run_state f m) \<noteq> None \<longrightarrow> 0 < n))"

lemma runs_plan_try_all: "map fst steps = plan \<Longrightarrow> runs_plan plan (try_all steps) m"
  using try_all_trace [of steps m] by (auto simp: runs_plan_def take_map)

text \<open>
  With valid names, the statements sent are a prefix of create database, create user,
  grant, flush (drop database, drop user, flush) in that order: all of them when the result
  is nil, at least the first when it is not, and none after one that failed. With an
  invalid name nothing is sent and the result is an error.
\<close>

theorem database_statement_order:
  "if validIdent d \<and> validIdent u
   then runs_plan (create_plan d u p) (CreateDatabase h d u p) m \<and>
        runs_plan (delete_plan d u) (DeleteDatabase h d u) m
   else fst (run_state (CreateDatabase h d u p) m) \<noteq> None \<and>
        snd (run_state (CreateDatabase h d u p) m) = m \<and>
        fst (run_state (DeleteDatabase h d u) m) \<noteq> None \<and>
        snd (run_state (DeleteDatabase h d u) m) = m"
proof (cases "validIdent d \<and> validIdent u")
  case True
  let ?w = "h_sql_exec h"
  let ?create = "[(CSqlExec (create_database_sql d) [], ?w (create_database_sql d) [],
       \<lambda>e. ''exec '' @ go_quote (uni_quote h) (create_database_sql d) @ '': '' @ e),
     (CSqlExec create_user_sql [SqlStr u, SqlStr p], ?w create_user_sql [SqlStr u, SqlStr p],
       \<lambda>e. ''create user '' @ go_quote (uni_quote h) u @ '': '' @ e),
     (CSqlExec (grant_sql d) [SqlStr u], ?w (grant_sql d) [SqlStr u], \<lambda>e. ''grant privileges: '' @ e),
     (CSqlExec ''FLUSH PRIVILEGES'' [], ?w ''FLUSH PRIVILEGES'' [], \<lambda>e. ''flush privileges: '' @ e)]"
  let ?delete = "[(CSqlExec (drop_database_sql d) [], ?w (drop_database_sql d) [], \<lambda>e. ''drop database: '' @ e),
     (CSqlExec drop_user_sql [SqlStr u], ?w drop_user_sql [SqlStr u], \<lambda>e. ''drop user: '' @ e),
     (CSqlExec ''FLUSH PRIVILEGES'' [], ?w ''FLUSH PRIVILEGES'' [], \<lambda>e. ''flush privileges: '' @ e)]"
  have "CreateDatabase h d u p = try_all ?create" "DeleteDatabase h d u = try_all ?delete"
    using True
    by (simp_all only: CreateDatabase_def DeleteDatabase_def db_Exec_def try_all.simps
        simp_thms if_False)
  moreover have "runs_plan (create_plan d u p) (try_all ?create) m"
    "runs_plan (delete_plan d u) (try_all ?delete) m"
    by (rule runs_plan_try_all, simp add: create_plan_def delete_plan_def)+
  ultimately show ?thesis using True by (simp only: simp_thms if_True)
next
  case False
  then show ?thesis by (auto simp: CreateDatabase_def DeleteDatabase_def)
qed

end
