(* ===== verification/Powerdns.thy ===== *)
theory Powerdns
  imports Machine
begin

text \<open>
  \<open>agent/internal/dns/powerdns.go\<close>: a client of the PowerDNS HTTP API. Requests are
  built as JSON values (the marshalling of strings and numbers to text cannot fail), sent
  through the host, and every status from 300 on is an error.
\<close>

record Client =
  baseURL :: string
  apiKey :: string

record ZoneRecord =
  zr_Name :: string
  zr_Type :: string
  zr_Content :: string
  zr_TTL :: u32
  zr_Priority :: u32

record dns_record =
  Content :: string
  Disabled :: bool

record rrset =
  rr_Name :: string
  rr_Type :: string
  rr_TTL :: u32
  rr_ChangeType :: string
  rr_Records :: "dns_record list"

definition NewClient :: "string \<Rightarrow> string \<Rightarrow> Client" where
  "NewClient url key = \<lparr>baseURL = TrimRightChar (CHR ''/'') url, apiKey = key\<rparr>"

definition fqdn :: "string \<Rightarrow> string" where
  "fqdn name = (if \<not> HasSuffix name ''.'' then name @ ''.'' else name)"

definition expandName :: "string \<Rightarrow> string \<Rightarrow> string" where
  "expandName name zoneFQDN =
     (if name = ''@'' \<or> name = [] then zoneFQDN
      else if HasSuffix name ''.'' then name
      else name @ ''.'' @ zoneFQDN)"

section \<open>JSON bodies\<close>

text \<open>The \<open>json\<close> struct tags: \<open>omitempty\<close> drops zero numbers and empty lists.\<close>

definition json_of_record :: "dns_record \<Rightarrow> json" where
  "json_of_record r = JObj [(''content'', JStr (Content r)), (''disabled'', JBool (Disabled r))]"

definition json_of_rrset :: "rrset \<Rightarrow> json" where
  "json_of_rrset s = JObj
     ([(''name'', JStr (rr_Name s)), (''type'', JStr (rr_Type s))]
      @ (if rr_TTL s \<noteq> 0 then [(''ttl'', JNum (int (unat (rr_TTL s))))] else [])
      @ [(''changetype'', JStr (rr_ChangeType s))]
      @ (if rr_Records s \<noteq> [] then [(''records'', JArr (map json_of_record (rr_Records s)))] else []))"

definition json_of_patch :: "rrset list \<Rightarrow> json" where
  "json_of_patch sets = JObj [(''rrsets'', JArr (map json_of_rrset sets))]"

text \<open>The zone \<open>CreateZone\<close> posts: its name servers are nil, hence omitted.\<close>

definition json_of_zone :: "string \<Rightarrow> json" where
  "json_of_zone name = JObj [(''name'', JStr name), (''kind'', JStr ''Native'')]"

section \<open>Requests\<close>

definition dns_do :: "'w host \<Rightarrow> Client \<Rightarrow> string \<Rightarrow> string \<Rightarrow> json option \<Rightarrow> ('w, goerr option) io" where
  "dns_do h c meth path body =
     (let url = baseURL c @ ''/api/v1'' @ path in
      case url_error h meth url of
        Some e \<Rightarrow> State_Monad.return (Some e)
      | None \<Rightarrow> do {
          resp \<leftarrow> http_Do h meth url
            ((''X-API-Key'', apiKey c) #
              (if body \<noteq> None then [(''Content-Type'', ''application/json'')] else [])) body;
          case resp of
            Inl e \<Rightarrow> State_Monad.return (Some e)
          | Inr (status, b) \<Rightarrow>
              if status \<ge> 300
              then State_Monad.return (Some (''HTTP '' @ show_nat status @ '': '' @ b))
              else State_Monad.return None
        })"

definition zone_path :: "string \<Rightarrow> string" where
  "zone_path zoneName = ''/servers/localhost/zones/'' @ zoneName"

text \<open>The body of the loop in \<open>upsertRecords\<close>.\<close>

definition upsert_rrset :: "(string \<Rightarrow> string) \<Rightarrow> string \<Rightarrow> ZoneRecord \<Rightarrow> rrset" where
  "upsert_rrset uni zoneFQDN r =
     (let content = (if zr_Priority r > 0
                     then show_nat (unat (zr_Priority r)) @ '' '' @ zr_Content r
                     else zr_Content r);
          ttl = (if zr_TTL r = 0 then 300 else zr_TTL r)
      in \<lparr>rr_Name = fqdn (expandName (zr_Name r) zoneFQDN), rr_Type = ToUpper uni (zr_Type r),
          rr_TTL = ttl, rr_ChangeType = ''REPLACE'',
          rr_Records = [\<lparr>Content = content, Disabled = False\<rparr>]\<rparr>)"

definition upsertRecords :: "'w host \<Rightarrow> Client \<Rightarrow> string \<Rightarrow> ZoneRecord list \<Rightarrow> ('w, goerr option) io" where
  "upsertRecords h c zoneFQDN records =
     dns_do h c ''PATCH'' (zone_path zoneFQDN)
       (Some (json_of_patch (map (upsert_rrset (uni_upper h) zoneFQDN) records)))"

definition CreateZone :: "'w host \<Rightarrow> Client \<Rightarrow> string \<Rightarrow> ZoneRecord list \<Rightarrow> ('w, goerr option) io" where
  "CreateZone h c zoneName0 records =
     (let zoneName = fqdn zoneName0 in
      try_io (dns_do h c ''POST'' ''/servers/localhost/zones'' (Some (json_of_zone zoneName)))
        (\<lambda>e. ''create zone '' @ zoneName @ '': '' @ e)
        (if length records > 0 then upsertRecords h c zoneName records
         else State_Monad.return None))"

definition DeleteZone :: "'w host \<Rightarrow> Client \<Rightarrow> string \<Rightarrow> ('w, goerr option) io" where
  "DeleteZone h c zoneName0 =
     (let zoneName = fqdn zoneName0 in
      try_io (dns_do h c ''DELETE'' (zone_path zoneName) None)
        (\<lambda>e. ''delete zone '' @ zoneName @ '': '' @ e)
        (State_Monad.return None))"

definition UpsertRecord :: "'w host \<Rightarrow> Client \<Rightarrow> string \<Rightarrow> ZoneRecord \<Rightarrow> ('w, goerr option) io" where
  "UpsertRecord h c zoneName r = upsertRecords h c (fqdn zoneName) [r]"

definition delete_rrset :: "(string \<Rightarrow> string) \<Rightarrow> string \<Rightarrow> string \<Rightarrow> string \<Rightarrow> rrset" where
  "delete_rrset uni zoneFQDN name rrType =
     \<lparr>rr_Name = fqdn (expandName name zoneFQDN), rr_Type = ToUpper uni rrType,
      rr_TTL = 0, rr_ChangeType = ''DELETE'', rr_Records = []\<rparr>"

definition DeleteRecord :: "'w host \<Rightarrow> Client \<Rightarrow> string \<Rightarrow> string \<Rightarrow> string \<Rightarrow> ('w, goerr option) io" where
  "DeleteRecord h c zoneName0 name rrType =
     (let zoneName = fqdn zoneName0 in
      dns_do h c ''PATCH'' (zone_path zoneName)
        (Some (json_of_patch [delete_rrset (uni_upper h) zoneName name rrType])))"

section \<open>Properties\<close>

text \<open>Every request goes to the configured server and carries its key.\<close>

definition dns_call :: "Client \<Rightarrow> call \<Rightarrow> bool" where
  "dns_call cl c \<longleftrightarrow>
     (\<exists>meth path hdrs body. c = CHttp meth (baseURL cl @ ''/api/v1'' @ path) hdrs body \<and>
        HasPrefix path ''/servers/localhost/zones'' \<and>
        hd hdrs = (''X-API-Key'', apiKey cl))"

lemma emits_dns_do:
  "HasPrefix path ''/servers/localhost/zones'' \<Longrightarrow> emits (dns_call c) (dns_do h c meth path body)"
  unfolding dns_do_def Let_def host_ops
  by (intro emits_intros) (auto simp: dns_call_def)

lemma zone_path_prefix [simp]: "HasPrefix (zone_path z) ''/servers/localhost/zones''"
  by (simp add: zone_path_def HasPrefix_def)

lemma emits_CreateZone: "emits (dns_call c) (CreateZone h c z rs)"
  unfolding CreateZone_def upsertRecords_def Let_def
  by (intro emits_intros emits_dns_do) simp_all

lemma emits_DeleteZone: "emits (dns_call c) (DeleteZone h c z)"
  unfolding DeleteZone_def Let_def by (intro emits_intros emits_dns_do) simp

lemma emits_UpsertRecord: "emits (dns_call c) (UpsertRecord h c z r)"
  unfolding UpsertRecord_def upsertRecords_def by (intro emits_dns_do) simp

lemma emits_DeleteRecord: "emits (dns_call c) (DeleteRecord h c z n t)"
  unfolding DeleteRecord_def Let_def by (intro emits_dns_do) simp

lemma fqdn_dot [simp]: "HasSuffix (fqdn n) ''.''"
  by (simp add: fqdn_def)

lemma fqdn_idem [simp]: "fqdn (fqdn n) = fqdn n"
  by (simp add: fqdn_def)

lemma fqdn_id: "HasSuffix n ''.'' \<Longrightarrow> fqdn n = n"
  by (simp add: fqdn_def)

lemma HasSuffix_append2: "p \<noteq> [] \<Longrightarrow> HasSuffix b p \<Longrightarrow> HasSuffix (a @ b) p"
  by (auto simp: HasSuffix_suffix suffix_appendI)

lemma expandName_dot: "HasSuffix z ''.'' \<Longrightarrow> HasSuffix (expandName n z) ''.''"
  using HasSuffix_append2 [of "''.''" z "n @ ''.''"] by (simp add: expandName_def)

text \<open>
  The name of every record set sent to PowerDNS is absolute, and it is the zone itself for
  the apex, the given name when that is absolute, and the given name below the zone otherwise.
\<close>

lemma record_names_absolute:
  "HasSuffix (rr_Name (upsert_rrset uni (fqdn z) r)) ''.'' \<and>
   rr_Name (upsert_rrset uni (fqdn z) r) =
     (if zr_Name r \<in> {''@'', []} then fqdn z
      else if HasSuffix (zr_Name r) ''.'' then zr_Name r
      else zr_Name r @ ''.'' @ fqdn z)"
  using expandName_dot [OF fqdn_dot, of "zr_Name r" z]
  by (auto simp: upsert_rrset_def Let_def fqdn_id expandName_def)

text \<open>
  An upsert sends one record set per record, in order, each replacing what is stored.
  Its name is absolute: the zone for the apex, the given name when that is absolute, and
  the given name below the zone otherwise. The TTL is never zero, so the JSON encoding never
  omits it, and there is exactly one enabled record, whose content starts with the priority
  exactly when the priority is not zero.
\<close>

theorem upsert_body:
  "json_of_patch (map (upsert_rrset uni (fqdn z)) rs) =
     JObj [(''rrsets'', JArr (map (\<lambda>r. JObj
       [(''name'', JStr (if zr_Name r \<in> {''@'', []} then fqdn z
           else if HasSuffix (zr_Name r) ''.'' then zr_Name r
           else zr_Name r @ ''.'' @ fqdn z)),
        (''type'', JStr (ToUpper uni (zr_Type r))),
        (''ttl'', JNum (if zr_TTL r = 0 then 300 else uint (zr_TTL r))),
        (''changetype'', JStr ''REPLACE''),
        (''records'', JArr [JObj
          [(''content'', JStr (if zr_Priority r = 0 then zr_Content r
              else show_nat (unat (zr_Priority r)) @ '' '' @ zr_Content r)),
           (''disabled'', JBool False)]])]) rs))]"
  using record_names_absolute [of uni z]
  by (auto simp: json_of_patch_def upsert_rrset_def json_of_rrset_def json_of_record_def Let_def
      word_gt_0 fqdn_id)

text \<open>
  Deleting a record names the record set an upsert of the same name and type wrote: the
  two patches go to the same path, and agree on the name and the type of the record set.
\<close>

theorem delete_targets_upsert:
  assumes "zr_Name r = n" and "zr_Type r = t"
    and "\<forall>meth url. url_error h meth url = None"
  shows "\<exists>url hdrs up del.
    trace (snd (run_state (UpsertRecord h c z r) m)) =
      trace m @ [CHttp ''PATCH'' url hdrs (Some (json_of_patch [up]))] \<and>
    trace (snd (run_state (DeleteRecord h c z n t) m)) =
      trace m @ [CHttp ''PATCH'' url hdrs (Some (json_of_patch [del]))] \<and>
    rr_Name up = rr_Name del \<and> rr_Type up = rr_Type del \<and>
    rr_ChangeType up = ''REPLACE'' \<and> rr_ChangeType del = ''DELETE''"
  using assms
  by (intro exI [of _ "baseURL c @ ''/api/v1'' @ zone_path (fqdn z)"]
      exI [of _ "[(''X-API-Key'', apiKey c), (''Content-Type'', ''application/json'')]"]
      exI [of _ "upsert_rrset (uni_upper h) (fqdn z) r"]
      exI [of _ "delete_rrset (uni_upper h) (fqdn z) n t"])
    (simp add: UpsertRecord_def DeleteRecord_def upsertRecords_def dns_do_def host_ops Let_def
      upsert_rrset_def delete_rrset_def split: sum.splits prod.splits)

theorem delete_targets_upsert_witness:
  "\<exists>url hdrs up del.
    trace (snd (run_state (UpsertRecord quiet_host (NewClient ''http://d/'' ''k'') ''a.org''
        \<lparr>zr_Name = ''www'', zr_Type = ''a'', zr_Content = ''192.0.2.1'', zr_TTL = 0, zr_Priority = 0\<rparr>)
        \<lparr>world = (), trace = []\<rparr>)) =
      trace \<lparr>world = (), trace = []\<rparr> @ [CHttp ''PATCH'' url hdrs (Some (json_of_patch [up]))] \<and>
    trace (snd (run_state (DeleteRecord quiet_host (NewClient ''http://d/'' ''k'') ''a.org'' ''www'' ''a'')
        \<lparr>world = (), trace = []\<rparr>)) =
      trace \<lparr>world = (), trace = []\<rparr> @ [CHttp ''PATCH'' url hdrs (Some (json_of_patch [del]))] \<and>
    rr_Name up = rr_Name del \<and> rr_Type up = rr_Type del \<and>
    rr_ChangeType up = ''REPLACE'' \<and> rr_ChangeType del = ''DELETE''"
  by (rule delete_targets_upsert) simp_all

definition accepted :: "goerr + nat \<times> string \<Rightarrow> bool" where
  "accepted resp \<longleftrightarrow> (case resp of Inl e \<Rightarrow> False | Inr (status, b) \<Rightarrow> status < 300)"

text \<open>
  Creating a zone posts the zone first and patches its records only when the post was
  accepted and there are records; the result is nil exactly when every request sent was
  accepted, and a request is accepted when it was answered with a status below 300.
\<close>

theorem CreateZone_behaviour:
  assumes "\<forall>meth url. url_error h meth url = None"
  shows "\<exists>url hdrs1 hdrs2.
    let zone = fqdn z;
        body1 = Some (json_of_zone zone);
        body2 = Some (json_of_patch (map (upsert_rrset (uni_upper h) zone) rs));
        url2 = baseURL c @ ''/api/v1'' @ zone_path zone;
        post = h_http h ''POST'' url hdrs1 body1 (world m);
        patch = h_http h ''PATCH'' url2 hdrs2 body2 (snd post);
        r = run_state (CreateZone h c z rs) m
    in trace (snd r) = trace m @ CHttp ''POST'' url hdrs1 body1 #
         (if accepted (fst post) \<and> rs \<noteq> [] then [CHttp ''PATCH'' url2 hdrs2 body2] else []) \<and>
       (fst r = None \<longleftrightarrow> accepted (fst post) \<and> (rs = [] \<or> accepted (fst patch)))"
  using assms
  by (intro exI [of _ "baseURL c @ ''/api/v1'' @ ''/servers/localhost/zones''"]
      exI [of _ "[(''X-API-Key'', apiKey c), (''Content-Type'', ''application/json'')]"])
    (auto simp: CreateZone_def upsertRecords_def dns_do_def host_ops Let_def accepted_def
      split: sum.splits prod.splits)

theorem CreateZone_behaviour_witness:
  "\<exists>url hdrs1 hdrs2.
    let zone = fqdn ''a.org'';
        body1 = Some (json_of_zone zone);
        body2 = Some (json_of_patch (map (upsert_rrset (uni_upper quiet_host) zone) []));
        url2 = baseURL (NewClient ''http://d'' ''k'') @ ''/api/v1'' @ zone_path zone;
        post = h_http quiet_host ''POST'' url hdrs1 body1 (world \<lparr>world = (), trace = []\<rparr>);
        patch = h_http quiet_host ''PATCH'' url2 hdrs2 body2 (snd post);
        r = run_state (CreateZone quiet_host (NewClient ''http://d'' ''k'') ''a.org'' []) \<lparr>world = (), trace = []\<rparr>
    in trace (snd r) = trace \<lparr>world = (), trace = []\<rparr> @ CHttp ''POST'' url hdrs1 body1 #
         (if accepted (fst post) \<and> [] \<noteq> ([] :: ZoneRecord list) then [CHttp ''PATCH'' url2 hdrs2 body2] else []) \<and>
       (fst r = None \<longleftrightarrow> accepted (fst post) \<and> ([] = ([] :: ZoneRecord list) \<or> accepted (fst patch)))"
  by (rule CreateZone_behaviour) simp

end
