(* ===== verification/Nginx.thy ===== *)
theory Nginx
  imports Machine
begin

text \<open>
  \<open>agent/internal/webserver/nginx.go\<close>: virtual hosts as configuration files. A site is
  written to \<open>sites-available\<close>, enabled by a symbolic link, tested, and rolled back
  when the test fails. \<open>render_vhost\<close> is what executing the file's template on a
  \<open>VhostConfig\<close> writes; the template has no field that can fail, so its error branch
  cannot be taken.
\<close>

abbreviation lf :: string where
  "lf \<equiv> [CHR 0x0A]"

abbreviation bslash :: string where
  "bslash \<equiv> [CHR 0x5C]"

definition sitesAvailable :: string where
  "sitesAvailable = ''/etc/nginx/sites-available''"

definition sitesEnabled :: string where
  "sitesEnabled = ''/etc/nginx/sites-enabled''"

record VhostConfig =
  Domain :: string
  Aliases :: "string list"
  Docroot :: string
  PHPVersion :: string

definition php_block :: "string \<Rightarrow> string" where
  "php_block v =
     lf @ ''    location ~ '' @ bslash @ ''.php$ {'' @ lf
     @ ''        include snippets/fastcgi-php.conf;'' @ lf
     @ ''        fastcgi_pass unix:/run/php/php'' @ v @ ''-fpm.sock;'' @ lf
     @ ''        fastcgi_param SCRIPT_FILENAME $realpath_root$fastcgi_script_name;'' @ lf
     @ ''        include fastcgi_params;'' @ lf
     @ ''    }'' @ lf"

definition render_vhost :: "VhostConfig \<Rightarrow> string" where
  "render_vhost cfg =
     ''# Managed by Gratis '' @ [CHR 0xE2, CHR 0x80, CHR 0x94] @ '' do not edit manually'' @ lf
     @ ''server {'' @ lf
     @ ''    listen 80;'' @ lf
     @ ''    listen [::]:80;'' @ lf
     @ ''    server_name '' @ Domain cfg @ concat (map (\<lambda>a. '' '' @ a) (Aliases cfg)) @ '';'' @ lf
     @ lf
     @ ''    root '' @ Docroot cfg @ '';'' @ lf
     @ ''    index index.php index.html index.htm;'' @ lf
     @ lf
     @ ''    access_log /var/log/nginx/'' @ Domain cfg @ ''.access.log;'' @ lf
     @ ''    error_log  /var/log/nginx/'' @ Domain cfg @ ''.error.log;'' @ lf
     @ lf
     @ ''    location / {'' @ lf
     @ ''        try_files $uri $uri/ /index.php?$query_string;'' @ lf
     @ ''    }'' @ lf
     @ (if PHPVersion cfg \<noteq> [] then php_block (PHPVersion cfg) else []) @ lf
     @ ''    location ~ /'' @ bslash @ ''.(?!well-known) {'' @ lf
     @ ''        deny all;'' @ lf
     @ ''    }'' @ lf
     @ ''}'' @ lf"

definition testConfig :: "'w host \<Rightarrow> ('w, goerr option) io" where
  "testConfig h = run_checked h ''nginx'' [''-t'']"

definition reloadNginx :: "'w host \<Rightarrow> ('w, goerr option) io" where
  "reloadNginx h =
     try_io (run_checked h ''systemctl'' [''reload'', ''nginx'']) (\<lambda>e. ''reload nginx: '' @ e)
       (State_Monad.return None)"

definition default_docroot :: "string \<Rightarrow> string" where
  "default_docroot domain = ''/home/'' @ domain @ ''/public_html/'' @ domain"

definition conf_path :: "string \<Rightarrow> string" where
  "conf_path domain = path_join [sitesAvailable, domain @ ''.conf'']"

definition link_path :: "string \<Rightarrow> string" where
  "link_path domain = path_join [sitesEnabled, domain @ ''.conf'']"

definition with_docroot :: "VhostConfig \<Rightarrow> VhostConfig" where
  "with_docroot cfg =
     (if Docroot cfg = [] then cfg\<lparr>Docroot := default_docroot (Domain cfg)\<rparr> else cfg)"

definition CreateVhost :: "'w host \<Rightarrow> VhostConfig \<Rightarrow> ('w, goerr option) io" where
  "CreateVhost h cfg0 =
     (let cfg = with_docroot cfg0;
          confPath = conf_path (Domain cfg);
          linkPath = link_path (Domain cfg) in
      try_io (os_MkdirAll h (Docroot cfg) 493)
        (\<lambda>e. ''create docroot '' @ Docroot cfg @ '': '' @ e)
      (try_io (os_WriteFile h confPath (render_vhost cfg) 420)
        (\<lambda>e. ''write config '' @ confPath @ '': '' @ e)
      (ignore_io (os_Remove h linkPath)
      (try_io (os_Symlink h confPath linkPath)
        (\<lambda>e. ''enable site '' @ Domain cfg @ '': '' @ e)
      (do {
         err \<leftarrow> testConfig h;
         case err of
           Some e \<Rightarrow>
             ignore_io (os_Remove h linkPath)
             (ignore_io (os_Remove h confPath)
             (State_Monad.return (Some (''nginx config test failed: '' @ e))))
         | None \<Rightarrow> reloadNginx h
       })))))"

definition DeleteVhost :: "'w host \<Rightarrow> string \<Rightarrow> ('w, goerr option) io" where
  "DeleteVhost h domain =
     (let confPath = conf_path domain; linkPath = link_path domain in
      ignore_io (os_Remove h linkPath)
      (do {
         err \<leftarrow> os_Remove h confPath;
         case err of
           Some e \<Rightarrow>
             if \<not> IsNotExist e
             then State_Monad.return (Some (''remove config '' @ confPath @ '': '' @ fs_msg e))
             else reloadNginx h
         | None \<Rightarrow> reloadNginx h
       }))"

definition RestartService :: "'w host \<Rightarrow> string \<Rightarrow> ('w, goerr option) io" where
  "RestartService h name =
     try_io (run_checked h ''systemctl'' [''restart'', name])
       (\<lambda>e. ''restart '' @ name @ '': '' @ e) (State_Monad.return None)"

section \<open>Properties\<close>

definition nginx_call :: "string \<Rightarrow> call \<Rightarrow> bool" where
  "nginx_call domain c \<longleftrightarrow>
     c = CExec ''nginx'' [''-t''] \<or> c = CExec ''systemctl'' [''reload'', ''nginx''] \<or>
     (\<exists>d. c = CMkdirAll d 493) \<or>
     (\<exists>d. c = CWriteFile (conf_path domain) d 420) \<or>
     c = CSymlink (conf_path domain) (link_path domain) \<or>
     c = CRemove (link_path domain) \<or> c = CRemove (conf_path domain)"

lemma Domain_with_docroot [simp]: "Domain (with_docroot cfg) = Domain cfg"
  by (simp add: with_docroot_def)

lemma emits_reloadNginx [emits_intros]:
  "P (CExec ''systemctl'' [''reload'', ''nginx'']) \<Longrightarrow> emits P (reloadNginx h)"
  unfolding reloadNginx_def by (intro emits_intros)

lemma emits_CreateVhost: "emits (nginx_call (Domain cfg)) (CreateVhost h cfg)"
  unfolding CreateVhost_def Let_def testConfig_def host_ops
  by (intro emits_intros) (auto simp: nginx_call_def)

lemma emits_DeleteVhost: "emits (nginx_call d) (DeleteVhost h d)"
  unfolding DeleteVhost_def Let_def host_ops
  by (intro emits_intros) (auto simp: nginx_call_def)

lemma emits_RestartService:
  "P (CExec ''systemctl'' [''restart'', name]) \<Longrightarrow> emits P (RestartService h name)"
  unfolding RestartService_def by (intro emits_intros)

text \<open>A domain that cannot climb out of a directory: no slash in it, and not empty.\<close>

lemma conf_paths_plain:
  assumes "CHR ''/'' \<notin> set d"
  shows "conf_path d = sitesAvailable @ ''/'' @ d @ ''.conf''"
    and "link_path d = sitesEnabled @ ''/'' @ d @ ''.conf''"
proof -
  have "plain_name (d @ ''.conf'')"
    using assms by (cases d) (auto simp: plain_name_def)
  moreover have "path_clean sitesAvailable = sitesAvailable" "path_clean sitesEnabled = sitesEnabled"
    by code_simp+
  ultimately show "conf_path d = sitesAvailable @ ''/'' @ d @ ''.conf''"
    "link_path d = sitesEnabled @ ''/'' @ d @ ''.conf''"
    using path_join_plain [of sitesAvailable] path_join_plain [of sitesEnabled]
    by (auto simp: conf_path_def link_path_def sitesAvailable_def sitesEnabled_def HasPrefix_def)
qed

definition vhost_prefix :: "VhostConfig \<Rightarrow> call list" where
  "vhost_prefix cfg0 =
     (let cfg = with_docroot cfg0 in
      [CMkdirAll (Docroot cfg) 493,
       CWriteFile (conf_path (Domain cfg)) (render_vhost cfg) 420,
       CRemove (link_path (Domain cfg)),
       CSymlink (conf_path (Domain cfg)) (link_path (Domain cfg))])"

definition vhost_rollback :: "string \<Rightarrow> call list" where
  "vhost_rollback d =
     [CExec ''nginx'' [''-t''], CRemove (link_path d), CRemove (conf_path d)]"

definition vhost_reload :: "call list" where
  "vhost_reload = [CExec ''nginx'' [''-t''], CExec ''systemctl'' [''reload'', ''nginx'']]"

lemma CreateVhost_cases:
  "\<exists>err tr. fst (run_state (CreateVhost h cfg) m) = err \<and>
     trace (snd (run_state (CreateVhost h cfg) m)) = trace m @ tr \<and>
     ((\<exists>n\<in>{1, 2, 4}. tr = take n (vhost_prefix cfg) \<and> err \<noteq> None) \<or>
      (tr = vhost_prefix cfg @ vhost_rollback (Domain cfg) \<and>
        (\<exists>e. err = Some (''nginx config test failed: '' @ e))) \<or>
      (tr = vhost_prefix cfg @ vhost_reload \<and>
        (err = None \<or> (\<exists>e. err = Some (''reload nginx: '' @ e)))))"
  by (auto simp: CreateVhost_def testConfig_def reloadNginx_def run_checked_def host_ops Let_def
      vhost_prefix_def vhost_rollback_def vhost_reload_def split: prod.splits option.splits)

text \<open>
  Once the site is linked, the outcome follows the configuration test. If the test
  fails, the last two calls remove the link and then the file, nginx is not reloaded, and
  the result is an error; if it passes, nginx is reloaded last, and the result is nil
  exactly when the reload succeeded.
\<close>

theorem CreateVhost_outcomes:
  "\<exists>err tr. fst (run_state (CreateVhost h cfg) m) = err \<and>
     trace (snd (run_state (CreateVhost h cfg) m)) = trace m @ tr \<and>
     ((\<exists>n\<in>{1, 2, 4}. tr = take n (vhost_prefix cfg) \<and> err \<noteq> None) \<or>
      (tr = vhost_prefix cfg @ vhost_rollback (Domain cfg) \<and>
        (\<exists>e. err = Some (''nginx config test failed: '' @ e))) \<or>
      (tr = vhost_prefix cfg @ vhost_reload \<and>
        (err = None \<or> (\<exists>e. err = Some (''reload nginx: '' @ e)))))"
  by (rule CreateVhost_cases)

text \<open>
  Deleting a site removes its link and then its file before nginx is reloaded; a file
  that is already gone is not an error, any other failure to remove it is, and then nginx
  keeps running on the old configuration.
\<close>

theorem DeleteVhost_behaviour:
  "let m1 = snd (run_state (os_Remove h (link_path d)) m);
       rm = fst (h_remove h (conf_path d) (world m1));
       r = run_state (DeleteVhost h d) m
   in trace (snd r) = trace m @ [CRemove (link_path d), CRemove (conf_path d)] @
        (case rm of Some (FsErr e) \<Rightarrow> [] | _ \<Rightarrow> [CExec ''systemctl'' [''reload'', ''nginx'']]) \<and>
      (case rm of Some (FsErr e) \<Rightarrow> fst r = Some (''remove config '' @ conf_path d @ '': '' @ e)
       | _ \<Rightarrow> fst r = fst (run_state (reloadNginx h) (snd (run_state (os_Remove h (conf_path d)) m1))))"
  by (auto simp: DeleteVhost_def reloadNginx_def run_checked_def host_ops Let_def
      split: prod.splits option.splits fs_err.splits)

definition vhost_confined :: "call \<Rightarrow> bool" where
  "vhost_confined c \<longleftrightarrow>
     (\<forall>p d perm. c = CWriteFile p d perm \<longrightarrow> below sitesAvailable p) \<and>
     (\<forall>p q. c = CSymlink p q \<longrightarrow> below sitesAvailable p \<and> below sitesEnabled q) \<and>
     (\<forall>p. c = CRemove p \<longrightarrow> below sitesAvailable p \<or> below sitesEnabled p) \<and>
     (\<forall>p. c \<noteq> CRemoveAll p)"

text \<open>
  A domain without slashes names one file of \<open>sites-available\<close> and one link of
  \<open>sites-enabled\<close>: no call of \<open>CreateVhost\<close> or \<open>DeleteVhost\<close> writes,
  links or removes a path outside these two directories.
\<close>

theorem vhost_files_confined:
  assumes "CHR ''/'' \<notin> set (Domain cfg)"
  shows "emits vhost_confined (CreateVhost h cfg) \<and> emits vhost_confined (DeleteVhost h (Domain cfg))"
proof -
  have "nginx_call (Domain cfg) c \<Longrightarrow> vhost_confined c" for c
    using assms conf_paths_plain [OF assms] below_append [of "Domain cfg @ ''.conf''"]
    by (auto simp: nginx_call_def vhost_confined_def)
  then show ?thesis
    using emits_mono [OF emits_CreateVhost] emits_mono [OF emits_DeleteVhost] by blast
qed

theorem vhost_files_confined_witness:
  "emits vhost_confined (CreateVhost quiet_host
       \<lparr>Domain = ''a.org'', Aliases = [], Docroot = [], PHPVersion = []\<rparr>) \<and>
   emits vhost_confined (DeleteVhost quiet_host
       (Domain \<lparr>Domain = ''a.org'', Aliases = [], Docroot = [], PHPVersion = []\<rparr>))"
  by (rule vhost_files_confined) simp

text \<open>
  The agent does not check the domain, and one that climbs leaves the directory: the
  configuration of the domain \<open>../../cron.d/x\<close> is written below \<open>/etc/cron.d\<close>.
\<close>

theorem vhost_domain_can_escape:
  "\<not> below sitesAvailable (conf_path ''../../cron.d/x'') \<and>
   CWriteFile ''/etc/cron.d/x.conf'' (render_vhost (with_docroot
       \<lparr>Domain = ''../../cron.d/x'', Aliases = [], Docroot = ''/srv'', PHPVersion = []\<rparr>)) 420
     \<in> set (trace (snd (run_state (CreateVhost quiet_host
         \<lparr>Domain = ''../../cron.d/x'', Aliases = [], Docroot = ''/srv'', PHPVersion = []\<rparr>)
       \<lparr>world = (), trace = []\<rparr>)))"
proof -
  have c: "conf_path ''../../cron.d/x'' = ''/etc/cron.d/x.conf''" by code_simp
  have "\<not> below sitesAvailable ''/etc/cron.d/x.conf''" by code_simp
  then show ?thesis
    by (simp add: c CreateVhost_def testConfig_def reloadNginx_def run_checked_def host_ops
        Let_def with_docroot_def)
qed

end
