(* ===== verification/Dkim.thy ===== *)
theory Dkim
  imports Machine
begin

text \<open>
  \<open>agent/internal/email/dkim.go\<close>: DKIM keys and the two tables of OpenDKIM. The
  tables are text files with one entry per line; an entry is appended when the file does
  not contain it, and removed with every line that contains a marker. \<open>remove_lines\<close>
  and \<open>needs_append\<close> are the pure parts of \<open>removeLines\<close> and
  \<open>appendUnique\<close>.
\<close>

abbreviation nl :: char where
  "nl \<equiv> CHR 0x0A"

definition dkimKeyDir :: string where
  "dkimKeyDir = ''/etc/opendkim/keys''"

definition dkimSelector :: string where
  "dkimSelector = ''mail''"

definition key_table_path :: string where
  "key_table_path = ''/etc/opendkim/KeyTable''"

definition signing_table_path :: string where
  "signing_table_path = ''/etc/opendkim/SigningTable''"

section \<open>Helpers\<close>

definition stripPEMHeaders :: "string \<Rightarrow> string" where
  "stripPEMHeaders pem =
     join [] (filter (\<lambda>line. \<not> (line = [] \<or> HasPrefix line ''-----''))
       (map TrimSpace (split_on nl pem)))"

definition needs_append :: "string \<Rightarrow> string \<Rightarrow> bool" where
  "needs_append data line \<longleftrightarrow> \<not> Contains data line"

definition appendUnique :: "'w host \<Rightarrow> string \<Rightarrow> string \<Rightarrow> ('w, goerr option) io" where
  "appendUnique h path line = do {
     r \<leftarrow> os_ReadFile h path;
     if \<not> needs_append (fst r) line then State_Monad.return None
     else try_io (os_OpenAppend h path 420) (\<lambda>e. e) (file_WriteString h path line)
   }"

definition remove_lines :: "string \<Rightarrow> string \<Rightarrow> string" where
  "remove_lines data marker = join [nl] (filter (\<lambda>line. \<not> Contains line marker) (split_on nl data))"

definition removeLines :: "'w host \<Rightarrow> string \<Rightarrow> string \<Rightarrow> ('w, goerr option) io" where
  "removeLines h path marker = do {
     r \<leftarrow> os_ReadFile h path;
     case r of
       (data, Some e) \<Rightarrow>
         if IsNotExist e then State_Monad.return None else State_Monad.return (Some (fs_msg e))
     | (data, None) \<Rightarrow> os_WriteFile h path (remove_lines data marker) 420
   }"

section \<open>SetupDKIM and RemoveDKIM\<close>

definition key_dir :: "string \<Rightarrow> string" where
  "key_dir domain = path_join [dkimKeyDir, domain]"

definition priv_key :: "string \<Rightarrow> string" where
  "priv_key domain = path_join [key_dir domain, dkimSelector @ ''.private'']"

definition pub_key :: "string \<Rightarrow> string" where
  "pub_key domain = path_join [key_dir domain, dkimSelector @ ''.txt'']"

definition key_table_entry :: "string \<Rightarrow> string" where
  "key_table_entry domain =
     dkimSelector @ ''._domainkey.'' @ domain @ '' '' @ domain @ '':'' @ dkimSelector @ '':''
     @ priv_key domain @ [nl]"

definition signing_entry :: "string \<Rightarrow> string" where
  "signing_entry domain =
     ''*@'' @ domain @ '' '' @ dkimSelector @ ''._domainkey.'' @ domain @ [nl]"

definition dkim_marker :: "string \<Rightarrow> string" where
  "dkim_marker domain = ''._domainkey.'' @ domain"

text \<open>The steps of \<open>SetupDKIM\<close> before and after the public key is read back.\<close>

definition generate_key :: "'w host \<Rightarrow> string \<Rightarrow> ('w, goerr option) io" where
  "generate_key h domain =
     try_io (os_MkdirAll h (key_dir domain) 448) (\<lambda>e. ''create dkim key dir: '' @ e)
     (try_io (run_checked h ''openssl'' [''genrsa'', ''-out'', priv_key domain, ''2048''])
       (\<lambda>e. ''generate dkim key: '' @ e)
     (try_io (os_Chmod h (priv_key domain) 384) (\<lambda>e. e)
     (try_io (run_checked h ''openssl''
         [''rsa'', ''-in'', priv_key domain, ''-pubout'', ''-out'', pub_key domain])
       (\<lambda>e. ''extract dkim public key: '' @ e)
     (State_Monad.return None))))"

definition write_tables :: "'w host \<Rightarrow> string \<Rightarrow> ('w, goerr option) io" where
  "write_tables h domain =
     try_io (appendUnique h key_table_path (key_table_entry domain)) (\<lambda>e. ''update KeyTable: '' @ e)
     (try_io (appendUnique h signing_table_path (signing_entry domain))
       (\<lambda>e. ''update SigningTable: '' @ e)
     (ignore_io (exec_command h ''systemctl'' [''reload'', ''opendkim''])
     (State_Monad.return None)))"

definition SetupDKIM :: "'w host \<Rightarrow> string \<Rightarrow> ('w, goerr + string) io" where
  "SetupDKIM h domain = do {
     err \<leftarrow> generate_key h domain;
     case err of
       Some e \<Rightarrow> State_Monad.return (Inl e)
     | None \<Rightarrow> do {
         r \<leftarrow> os_ReadFile h (pub_key domain);
         case r of
           (pubPEM, Some e) \<Rightarrow> State_Monad.return (Inl (fs_msg e))
         | (pubPEM, None) \<Rightarrow> do {
             err \<leftarrow> write_tables h domain;
             case err of
               Some e \<Rightarrow> State_Monad.return (Inl e)
             | None \<Rightarrow> State_Monad.return
                 (Inr (''v=DKIM1; k=rsa; p='' @ stripPEMHeaders pubPEM))
           }
       }
   }"

definition RemoveDKIM :: "'w host \<Rightarrow> string \<Rightarrow> ('w, goerr option) io" where
  "RemoveDKIM h domain = do {
     err \<leftarrow> os_RemoveAll h (key_dir domain);
     case err of
       Some (FsErr e) \<Rightarrow> State_Monad.return (Some (''remove dkim keys: '' @ e))
     | _ \<Rightarrow>
         try_io (removeLines h key_table_path (dkim_marker domain))
           (\<lambda>e. ''update '' @ key_table_path @ '': '' @ e)
         (try_io (removeLines h signing_table_path (dkim_marker domain))
           (\<lambda>e. ''update '' @ signing_table_path @ '': '' @ e)
         (ignore_io (exec_command h ''systemctl'' [''reload'', ''opendkim''])
         (State_Monad.return None)))
   }"

section \<open>Calls\<close>

definition dkim_call :: "string \<Rightarrow> call \<Rightarrow> bool" where
  "dkim_call domain c \<longleftrightarrow>
     c = CMkdirAll (key_dir domain) 448 \<or> c = CRemoveAll (key_dir domain) \<or>
     c = CChmod (priv_key domain) 384 \<or> (\<exists>p. c = CReadFile p) \<or>
     c = CExec ''openssl'' [''genrsa'', ''-out'', priv_key domain, ''2048''] \<or>
     c = CExec ''openssl'' [''rsa'', ''-in'', priv_key domain, ''-pubout'', ''-out'', pub_key domain] \<or>
     c = CExec ''systemctl'' [''reload'', ''opendkim''] \<or>
     (\<exists>p\<in>{key_table_path, signing_table_path}.
        c = COpenAppend p 420 \<or> (\<exists>d. c = CWriteString p d) \<or> (\<exists>d. c = CWriteFile p d 420))"

lemma emits_appendUnique:
  "path \<in> {key_table_path, signing_table_path} \<Longrightarrow> emits (dkim_call d) (appendUnique h path line)"
  unfolding appendUnique_def host_ops
  by (intro emits_intros) (auto simp: dkim_call_def)

lemma emits_removeLines:
  "path \<in> {key_table_path, signing_table_path} \<Longrightarrow> emits (dkim_call d) (removeLines h path line)"
  unfolding removeLines_def host_ops
  by (intro emits_intros) (auto simp: dkim_call_def)

lemma emits_SetupDKIM: "emits (dkim_call d) (SetupDKIM h d)"
  unfolding SetupDKIM_def generate_key_def write_tables_def host_ops
  by (intro emits_intros emits_appendUnique) (auto simp: dkim_call_def)

lemma emits_fs_option [emits_intros]:
  "(\<And>e. emits P (f e)) \<Longrightarrow> (\<And>e. emits P (g e)) \<Longrightarrow> emits P k \<Longrightarrow>
   emits P (case x of None \<Rightarrow> k | Some (NotExist e) \<Rightarrow> g e | Some (FsErr e) \<Rightarrow> f e)"
  by (simp split: option.split fs_err.split)

lemma emits_RemoveDKIM: "emits (dkim_call d) (RemoveDKIM h d)"
  unfolding RemoveDKIM_def host_ops
  by (intro emits_intros emits_removeLines) (auto simp: dkim_call_def)

section \<open>The tables as lists of lines\<close>

text \<open>
  The lines of a text: what follows the last newline counts as a line only when it is not
  empty.
\<close>

definition text_lines :: "string \<Rightarrow> string list" where
  "text_lines s = (let ls = split_on nl s in if last ls = [] then butlast ls else ls)"

definition unlines :: "string list \<Rightarrow> string" where
  "unlines ls = concat (map (\<lambda>l. l @ [nl]) ls)"

lemma split_on_unlines:
  "\<forall>l\<in>set ls. nl \<notin> set l \<Longrightarrow> split_on nl (unlines ls) = ls @ [[]]"
  by (induction ls) (simp_all add: unlines_def split_on_append_sep)

lemma join_snoc_Nil: "join [nl] (ls @ [[]]) = unlines ls"
proof (induction ls)
  case Nil
  then show ?case by (simp add: unlines_def)
next
  case (Cons l ls)
  then show ?case by (simp add: join_Cons unlines_def)
qed

lemma Contains_Nil_iff [simp]: "Contains [] m \<longleftrightarrow> m = []"
  by simp

lemma remove_lines_unlines:
  assumes "\<forall>l\<in>set ls. nl \<notin> set l" and "m \<noteq> []"
  shows "remove_lines (unlines ls) m = unlines (filter (\<lambda>l. \<not> Contains l m) ls)"
  using assms by (simp add: remove_lines_def split_on_unlines join_snoc_Nil)

lemma Contains_trans_lines:
  assumes "nl \<notin> set m" and "Contains s m"
  shows "\<exists>l\<in>set (split_on nl s). Contains l m"
proof -
  obtain a b where s: "s = a @ m @ b" using assms(2) by (auto simp: Contains_sublist sublist_def)
  have "\<exists>l\<in>set (split_on nl (a @ m @ b)). Contains l m" for a b
  proof (induction a)
    case Nil
    have "\<exists>l ls. split_on nl (m @ b) = (m @ l) # ls"
      using assms(1)
    proof (induction m)
      case Nil
      show ?case by (cases "split_on nl b") auto
    next
      case (Cons c m)
      then obtain l ls where "split_on nl (m @ b) = (m @ l) # ls" by auto
      with Cons.prems show ?case by auto
    qed
    then show ?case using Contains_append_middle [of "[]" m] by fastforce
  next
    case (Cons c a)
    obtain w ws where "split_on nl (a @ m @ b) = w # ws"
      by (meson neq_Nil_conv split_on_not_Nil)
    with Cons show ?case by auto
  qed
  with s show ?thesis by blast
qed

lemma dkim_marker_not_Nil [simp]: "dkim_marker d \<noteq> []"
  by (simp add: dkim_marker_def)

lemma nl_not_in_marker: "nl \<notin> set d \<Longrightarrow> nl \<notin> set (dkim_marker d)"
  by (simp add: dkim_marker_def)

lemma filter_split_remove:
  assumes "filter (\<lambda>l. \<not> Contains l m) (split_on nl s) \<noteq> []"
  shows "split_on nl (remove_lines s m) = filter (\<lambda>l. \<not> Contains l m) (split_on nl s)"
  unfolding remove_lines_def using assms
  by (intro split_on_join) (auto dest: split_on_no_sep)

text \<open>
  After a table has been filtered it contains the marker of the domain nowhere, and the
  lines that did not contain it are kept, in order.
\<close>

theorem remove_lines_removes:
  assumes "nl \<notin> set d"
  shows "\<not> Contains (remove_lines s (dkim_marker d)) (dkim_marker d) \<and>
    filter (\<lambda>l. \<not> Contains l (dkim_marker d)) (split_on nl (remove_lines s (dkim_marker d))) =
      (if \<forall>l\<in>set (split_on nl s). Contains l (dkim_marker d) then [[]]
       else filter (\<lambda>l. \<not> Contains l (dkim_marker d)) (split_on nl s))"
proof (cases "\<forall>l\<in>set (split_on nl s). Contains l (dkim_marker d)")
  case True
  then have "remove_lines s (dkim_marker d) = []" by (simp add: remove_lines_def)
  with True show ?thesis by simp
next
  case False
  then have "filter (\<lambda>l. \<not> Contains l (dkim_marker d)) (split_on nl s) \<noteq> []"
    by (simp add: filter_empty_conv)
  note eq = filter_split_remove [OF this]
  have "\<not> Contains (remove_lines s (dkim_marker d)) (dkim_marker d)"
    using Contains_trans_lines [OF nl_not_in_marker [OF assms]] eq by fastforce
  with False eq show ?thesis by simp
qed

theorem remove_lines_removes_witness:
  "\<not> Contains (remove_lines (unlines [''x'', ''m._domainkey.a.b'']) (dkim_marker ''a.b'')) (dkim_marker ''a.b'') \<and>
    filter (\<lambda>l. \<not> Contains l (dkim_marker ''a.b''))
      (split_on nl (remove_lines (unlines [''x'', ''m._domainkey.a.b'']) (dkim_marker ''a.b''))) =
      (if \<forall>l\<in>set (split_on nl (unlines [''x'', ''m._domainkey.a.b''])). Contains l (dkim_marker ''a.b'') then [[]]
       else filter (\<lambda>l. \<not> Contains l (dkim_marker ''a.b'')) (split_on nl (unlines [''x'', ''m._domainkey.a.b''])))"
  by (rule remove_lines_removes) simp

text \<open>
  C39: the marker is matched anywhere in a line, so removing a domain also removes the
  entries of every domain whose name continues it: both table entries of
  \<open>d @ rest\<close> are lost when \<open>d\<close> is removed.
\<close>

theorem remove_lines_overreaches:
  assumes "nl \<notin> set (d @ rest)" and "nl \<notin> set (priv_key (d @ rest))"
  shows "remove_lines (key_table_entry (d @ rest)) (dkim_marker d) = [] \<and>
    remove_lines (signing_entry (d @ rest)) (dkim_marker d) = []"
proof -
  have one: "remove_lines (l @ [nl]) m = []" if "nl \<notin> set l" "Contains l m" "m \<noteq> []" for l m
    using that remove_lines_unlines [of "[l]" m] by (simp add: unlines_def)
  define k where "k = ''mail._domainkey.'' @ d @ rest @ '' '' @ (d @ rest) @ '':mail:'' @ priv_key (d @ rest)"
  define g where "g = ''*@'' @ (d @ rest) @ '' mail._domainkey.'' @ d @ rest"
  have "key_table_entry (d @ rest) = k @ [nl]" "signing_entry (d @ rest) = g @ [nl]"
    by (simp_all add: k_def g_def key_table_entry_def signing_entry_def dkimSelector_def)
  moreover have "Contains k (dkim_marker d)" "Contains g (dkim_marker d)"
    using Contains_append_middle [of "''mail''" "dkim_marker d" "rest @ '' '' @ (d @ rest) @ '':mail:'' @ priv_key (d @ rest)"]
      Contains_append_middle [of "''*@'' @ (d @ rest) @ '' mail''" "dkim_marker d" rest]
    by (simp_all only: k_def g_def dkim_marker_def append_assoc append.simps)
  moreover have "nl \<notin> set k" "nl \<notin> set g" using assms by (auto simp: k_def g_def)
  ultimately show ?thesis using one by simp
qed

theorem remove_lines_overreaches_witness:
  "remove_lines (key_table_entry (''example.com'' @ ''.au'')) (dkim_marker ''example.com'') = [] \<and>
   remove_lines (signing_entry (''example.com'' @ ''.au'')) (dkim_marker ''example.com'') = []"
proof (rule remove_lines_overreaches)
  have "priv_key (''example.com'' @ ''.au'') = ''/etc/opendkim/keys/example.com.au/mail.private''"
    by code_simp
  then show "nl \<notin> set (priv_key (''example.com'' @ ''.au''))" by simp
qed simp

end
