(* ===== verification/Mail.thy ===== *)
theory Mail
  imports Machine
begin

text \<open>
  \<open>agent/internal/email/manager.go\<close>: mail domains, mailboxes and aliases, kept in
  three tables of the database \<open>mail\<close> and in directories below \<open>mailRoot\<close>. Every
  value reaches SQL as a bound argument; the statement texts are the constants below, byte
  for byte.
\<close>

abbreviation nlt :: "nat \<Rightarrow> string" where
  "nlt n \<equiv> CHR 0x0A # replicate n (CHR 0x09)"

definition mailRoot :: string where
  "mailRoot = ''/var/mail/vhosts''"

section \<open>Statements\<close>

definition schema_stmts :: "string list" where
  "schema_stmts =
     [''CREATE DATABASE IF NOT EXISTS mail'',
      ''CREATE TABLE IF NOT EXISTS mail.virtual_domains ('' @ nlt 3
        @ ''id   INT NOT NULL AUTO_INCREMENT,'' @ nlt 3
        @ ''name VARCHAR(255) NOT NULL UNIQUE,'' @ nlt 3
        @ ''PRIMARY KEY (id)'' @ nlt 2 @ '')'',
      ''CREATE TABLE IF NOT EXISTS mail.virtual_users ('' @ nlt 3
        @ ''id        INT NOT NULL AUTO_INCREMENT,'' @ nlt 3
        @ ''domain_id INT NOT NULL,'' @ nlt 3
        @ ''email     VARCHAR(255) NOT NULL UNIQUE,'' @ nlt 3
        @ ''password  VARCHAR(255) NOT NULL,'' @ nlt 3
        @ ''quota     BIGINT NOT NULL DEFAULT 0,'' @ nlt 3
        @ ''PRIMARY KEY (id),'' @ nlt 3
        @ ''FOREIGN KEY (domain_id) REFERENCES mail.virtual_domains(id) ON DELETE CASCADE''
        @ nlt 2 @ '')'',
      ''CREATE TABLE IF NOT EXISTS mail.virtual_aliases ('' @ nlt 3
        @ ''id          INT NOT NULL AUTO_INCREMENT,'' @ nlt 3
        @ ''domain_id   INT NOT NULL,'' @ nlt 3
        @ ''source      VARCHAR(255) NOT NULL,'' @ nlt 3
        @ ''destination VARCHAR(255) NOT NULL,'' @ nlt 3
        @ ''PRIMARY KEY (id),'' @ nlt 3
        @ ''FOREIGN KEY (domain_id) REFERENCES mail.virtual_domains(id) ON DELETE CASCADE''
        @ nlt 2 @ '')'']"

definition insert_domain_sql :: string where
  "insert_domain_sql = ''INSERT IGNORE INTO mail.virtual_domains (name) VALUES (?)''"

definition delete_domain_sql :: string where
  "delete_domain_sql = ''DELETE FROM mail.virtual_domains WHERE name = ?''"

definition insert_user_sql :: string where
  "insert_user_sql =
     ''INSERT INTO mail.virtual_users (domain_id, email, password, quota) VALUES (?, ?, ?, ?)''
     @ nlt 2 @ '' ON DUPLICATE KEY UPDATE password = VALUES(password), quota = VALUES(quota)''"

definition delete_user_sql :: string where
  "delete_user_sql = ''DELETE FROM mail.virtual_users WHERE email = ?''"

definition insert_alias_sql :: string where
  "insert_alias_sql =
     ''INSERT IGNORE INTO mail.virtual_aliases (domain_id, source, destination) VALUES (?, ?, ?)''"

definition delete_alias_sql :: string where
  "delete_alias_sql = ''DELETE FROM mail.virtual_aliases WHERE source = ?''"

definition select_domain_sql :: string where
  "select_domain_sql = ''SELECT id FROM mail.virtual_domains WHERE name = ?''"

section \<open>Operations\<close>

fun exec_schema :: "'w host \<Rightarrow> string list \<Rightarrow> ('w, goerr option) io" where
  "exec_schema h [] = State_Monad.return None"
| "exec_schema h (stmt # stmts) =
     try_io (db_Exec h stmt []) (\<lambda>e. ''setup schema: '' @ e) (exec_schema h stmts)"

definition SetupSchema :: "'w host \<Rightarrow> ('w, goerr option) io" where
  "SetupSchema h = exec_schema h schema_stmts"

definition AddDomain :: "'w host \<Rightarrow> string \<Rightarrow> ('w, goerr option) io" where
  "AddDomain h domain =
     try_io (db_Exec h insert_domain_sql [SqlStr domain])
       (\<lambda>e. ''add domain '' @ domain @ '': '' @ e)
       (os_MkdirAll h (path_join [mailRoot, domain]) 488)"

text \<open>\<open>os.RemoveAll\<close> with \<open>err != nil && !os.IsNotExist(err)\<close>.\<close>

definition purge_dir :: "'w host \<Rightarrow> string \<Rightarrow> (goerr \<Rightarrow> goerr) \<Rightarrow> ('w, goerr option) io" where
  "purge_dir h dir wrap = do {
     err \<leftarrow> os_RemoveAll h dir;
     case err of
       Some e \<Rightarrow> if \<not> IsNotExist e then State_Monad.return (Some (wrap (fs_msg e)))
                  else State_Monad.return None
     | None \<Rightarrow> State_Monad.return None
   }"

definition RemoveDomain :: "'w host \<Rightarrow> string \<Rightarrow> bool \<Rightarrow> ('w, goerr option) io" where
  "RemoveDomain h domain purgeMail =
     try_io (db_Exec h delete_domain_sql [SqlStr domain])
       (\<lambda>e. ''remove domain '' @ domain @ '': '' @ e)
       (if purgeMail
        then purge_dir h (path_join [mailRoot, domain])
               (\<lambda>e. ''purge mail for '' @ domain @ '': '' @ e)
        else State_Monad.return None)"

definition domainID :: "'w host \<Rightarrow> string \<Rightarrow> ('w, goerr + int) io" where
  "domainID h domain = do {
     r \<leftarrow> db_QueryRowId h select_domain_sql [SqlStr domain];
     case r of
       Inl ErrNoRows \<Rightarrow> State_Monad.return (Inl ''not found'')
     | Inl (SqlErr e) \<Rightarrow> State_Monad.return (Inl e)
     | Inr i \<Rightarrow> State_Monad.return (Inr i)
   }"

definition splitAddress :: "'w host \<Rightarrow> string \<Rightarrow> goerr + string \<times> string" where
  "splitAddress h address =
     (case split_two (CHR ''@'') address of
        [local, domain] \<Rightarrow>
          if local = [] \<or> domain = []
          then Inl (''invalid email address: '' @ go_quote (uni_quote h) address)
          else Inr (local, domain)
      | _ \<Rightarrow> Inl (''invalid email address: '' @ go_quote (uni_quote h) address))"

definition hashPassword :: "'w host \<Rightarrow> string \<Rightarrow> ('w, goerr + string) io" where
  "hashPassword h password = do {
     r \<leftarrow> exec_command h ''doveadm'' [''pw'', ''-s'', ''SHA512-CRYPT'', ''-p'', password];
     case r of
       (out, Some e) \<Rightarrow>
         State_Monad.return (Inl (''hash password (is dovecot installed?): '' @ e))
     | (out, None) \<Rightarrow> State_Monad.return (Inr (TrimSpace out))
   }"

fun make_subdirs :: "'w host \<Rightarrow> string \<Rightarrow> string list \<Rightarrow> ('w, goerr option) io" where
  "make_subdirs h maildir [] = State_Monad.return None"
| "make_subdirs h maildir (sub # subs) =
     try_io (os_MkdirAll h (path_join [maildir, sub]) 448) (\<lambda>e. ''create maildir: '' @ e)
       (make_subdirs h maildir subs)"

definition emdash :: string where
  "emdash = [CHR 0xE2, CHR 0x80, CHR 0x94]"

definition CreateMailbox :: "'w host \<Rightarrow> string \<Rightarrow> string \<Rightarrow> u64 \<Rightarrow> ('w, goerr option) io" where
  "CreateMailbox h address password quotaBytes =
     (case splitAddress h address of
        Inl e \<Rightarrow> State_Monad.return (Some e)
      | Inr (local, domain) \<Rightarrow> do {
          id \<leftarrow> domainID h domain;
          case id of
            Inl e \<Rightarrow> State_Monad.return
              (Some (''domain '' @ domain @ '' not found '' @ emdash @ '' add it first: '' @ e))
          | Inr domainId \<Rightarrow> do {
              hash \<leftarrow> hashPassword h password;
              case hash of
                Inl e \<Rightarrow> State_Monad.return (Some e)
              | Inr hashed \<Rightarrow>
                  try_io (db_Exec h insert_user_sql
                      [SqlInt domainId, SqlStr address, SqlStr hashed, SqlU64 quotaBytes])
                    (\<lambda>e. ''create account '' @ address @ '': '' @ e)
                    (make_subdirs h (path_join [mailRoot, domain, local])
                      [[], ''cur'', ''new'', ''tmp''])
            }
        })"

definition DeleteMailbox :: "'w host \<Rightarrow> string \<Rightarrow> bool \<Rightarrow> ('w, goerr option) io" where
  "DeleteMailbox h address purgeMail =
     (case splitAddress h address of
        Inl e \<Rightarrow> State_Monad.return (Some e)
      | Inr (local, domain) \<Rightarrow>
          try_io (db_Exec h delete_user_sql [SqlStr address])
            (\<lambda>e. ''delete account '' @ address @ '': '' @ e)
            (if purgeMail
             then purge_dir h (path_join [mailRoot, domain, local]) (\<lambda>e. ''purge maildir: '' @ e)
             else State_Monad.return None))"

definition CreateAlias :: "'w host \<Rightarrow> string \<Rightarrow> string \<Rightarrow> ('w, goerr option) io" where
  "CreateAlias h source destination =
     (case splitAddress h source of
        Inl e \<Rightarrow> State_Monad.return (Some e)
      | Inr (local, domain) \<Rightarrow> do {
          id \<leftarrow> domainID h domain;
          case id of
            Inl e \<Rightarrow> State_Monad.return (Some (''domain '' @ domain @ '' not found: '' @ e))
          | Inr domainId \<Rightarrow>
              try_io (db_Exec h insert_alias_sql
                  [SqlInt domainId, SqlStr source, SqlStr destination])
                (\<lambda>e. ''create alias '' @ source @ '' -> '' @ destination @ '': '' @ e)
                (State_Monad.return None)
        })"

definition DeleteAlias :: "'w host \<Rightarrow> string \<Rightarrow> ('w, goerr option) io" where
  "DeleteAlias h source =
     try_io (db_Exec h delete_alias_sql [SqlStr source])
       (\<lambda>e. ''delete alias '' @ source @ '': '' @ e) (State_Monad.return None)"

section \<open>Calls\<close>

definition mail_stmts :: "string set" where
  "mail_stmts = set schema_stmts \<union>
     {insert_domain_sql, delete_domain_sql, insert_user_sql, delete_user_sql, insert_alias_sql,
      delete_alias_sql}"

text \<open>
  The calls of the module: one of the fixed statements, the password hash, and directories
  built from \<open>mailRoot\<close>.
\<close>

definition mail_call :: "call \<Rightarrow> bool" where
  "mail_call c \<longleftrightarrow>
     (\<exists>stmt args. c = CSqlExec stmt args \<and> stmt \<in> mail_stmts) \<or>
     (\<exists>d. c = CSqlQueryRow select_domain_sql [SqlStr d]) \<or>
     (\<exists>p. c = CExec ''doveadm'' [''pw'', ''-s'', ''SHA512-CRYPT'', ''-p'', p]) \<or>
     (\<exists>p perm. c = CMkdirAll p perm) \<or>
     (\<exists>es. c = CRemoveAll (path_join (mailRoot # es)))"

lemmas mail_emit_simps = mail_call_def mail_stmts_def

lemma emits_exec_schema: "set stmts \<subseteq> mail_stmts \<Longrightarrow> emits mail_call (exec_schema h stmts)"
proof (induction stmts)
  case Nil
  then show ?case by (simp add: emits_return)
next
  case (Cons s stmts)
  then show ?case unfolding exec_schema.simps host_ops
    by (intro emits_intros) (auto simp: mail_call_def)
qed

lemma emits_SetupSchema: "emits mail_call (SetupSchema h)"
  unfolding SetupSchema_def by (intro emits_exec_schema) (auto simp: mail_stmts_def)

lemma emits_AddDomain: "emits mail_call (AddDomain h d)"
  unfolding AddDomain_def host_ops by (intro emits_intros) (auto simp: mail_emit_simps)

lemma emits_purge_dir:
  "P (CRemoveAll dir) \<Longrightarrow> emits P (purge_dir h dir wrap)"
  unfolding purge_dir_def host_ops by (intro emits_intros)

lemma emits_RemoveDomain: "emits mail_call (RemoveDomain h d purge)"
  unfolding RemoveDomain_def host_ops
  by (intro emits_intros emits_purge_dir) (auto simp: mail_emit_simps)

lemma emits_domainID: "emits mail_call (domainID h d)"
  unfolding domainID_def host_ops
  by (intro emits_intros) (auto simp: mail_emit_simps emits_return split: sql_err.split)

lemma emits_hashPassword: "emits mail_call (hashPassword h p)"
  unfolding hashPassword_def host_ops by (intro emits_intros) (auto simp: mail_emit_simps)

lemma emits_make_subdirs: "(\<And>p. P (CMkdirAll p 448)) \<Longrightarrow> emits P (make_subdirs h dir subs)"
  by (induction subs) (auto simp: os_MkdirAll_def intro!: emits_intros)

lemma emits_CreateMailbox: "emits mail_call (CreateMailbox h a p q)"
  unfolding CreateMailbox_def db_Exec_def
  by (intro emits_intros emits_domainID emits_hashPassword emits_make_subdirs)
    (auto simp: mail_emit_simps)

lemma emits_DeleteMailbox: "emits mail_call (DeleteMailbox h a purge)"
  unfolding DeleteMailbox_def host_ops
  by (intro emits_intros emits_purge_dir) (auto simp: mail_emit_simps)

lemma emits_CreateAlias: "emits mail_call (CreateAlias h s d)"
  unfolding CreateAlias_def db_Exec_def
  by (intro emits_intros emits_domainID) (auto simp: mail_emit_simps)

lemma emits_DeleteAlias: "emits mail_call (DeleteAlias h s)"
  unfolding DeleteAlias_def host_ops by (intro emits_intros) (auto simp: mail_emit_simps)

section \<open>Properties\<close>

text \<open>
  An address is accepted exactly when it has a non-empty local part and a non-empty
  domain around its first at sign, and these two are what the code works with.
\<close>

theorem splitAddress_iff:
  "splitAddress h a = Inr (l, d) \<longleftrightarrow>
     a = l @ ''@'' @ d \<and> CHR ''@'' \<notin> set l \<and> l \<noteq> [] \<and> d \<noteq> []"
proof
  assume acc: "splitAddress h a = Inr (l, d)"
  show "a = l @ ''@'' @ d \<and> CHR ''@'' \<notin> set l \<and> l \<noteq> [] \<and> d \<noteq> []"
  proof (cases "CHR ''@'' \<in> set a")
    case True
    then obtain x y where a: "a = x @ CHR ''@'' # y" "CHR ''@'' \<notin> set x"
      and sp: "split_two (CHR ''@'') a = [x, y]"
      by (rule split_two_sep)
    from acc sp have "x = l" "y = d" "l \<noteq> []" "d \<noteq> []"
      by (auto simp: splitAddress_def split: if_splits)
    with a show ?thesis by simp
  next
    case False
    then have "split_two (CHR ''@'') a = [a]" by (rule split_two_no_sep)
    with acc show ?thesis by (simp add: splitAddress_def)
  qed
next
  assume "a = l @ ''@'' @ d \<and> CHR ''@'' \<notin> set l \<and> l \<noteq> [] \<and> d \<noteq> []"
  then show "splitAddress h a = Inr (l, d)"
    by (simp add: splitAddress_def split_two_append)
qed

lemma splitAddress_Inl: "splitAddress h a = Inl e \<Longrightarrow> e = ''invalid email address: '' @ go_quote (uni_quote h) a"
  by (auto simp: splitAddress_def split: list.splits if_splits)

text \<open>The directories of a new mailbox, in the order they are made.\<close>

definition maildirs :: "string \<Rightarrow> call list" where
  "maildirs dir = map (\<lambda>sub. CMkdirAll (path_join [dir, sub]) 448) [[], ''cur'', ''new'', ''tmp'']"

lemma make_subdirs_trace:
  "\<exists>n \<le> length subs. trace (snd (run_state (make_subdirs h dir subs) m)) =
       trace m @ take n (map (\<lambda>sub. CMkdirAll (path_join [dir, sub]) 448) subs) \<and>
     (fst (run_state (make_subdirs h dir subs) m) = None \<longrightarrow> n = length subs)"
proof (induction subs arbitrary: m)
  case Nil
  then show ?case by simp
next
  case (Cons s subs)
  let ?c = "CMkdirAll (path_join [dir, s]) 448" and ?f = "h_mkdir_all h (path_join [dir, s]) 448"
  let ?m1 = "\<lparr>world = snd (?f (world m)), trace = trace m @ [?c]\<rparr>"
  show ?case
  proof (cases "fst (?f (world m))")
    case (Some e)
    then show ?thesis by (intro exI [of _ "Suc 0"]) (simp add: host_ops)
  next
    case None
    obtain n where "n \<le> length subs" and
      "trace (snd (run_state (make_subdirs h dir subs) ?m1)) =
        trace ?m1 @ take n (map (\<lambda>sub. CMkdirAll (path_join [dir, sub]) 448) subs)" and
      "fst (run_state (make_subdirs h dir subs) ?m1) = None \<longrightarrow> n = length subs"
      using Cons.IH by blast
    with None show ?thesis by (intro exI [of _ "Suc n"]) (simp add: host_ops)
  qed
qed

declare make_subdirs.simps [simp del]

lemma maildirs_trace:
  "\<exists>n \<le> 4. trace (snd (run_state (make_subdirs h dir [[], ''cur'', ''new'', ''tmp'']) m)) =
       trace m @ take n (maildirs dir) \<and>
     (fst (run_state (make_subdirs h dir [[], ''cur'', ''new'', ''tmp'']) m) = None \<longrightarrow> n = 4)"
proof -
  have len: "length [[], ''cur'', ''new'', ''tmp''] = 4" by simp
  show ?thesis
    using make_subdirs_trace [of "[[], ''cur'', ''new'', ''tmp'']" h dir m]
    unfolding len maildirs_def .
qed

lemma length_maildirs [simp]: "length (maildirs dir) = 4"
  by (simp add: maildirs_def)

text \<open>The part after a found domain and a hashed password: the row, then the directories.\<close>

lemma mailbox_row:
  fixes h :: "'w host"
  assumes "splitAddress h a = Inr (l, d)"
    and look: "h_sql_query_id h select_domain_sql [SqlStr d] (world m) = (Inr i, w1)"
    and hash: "h_exec h ''doveadm'' [''pw'', ''-s'', ''SHA512-CRYPT'', ''-p'', p] w1 = ((out, None), w2)"
  shows "\<exists>n \<le> 4. trace (snd (run_state (CreateMailbox h a p q) m)) =
      trace m @ [CSqlQueryRow select_domain_sql [SqlStr d], CExec ''doveadm'' [''pw'', ''-s'', ''SHA512-CRYPT'', ''-p'', p],
        CSqlExec insert_user_sql [SqlInt i, SqlStr a, SqlStr (TrimSpace out), SqlU64 q]] @
      take n (maildirs (path_join [mailRoot, d, l])) \<and>
    (fst (run_state (CreateMailbox h a p q) m) = None \<longrightarrow> n = 4)"
proof -
  let ?args = "[SqlInt i, SqlStr a, SqlStr (TrimSpace out), SqlU64 q]"
  let ?ins = "h_sql_exec h insert_user_sql ?args w2"
  let ?m3 = "\<lparr>world = snd ?ins, trace = trace m @ [CSqlQueryRow select_domain_sql [SqlStr d],
      CExec ''doveadm'' [''pw'', ''-s'', ''SHA512-CRYPT'', ''-p'', p], CSqlExec insert_user_sql ?args]\<rparr>"
  obtain n where "n \<le> 4" and
    "trace (snd (run_state (make_subdirs h (path_join [mailRoot, d, l]) [[], ''cur'', ''new'', ''tmp'']) ?m3))
      = trace ?m3 @ take n (maildirs (path_join [mailRoot, d, l]))" and
    "fst (run_state (make_subdirs h (path_join [mailRoot, d, l]) [[], ''cur'', ''new'', ''tmp'']) ?m3)
      = None \<longrightarrow> n = 4"
    using maildirs_trace by blast
  note run = this assms
  show ?thesis
  proof (cases "fst ?ins")
    case None
    with run show ?thesis
      by (simp add: CreateMailbox_def domainID_def hashPassword_def db_QueryRowId_def
          exec_command_def db_Exec_def Let_def) (rule exI [of _ n], simp)
  next
    case (Some e)
    with run show ?thesis
      by (simp add: CreateMailbox_def domainID_def hashPassword_def db_QueryRowId_def
          exec_command_def db_Exec_def Let_def) (rule exI [of _ 0], simp)
  qed
qed

text \<open>
  A mailbox is created in order: the domain is looked up, then the password is hashed,
  then the row is written with the id found and the trimmed hash, then the directories are
  made. Each step happens only if the one before it succeeded, so no row is written for an
  unknown domain or an unhashed password, and a nil result means that all seven calls were
  made. A malformed address makes no call.
\<close>

theorem CreateMailbox_order:
  "let r = run_state (CreateMailbox h a p q) m in
   case splitAddress h a of
     Inl e \<Rightarrow> r = (Some e, m)
   | Inr (l, d) \<Rightarrow>
      (let pw = [''pw'', ''-s'', ''SHA512-CRYPT'', ''-p'', p];
           look = h_sql_query_id h select_domain_sql [SqlStr d] (world m);
           hash = h_exec h ''doveadm'' pw (snd look)
       in \<exists>n \<le> 4. trace (snd r) = trace m @ CSqlQueryRow select_domain_sql [SqlStr d] #
         (case fst look of
            Inl e \<Rightarrow> []
          | Inr i \<Rightarrow> CExec ''doveadm'' pw #
             (case fst hash of
                (out, Some e) \<Rightarrow> []
              | (out, None) \<Rightarrow>
                 CSqlExec insert_user_sql [SqlInt i, SqlStr a, SqlStr (TrimSpace out), SqlU64 q] #
                 take n (maildirs (path_join [mailRoot, d, l])))) \<and>
         (if fst r = None then n = 4 \<and> length (trace (snd r)) = length (trace m) + 7 else True))"
proof (cases "splitAddress h a")
  case (Inl e)
  then show ?thesis by (simp add: CreateMailbox_def)
next
  case (Inr ld)
  obtain l d where ld: "ld = (l, d)" by (cases ld)
  let ?pw = "[''pw'', ''-s'', ''SHA512-CRYPT'', ''-p'', p]"
  let ?look = "h_sql_query_id h select_domain_sql [SqlStr d] (world m)"
  let ?hash = "h_exec h ''doveadm'' ?pw (snd ?look)"
  show ?thesis
  proof (cases "fst ?look")
    case look: (Inl e)
    then show ?thesis using Inr ld
      by (cases e) (auto simp: CreateMailbox_def domainID_def host_ops Let_def intro: exI [of _ 0])
  next
    case look: (Inr i)
    obtain out err where hash: "fst ?hash = (out, err)" by fastforce
    show ?thesis
    proof (cases err)
      case (Some e)
      then show ?thesis using Inr ld look hash
        by (auto simp: CreateMailbox_def domainID_def hashPassword_def host_ops Let_def)
    next
      case None
      have "?look = (Inr i, snd ?look)" "?hash = ((out, None), snd ?hash)"
        using look hash None by (simp_all add: prod_eq_iff)
      from mailbox_row [OF Inr [unfolded ld] this, of q] show ?thesis
        using Inr ld look hash None by (auto simp: Let_def)
    qed
  qed
qed

definition mail_confined :: "call \<Rightarrow> bool" where
  "mail_confined c \<longleftrightarrow>
     (\<forall>p perm. c = CMkdirAll p perm \<longrightarrow> below mailRoot p) \<and>
     (\<forall>p. c = CRemoveAll p \<longrightarrow> below mailRoot p)"

lemma mailRoot_clean: "clean_dir mailRoot"
  by code_simp

lemma below_append2: "d \<noteq> [] \<Longrightarrow> below dir ((dir @ ''/'' @ d) @ e)"
  by (simp add: below_def HasPrefix_def)

lemma emits_confined_subdirs:
  assumes "clean_dir dir" and "below mailRoot dir" and "\<And>sub. sub \<in> set subs \<Longrightarrow> sub = [] \<or> plain_name sub"
  shows "emits mail_confined (make_subdirs h dir subs)"
  using assms(3)
proof (induction subs)
  case Nil
  then show ?case by (simp add: emits_return make_subdirs.simps)
next
  case (Cons s subs)
  have "below mailRoot (path_join [dir, s])"
    using Cons.prems [of s] assms(1,2)
    by (auto simp: clean_dir_join clean_dir_join_Nil below_def HasPrefix_prefix)
  with Cons show ?case
    by (auto simp: make_subdirs.simps os_MkdirAll_def mail_confined_def intro!: emits_intros)
qed

text \<open>
  C37: with a domain and a local part that are plain path elements, every directory the
  module makes or removes lies below the mail root.
\<close>

theorem mail_dirs_confined:
  assumes "plain_name d" and "splitAddress h a = Inr (l, d)" and "plain_name l"
  shows "emits mail_confined (AddDomain h d) \<and> emits mail_confined (RemoveDomain h d purge) \<and>
    emits mail_confined (CreateMailbox h a p q) \<and> emits mail_confined (DeleteMailbox h a purge)"
proof -
  have ne: "d \<noteq> []" using assms(1) by (simp add: plain_name_def)
  have dom: "path_join [mailRoot, d] = mailRoot @ ''/'' @ d"
    using clean_dir_join [OF mailRoot_clean assms(1)] .
  have box: "path_join [mailRoot, d, l] = (mailRoot @ ''/'' @ d) @ ''/'' @ l"
    using clean_dir_join2 [OF mailRoot_clean assms(1,3)] by simp
  have box_clean: "clean_dir (path_join [mailRoot, d, l])"
    unfolding box by (intro clean_dir_append mailRoot_clean assms)
  have box_below: "below mailRoot (path_join [mailRoot, d, l])"
    unfolding box using ne by (rule below_append2)
  have sub: "emits mail_confined (make_subdirs h (path_join [mailRoot, d, l]) [[], ''cur'', ''new'', ''tmp''])"
    using box_clean box_below by (rule emits_confined_subdirs) (auto simp: plain_name_def)
  have other: "mail_confined (CSqlExec s vs)" "mail_confined (CSqlQueryRow s vs)" "mail_confined (CExec g xs)"
    for s vs g xs by (simp_all add: mail_confined_def)
  have look: "emits mail_confined (domainID h d)"
    unfolding domainID_def host_ops
    by (intro emits_intros other) (auto intro: emits_return split: sql_err.split)
  have hash: "emits mail_confined (hashPassword h p)"
    unfolding hashPassword_def host_ops by (intro emits_intros other)
  have "emits mail_confined (AddDomain h d)"
    unfolding AddDomain_def host_ops dom
    by (intro emits_intros other) (simp add: mail_confined_def below_append [simplified] ne)
  moreover have "emits mail_confined (RemoveDomain h d purge)"
    unfolding RemoveDomain_def db_Exec_def dom
    by (intro emits_intros emits_purge_dir other) (simp add: mail_confined_def below_append [simplified] ne)
  moreover have "emits mail_confined (CreateMailbox h a p q)"
    unfolding CreateMailbox_def db_Exec_def assms(2) sum.case prod.case
    by (intro emits_intros look hash sub other)
  moreover have "emits mail_confined (DeleteMailbox h a purge)"
    unfolding DeleteMailbox_def db_Exec_def assms(2) sum.case prod.case
    by (intro emits_intros emits_purge_dir other) (simp add: mail_confined_def box_below)
  ultimately show ?thesis by blast
qed

theorem mail_dirs_confined_witness:
  "emits mail_confined (AddDomain quiet_host ''a.org'') \<and>
   emits mail_confined (RemoveDomain quiet_host ''a.org'' True) \<and>
   emits mail_confined (CreateMailbox quiet_host ''bob@a.org'' ''pw'' 0) \<and>
   emits mail_confined (DeleteMailbox quiet_host ''bob@a.org'' True)"
  by (rule mail_dirs_confined [where l = "''bob''"])
    (simp_all add: plain_name_def splitAddress_def split_two_def)

text \<open>
  Neither the domain nor the local part is checked, so a purge can remove the mail of
  every domain: for the empty domain, and for the mailbox with local part \<open>..\<close>, the
  directory removed is the mail root itself.
\<close>

theorem purge_can_remove_mail_root:
  "CRemoveAll mailRoot \<in> set (trace (snd (run_state (RemoveDomain quiet_host [] True)
      \<lparr>world = (), trace = []\<rparr>))) \<and>
   CRemoveAll mailRoot \<in> set (trace (snd (run_state (DeleteMailbox quiet_host ''..@a.org'' True)
      \<lparr>world = (), trace = []\<rparr>)))"
proof -
  have "path_join [mailRoot, []] = mailRoot" "path_join [mailRoot, ''a.org'', ''..''] = mailRoot"
    by code_simp+
  then show ?thesis
    by (simp add: RemoveDomain_def DeleteMailbox_def purge_dir_def splitAddress_def split_two_def host_ops)
qed

end
