(* ===== verification/Dispatch.thy ===== *)
theory Dispatch
  imports Proto Accounts Mariadb Powerdns Nginx Dkim Mail
begin

text \<open>
  \<open>agent/internal/rpc/dispatch.go\<close>: from a command to the module that carries it out,
  and from the module's error to a \<open>CommandResult\<close>. A handler that dereferences a nil
  pointer panics: that is the outcome \<open>Panic\<close>. The database and mail managers only
  hold the connection pool, so a dispatcher records whether each is configured.
\<close>

datatype 'a outcome = Done 'a | Panic string

record Dispatcher =
  d_db :: bool
  d_dns :: "Client option"
  d_email :: bool

definition NewDispatcher :: "bool \<Rightarrow> Client option \<Rightarrow> bool \<Rightarrow> Dispatcher" where
  "NewDispatcher db dnsClient emailMgr = \<lparr>d_db = db, d_dns = dnsClient, d_email = emailMgr\<rparr>"

section \<open>Handlers\<close>

definition handleCreateVhost :: "'w host \<Rightarrow> CreateVhostCmd \<Rightarrow> ('w, goerr option) io" where
  "handleCreateVhost h c =
     Nginx.CreateVhost h \<lparr>Domain = cv_Domain c, Aliases = cv_Aliases c, Docroot = cv_Docroot c,
       PHPVersion = cv_PhpVersion c\<rparr>"

definition handleDeleteVhost :: "'w host \<Rightarrow> DeleteVhostCmd \<Rightarrow> ('w, goerr option) io" where
  "handleDeleteVhost h c = Nginx.DeleteVhost h (dv_Domain c)"

definition handleCreateAccount :: "'w host \<Rightarrow> CreateAccountCmd \<Rightarrow> ('w, goerr option) io" where
  "handleCreateAccount h c =
     Accounts.CreateAccount h (ca_Username c) (ca_Uid c) (ca_Homedir c) (ca_DiskQuotaBytes c)"

definition handleDeleteAccount :: "'w host \<Rightarrow> DeleteAccountCmd \<Rightarrow> ('w, goerr option) io" where
  "handleDeleteAccount h c = Accounts.DeleteAccount h (da_Username c) (da_PurgeFiles c)"

definition no_db :: goerr where
  "no_db = ''database manager not configured on this server''"

definition no_dns :: goerr where
  "no_dns = ''DNS client not configured on this server''"

definition no_email :: goerr where
  "no_email = ''email manager not configured on this server''"

definition handleCreateDatabase :: "'w host \<Rightarrow> Dispatcher \<Rightarrow> CreateDatabaseCmd \<Rightarrow> ('w, goerr option) io" where
  "handleCreateDatabase h d c =
     (if \<not> d_db d then State_Monad.return (Some no_db)
      else CreateDatabase h (cd_DbName c) (cd_DbUser c) (cd_Password c))"

definition handleDeleteDatabase :: "'w host \<Rightarrow> Dispatcher \<Rightarrow> DeleteDatabaseCmd \<Rightarrow> ('w, goerr option) io" where
  "handleDeleteDatabase h d c =
     (if \<not> d_db d then State_Monad.return (Some no_db)
      else DeleteDatabase h (dd_DbName c) (dd_DbUser c))"

definition to_zone_record :: "DNSRecord \<Rightarrow> ZoneRecord" where
  "to_zone_record r =
     \<lparr>zr_Name = dr_Name r, zr_Type = dr_Type r, zr_Content = dr_Content r, zr_TTL = dr_Ttl r,
      zr_Priority = dr_Priority r\<rparr>"

definition handleCreateDNSZone :: "'w host \<Rightarrow> Dispatcher \<Rightarrow> CreateDNSZoneCmd \<Rightarrow> ('w, goerr option) io" where
  "handleCreateDNSZone h d c =
     (case d_dns d of
        None \<Rightarrow> State_Monad.return (Some no_dns)
      | Some cl \<Rightarrow> CreateZone h cl (cz_Zone c) (map to_zone_record (cz_Records c)))"

definition handleDeleteDNSZone :: "'w host \<Rightarrow> Dispatcher \<Rightarrow> DeleteDNSZoneCmd \<Rightarrow> ('w, goerr option) io" where
  "handleDeleteDNSZone h d c =
     (case d_dns d of
        None \<Rightarrow> State_Monad.return (Some no_dns)
      | Some cl \<Rightarrow> DeleteZone h cl (dz_Zone c))"

text \<open>\<open>cmd.Record.Name\<close> with a nil \<open>cmd.Record\<close> panics.\<close>

definition handleUpsertDNSRecord :: "'w host \<Rightarrow> Dispatcher \<Rightarrow> UpsertDNSRecordCmd
    \<Rightarrow> ('w, goerr option outcome) io" where
  "handleUpsertDNSRecord h d c =
     (case d_dns d of
        None \<Rightarrow> State_Monad.return (Done (Some no_dns))
      | Some cl \<Rightarrow>
          (case ur_Record c of
             None \<Rightarrow> State_Monad.return (Panic ''nil pointer dereference'')
           | Some r \<Rightarrow> do {
               err \<leftarrow> UpsertRecord h cl (ur_Zone c) (to_zone_record r);
               State_Monad.return (Done err)
             }))"

definition handleDeleteDNSRecord :: "'w host \<Rightarrow> Dispatcher \<Rightarrow> DeleteDNSRecordCmd \<Rightarrow> ('w, goerr option) io" where
  "handleDeleteDNSRecord h d c =
     (case d_dns d of
        None \<Rightarrow> State_Monad.return (Some no_dns)
      | Some cl \<Rightarrow> DeleteRecord h cl (ddr_Zone c) (ddr_Name c) (ddr_Type c))"

definition handleCreateEmail :: "'w host \<Rightarrow> Dispatcher \<Rightarrow> CreateEmailCmd \<Rightarrow> ('w, goerr option) io" where
  "handleCreateEmail h d c =
     (if \<not> d_email d then State_Monad.return (Some no_email)
      else CreateMailbox h (ce_Address c) (ce_Password c) (ce_QuotaBytes c))"

definition handleDeleteEmail :: "'w host \<Rightarrow> Dispatcher \<Rightarrow> DeleteEmailCmd \<Rightarrow> ('w, goerr option) io" where
  "handleDeleteEmail h d c =
     (if \<not> d_email d then State_Monad.return (Some no_email)
      else DeleteMailbox h (de_Address c) (de_PurgeMail c))"

definition handleCreateEmailDomain :: "'w host \<Rightarrow> Dispatcher \<Rightarrow> CreateEmailDomainCmd \<Rightarrow> ('w, goerr option) io" where
  "handleCreateEmailDomain h d c =
     (if \<not> d_email d then State_Monad.return (Some no_email)
      else try_io (AddDomain h (ced_Domain c)) (\<lambda>e. e)
        (if ced_SetupDkim c
         then do {
           r \<leftarrow> SetupDKIM h (ced_Domain c);
           case r of
             Inl e \<Rightarrow> State_Monad.return (Some (''dkim setup: '' @ e))
           | Inr txt \<Rightarrow> State_Monad.return None
         }
         else State_Monad.return None))"

definition handleDeleteEmailDomain :: "'w host \<Rightarrow> Dispatcher \<Rightarrow> DeleteEmailDomainCmd \<Rightarrow> ('w, goerr option) io" where
  "handleDeleteEmailDomain h d c =
     (if \<not> d_email d then State_Monad.return (Some no_email)
      else ignore_io (RemoveDKIM h (ded_Domain c)) (RemoveDomain h (ded_Domain c) (ded_PurgeMail c)))"

definition handleCreateEmailAlias :: "'w host \<Rightarrow> Dispatcher \<Rightarrow> CreateEmailAliasCmd \<Rightarrow> ('w, goerr option) io" where
  "handleCreateEmailAlias h d c =
     (if \<not> d_email d then State_Monad.return (Some no_email)
      else CreateAlias h (cea_Source c) (cea_Destination c))"

definition handleDeleteEmailAlias :: "'w host \<Rightarrow> Dispatcher \<Rightarrow> DeleteEmailAliasCmd \<Rightarrow> ('w, goerr option) io" where
  "handleDeleteEmailAlias h d c =
     (if \<not> d_email d then State_Monad.return (Some no_email)
      else DeleteAlias h (dea_Source c))"

definition allowed_services :: "string list" where
  "allowed_services =
     [''nginx'', ''apache2'', ''php8.1-fpm'', ''php8.2-fpm'', ''php8.3-fpm'', ''postfix'',
      ''dovecot'', ''pdns'', ''mariadb'', ''mysqld'']"

definition handleRestartService :: "'w host \<Rightarrow> RestartServiceCmd \<Rightarrow> ('w, goerr option) io" where
  "handleRestartService h c =
     (if rs_Service c \<notin> set allowed_services
      then State_Monad.return (Some (''service '' @ go_quote (uni_quote h) (rs_Service c)
             @ '' is not in the allowed restart list''))
      else RestartService h (rs_Service c))"

section \<open>Dispatch\<close>

definition done_io :: "('w, goerr option) io \<Rightarrow> ('w, goerr option outcome) io" where
  "done_io f = do { err \<leftarrow> f; State_Monad.return (Done err) }"

text \<open>The type switch: the handler of a payload, and the error for a type without one.\<close>

fun handle_payload :: "'w host \<Rightarrow> Dispatcher \<Rightarrow> CommandPayload option \<Rightarrow> ('w, goerr option outcome) io" where
  "handle_payload h d (Some (Command_CreateVhost p)) = done_io (handleCreateVhost h p)"
| "handle_payload h d (Some (Command_DeleteVhost p)) = done_io (handleDeleteVhost h p)"
| "handle_payload h d (Some (Command_CreateAccount p)) = done_io (handleCreateAccount h p)"
| "handle_payload h d (Some (Command_DeleteAccount p)) = done_io (handleDeleteAccount h p)"
| "handle_payload h d (Some (Command_CreateDatabase p)) = done_io (handleCreateDatabase h d p)"
| "handle_payload h d (Some (Command_DeleteDatabase p)) = done_io (handleDeleteDatabase h d p)"
| "handle_payload h d (Some (Command_CreateDnsZone p)) = done_io (handleCreateDNSZone h d p)"
| "handle_payload h d (Some (Command_DeleteDnsZone p)) = done_io (handleDeleteDNSZone h d p)"
| "handle_payload h d (Some (Command_UpsertDnsRecord p)) = handleUpsertDNSRecord h d p"
| "handle_payload h d (Some (Command_DeleteDnsRecord p)) = done_io (handleDeleteDNSRecord h d p)"
| "handle_payload h d (Some (Command_CreateEmail p)) = done_io (handleCreateEmail h d p)"
| "handle_payload h d (Some (Command_DeleteEmail p)) = done_io (handleDeleteEmail h d p)"
| "handle_payload h d (Some (Command_CreateEmailDomain p)) = done_io (handleCreateEmailDomain h d p)"
| "handle_payload h d (Some (Command_DeleteEmailDomain p)) = done_io (handleDeleteEmailDomain h d p)"
| "handle_payload h d (Some (Command_CreateEmailAlias p)) = done_io (handleCreateEmailAlias h d p)"
| "handle_payload h d (Some (Command_DeleteEmailAlias p)) = done_io (handleDeleteEmailAlias h d p)"
| "handle_payload h d (Some (Command_RestartService p)) = done_io (handleRestartService h p)"
| "handle_payload h d (Some (Command_IssueCert p)) =
     State_Monad.return (Done (Some ''unhandled command type *agentv1.Command_IssueCert''))"
| "handle_payload h d None = State_Monad.return (Done (Some ''unhandled command type <nil>''))"

definition result_of :: "string \<Rightarrow> goerr option \<Rightarrow> CommandResult" where
  "result_of cid err =
     (case err of
        Some e \<Rightarrow> \<lparr>cr_CommandId = cid, cr_Success = False, cr_Error = e\<rparr>
      | None \<Rightarrow> \<lparr>cr_CommandId = cid, cr_Success = True, cr_Error = []\<rparr>)"

lemma result_of_success [simp]: "cr_Success (result_of cid e) \<longleftrightarrow> e = None"
  by (simp add: result_of_def split: option.split)

definition Dispatch :: "'w host \<Rightarrow> Dispatcher \<Rightarrow> Command \<Rightarrow> ('w, CommandResult outcome) io" where
  "Dispatch h d cmd = do {
     r \<leftarrow> handle_payload h d (cmd_Payload cmd);
     case r of
       Panic msg \<Rightarrow> State_Monad.return (Panic msg)
     | Done err \<Rightarrow> State_Monad.return (Done (result_of (cmd_CommandId cmd) err))
   }"

section \<open>Properties\<close>

lemma emits_done_io: "emits P f \<Longrightarrow> emits P (done_io f)"
  unfolding done_io_def by (intro emits_intros)

lemma emits_outcome:
  "(\<And>e. emits P (f e)) \<Longrightarrow> (\<And>x. emits P (g x)) \<Longrightarrow>
   emits P (case r of Done x \<Rightarrow> g x | Panic e \<Rightarrow> f e)"
  by (cases r) simp_all

lemma emits_Dispatch:
  "emits P (handle_payload h d (cmd_Payload cmd)) \<Longrightarrow> emits P (Dispatch h d cmd)"
  unfolding Dispatch_def by (intro emits_intros emits_outcome)

text \<open>
  What a dispatcher may do, call by call: the programs of the modules with their argument
  lists, the SQL of the database and mail modules when they are configured, and requests to
  the configured PowerDNS server.
\<close>

definition agent_program :: "call \<Rightarrow> bool" where
  "agent_program c \<longleftrightarrow>
     account_call c \<or> c = CExec ''nginx'' [''-t''] \<or>
     c = CExec ''systemctl'' [''reload'', ''nginx''] \<or>
     c = CExec ''systemctl'' [''reload'', ''opendkim''] \<or>
     (\<exists>s\<in>set allowed_services. c = CExec ''systemctl'' [''restart'', s]) \<or>
     (\<exists>key. c = CExec ''openssl'' [''genrsa'', ''-out'', key, ''2048'']) \<or>
     (\<exists>key pub. c = CExec ''openssl'' [''rsa'', ''-in'', key, ''-pubout'', ''-out'', pub]) \<or>
     (\<exists>pw. c = CExec ''doveadm'' [''pw'', ''-s'', ''SHA512-CRYPT'', ''-p'', pw])"

definition agent_safe :: "Dispatcher \<Rightarrow> call \<Rightarrow> bool" where
  "agent_safe d c \<longleftrightarrow>
     (case c of
        CExec prog args \<Rightarrow> agent_program c
      | CSqlExec stmt args \<Rightarrow>
          (d_db d \<and> mariadb_call c) \<or> (d_email d \<and> stmt \<in> mail_stmts)
      | CSqlQueryRow stmt args \<Rightarrow> d_email d \<and> stmt = select_domain_sql
      | CHttp meth url hdrs body \<Rightarrow> (\<exists>cl. d_dns d = Some cl \<and> dns_call cl c)
      | _ \<Rightarrow> True)"

lemma safe_account: "account_call c \<Longrightarrow> agent_safe d c"
  by (auto simp: agent_safe_def agent_program_def account_call_def)

lemma safe_nginx: "nginx_call x c \<Longrightarrow> agent_safe d c"
  by (auto simp: agent_safe_def agent_program_def nginx_call_def)

lemma mariadb_call_sql: "mariadb_call c \<Longrightarrow> \<exists>stmt args. c = CSqlExec stmt args"
  by (auto simp: mariadb_call_def)

lemma safe_mariadb: "d_db d \<Longrightarrow> mariadb_call c \<Longrightarrow> agent_safe d c"
  using mariadb_call_sql [of c] by (auto simp: agent_safe_def)

lemma safe_dns: "d_dns d = Some cl \<Longrightarrow> dns_call cl c \<Longrightarrow> agent_safe d c"
  by (auto simp: agent_safe_def dns_call_def)

lemma safe_mail: "d_email d \<Longrightarrow> mail_call c \<Longrightarrow> agent_safe d c"
  by (auto simp: agent_safe_def agent_program_def mail_call_def)

lemma safe_dkim: "dkim_call x c \<Longrightarrow> agent_safe d c"
  by (auto simp: agent_safe_def agent_program_def dkim_call_def)

lemmas handler_defs =
  handleCreateVhost_def handleDeleteVhost_def handleCreateAccount_def handleDeleteAccount_def
  handleCreateDatabase_def handleDeleteDatabase_def handleCreateDNSZone_def
  handleDeleteDNSZone_def handleUpsertDNSRecord_def handleDeleteDNSRecord_def
  handleCreateEmail_def handleDeleteEmail_def handleCreateEmailDomain_def
  handleDeleteEmailDomain_def handleCreateEmailAlias_def handleDeleteEmailAlias_def
  handleRestartService_def

lemmas module_emits =
  emits_CreateVhost [THEN emits_mono] emits_DeleteVhost [THEN emits_mono]
  emits_CreateAccount [THEN emits_mono] emits_DeleteAccount [THEN emits_mono]
  emits_CreateDatabase [THEN emits_mono] emits_DeleteDatabase [THEN emits_mono]
  emits_CreateZone [THEN emits_mono] emits_DeleteZone [THEN emits_mono]
  emits_UpsertRecord [THEN emits_mono] emits_DeleteRecord [THEN emits_mono]
  emits_CreateMailbox [THEN emits_mono] emits_DeleteMailbox [THEN emits_mono]
  emits_AddDomain [THEN emits_mono] emits_RemoveDomain [THEN emits_mono]
  emits_CreateAlias [THEN emits_mono] emits_DeleteAlias [THEN emits_mono]
  emits_SetupDKIM [THEN emits_mono] emits_RemoveDKIM [THEN emits_mono]

lemmas module_safe = safe_account safe_nginx safe_mariadb safe_dns safe_mail safe_dkim

lemma emits_agent_Dispatch: "emits (agent_safe d) (Dispatch h d cmd)"
proof (rule emits_Dispatch)
  show "emits (agent_safe d) (handle_payload h d (cmd_Payload cmd))"
  proof (cases "cmd_Payload cmd")
    case None
    then show ?thesis by (simp add: emits_return)
  next
    case (Some p)
    show ?thesis unfolding Some
    proof (cases p)
      case (Command_RestartService c)
      have "emits (agent_safe d) (handleRestartService h c)"
        unfolding handleRestartService_def
        by (intro emits_intros emits_RestartService) (auto simp: agent_safe_def agent_program_def)
      then show "emits (agent_safe d) (handle_payload h d (Some p))"
        by (simp add: Command_RestartService emits_done_io)
    qed (auto simp: handler_defs intro!: emits_intros emits_done_io module_emits
        intro: module_safe)
  qed
qed

text \<open>
  C4: whatever command arrives and however the host answers, the agent runs only its fixed
  programs with checked arguments (a service is restarted only if it is on the list, an
  account tool is given only a valid user name), sends only its fixed SQL statements and
  only through configured managers, and sends HTTP requests only to the configured PowerDNS
  server.
\<close>

theorem Dispatch_safe: "emits (agent_safe d) (Dispatch h d cmd)"
  by (rule emits_agent_Dispatch)

definition panics :: "Dispatcher \<Rightarrow> Command \<Rightarrow> bool" where
  "panics d cmd \<longleftrightarrow>
     (case cmd_Payload cmd of
        Some (Command_UpsertDnsRecord c) \<Rightarrow> d_dns d \<noteq> None \<and> ur_Record c = None
      | _ \<Rightarrow> False)"

lemma run_done_io [simp]:
  "run_state (done_io f) m = (Done (fst (run_state f m)), snd (run_state f m))"
  by (simp add: done_io_def split: prod.splits)

lemma handle_payload_outcome:
  "(\<exists>e. fst (run_state (handle_payload h d (cmd_Payload cmd)) m) = Done e) \<longleftrightarrow> \<not> panics d cmd"
proof (cases "cmd_Payload cmd")
  case None
  then show ?thesis by (simp add: panics_def)
next
  case (Some p)
  then show ?thesis
    by (cases p) (auto simp: panics_def handleUpsertDNSRecord_def split: option.splits prod.splits)
qed

lemma Dispatch_result:
  "run_state (Dispatch h d cmd) m = (Done r, m') \<Longrightarrow> cr_CommandId r = cmd_CommandId cmd"
  by (auto simp: Dispatch_def result_of_def split: prod.splits outcome.splits option.splits)

text \<open>
  C14: the agent answers every command with the identifier of the command, and reports
  success only without an error text. The one exception is an upsert of a DNS record
  without the record, with PowerDNS configured: its handler dereferences a nil pointer,
  which ends the agent process.
\<close>

theorem Dispatch_answers:
  "case fst (run_state (Dispatch h d cmd) m) of
     Done r \<Rightarrow> \<not> panics d cmd \<and> cr_CommandId r = cmd_CommandId cmd \<and>
       (if cr_Success r then cr_Error r = [] else True) \<and>
       fst (run_state (handle_payload h d (cmd_Payload cmd)) m) =
         Done (if cr_Success r then None else Some (cr_Error r))
   | Panic msg \<Rightarrow> panics d cmd"
  using handle_payload_outcome [of h d cmd m]
  by (auto simp: Dispatch_def result_of_def split: prod.splits outcome.splits option.splits)

text \<open>
  A service is restarted exactly when it is on the list: then the one call is
  \<open>systemctl restart\<close> on it, and otherwise no call is made and the result is an error.
\<close>

theorem restart_allowlist:
  "if s \<in> set allowed_services
   then trace (snd (run_state (handleRestartService h \<lparr>rs_Service = s\<rparr>) m)) =
     trace m @ [CExec ''systemctl'' [''restart'', s]]
   else snd (run_state (handleRestartService h \<lparr>rs_Service = s\<rparr>) m) = m \<and>
     fst (run_state (handleRestartService h \<lparr>rs_Service = s\<rparr>) m) \<noteq> None"
  by (auto simp: handleRestartService_def RestartService_def run_checked_def host_ops
      split: prod.splits option.splits)

definition needs_db :: "CommandPayload \<Rightarrow> bool" where
  "needs_db p \<longleftrightarrow> (case p of Command_CreateDatabase c \<Rightarrow> True | Command_DeleteDatabase c \<Rightarrow> True | _ \<Rightarrow> False)"

definition needs_dns :: "CommandPayload \<Rightarrow> bool" where
  "needs_dns p \<longleftrightarrow> (case p of Command_CreateDnsZone c \<Rightarrow> True | Command_DeleteDnsZone c \<Rightarrow> True
     | Command_UpsertDnsRecord c \<Rightarrow> True | Command_DeleteDnsRecord c \<Rightarrow> True | _ \<Rightarrow> False)"

definition needs_email :: "CommandPayload \<Rightarrow> bool" where
  "needs_email p \<longleftrightarrow> (case p of Command_CreateEmail c \<Rightarrow> True | Command_DeleteEmail c \<Rightarrow> True
     | Command_CreateEmailDomain c \<Rightarrow> True | Command_DeleteEmailDomain c \<Rightarrow> True
     | Command_CreateEmailAlias c \<Rightarrow> True | Command_DeleteEmailAlias c \<Rightarrow> True | _ \<Rightarrow> False)"

definition unconfigured_error :: "Dispatcher \<Rightarrow> CommandPayload \<Rightarrow> goerr option" where
  "unconfigured_error d p =
     (if needs_db p \<and> \<not> d_db d then Some no_db
      else if needs_dns p \<and> d_dns d = None then Some no_dns
      else if needs_email p \<and> \<not> d_email d then Some no_email
      else None)"

text \<open>
  Commands for a module that is not configured are refused without any call: database
  commands without a database manager, DNS commands without a client, mail commands without
  a mail manager.
\<close>

theorem Dispatch_unconfigured:
  assumes "cmd_Payload cmd = Some p" and "unconfigured_error d p = Some e"
  shows "run_state (Dispatch h d cmd) m =
    (Done \<lparr>cr_CommandId = cmd_CommandId cmd, cr_Success = False, cr_Error = e\<rparr>, m)"
  using assms
  by (cases p) (auto simp: Dispatch_def handler_defs result_of_def unconfigured_error_def
      needs_db_def needs_dns_def needs_email_def split: if_splits)

theorem Dispatch_unconfigured_witness:
  "run_state (Dispatch quiet_host (NewDispatcher False None False)
      \<lparr>cmd_CommandId = ''7'', cmd_Payload = Some (Command_DeleteDnsZone \<lparr>dz_Zone = ''a.org''\<rparr>)\<rparr>)
      \<lparr>world = (), trace = []\<rparr> =
    (Done \<lparr>cr_CommandId = cmd_CommandId \<lparr>cmd_CommandId = ''7'',
       cmd_Payload = Some (Command_DeleteDnsZone \<lparr>dz_Zone = ''a.org''\<rparr>)\<rparr>,
       cr_Success = False, cr_Error = no_dns\<rparr>, \<lparr>world = (), trace = []\<rparr>)"
  by (rule Dispatch_unconfigured [where p = "Command_DeleteDnsZone \<lparr>dz_Zone = ''a.org''\<rparr>"])
    (simp_all add: unconfigured_error_def needs_db_def needs_dns_def NewDispatcher_def)

end
