(* ===== verification/AgentRpc.thy ===== *)
theory AgentRpc
  imports Metrics Dispatch "HOL-Library.Multiset"
begin

text \<open>
  \<open>agent/internal/rpc/agent.go\<close> and the start of \<open>agent/cmd/agent/main.go\<close>:
  configuration, registration, heartbeats, and the session. In a session the main loop and
  one goroutine per command run side by side, so it is a step relation; what the steps need
  of the dispatcher is the locale \<open>command_service\<close>, of which \<open>Dispatch\<close> is an
  instance.
\<close>

section \<open>Start-up\<close>

record agent_flags =
  fl_api :: string
  fl_token :: string
  fl_dbSocket :: string
  fl_pdnsURL :: string
  fl_pdnsKey :: string

text \<open>
  \<open>main\<close> up to the call of \<open>Run\<close>: the exit status 1, or the address, the token and
  the dispatcher. The driver's \<open>Open\<close> and \<open>Ping\<close> are arguments; the mail tables
  are set up on the host.
\<close>

definition agent_main :: "(string \<Rightarrow> string) \<Rightarrow> (string \<Rightarrow> goerr + 'db) \<Rightarrow> ('db \<Rightarrow> goerr option)
    \<Rightarrow> 'w host \<Rightarrow> agent_flags \<Rightarrow> ('w, nat + string \<times> string \<times> Dispatcher) io" where
  "agent_main getenv sql_open ping h fl =
     (let token = flag_or_env getenv (fl_token fl) ''GRATIS_TOKEN'' in
      if token = [] then State_Monad.return (Inl 1)
      else let
        pdnsKey = flag_or_env getenv (fl_pdnsKey fl) ''GRATIS_PDNS_KEY'';
        db = (case NewDbManager sql_open ping (fl_dbSocket fl) of Inl e \<Rightarrow> False | Inr m \<Rightarrow> True);
        dnsClient = (if fl_pdnsURL fl \<noteq> [] \<and> pdnsKey \<noteq> []
                     then Some (NewClient (fl_pdnsURL fl) pdnsKey) else None)
      in if db
         then do {
           err \<leftarrow> SetupSchema h;
           State_Monad.return (Inr (fl_api fl, token, NewDispatcher db dnsClient (err = None)))
         }
         else State_Monad.return (Inr (fl_api fl, token, NewDispatcher db dnsClient False)))"

section \<open>Registration\<close>

definition register_message :: "string \<Rightarrow> string \<Rightarrow> string \<Rightarrow> AgentMessage" where
  "register_message token hostname goarch = Some (AgentMessage_Register
     \<lparr>rq_Token = token, rq_Hostname = hostname, rq_Os = ''linux'', rq_Arch = goarch,
      rq_Version = ''0.1.0''\<rparr>)"

text \<open>\<open>fmt.Sprintf("%T", msg.Payload)\<close>\<close>

fun server_payload_type :: "ServerMessage \<Rightarrow> string" where
  "server_payload_type None = ''<nil>''"
| "server_payload_type (Some (ServerMessage_RegisterResponse r)) =
     ''*agentv1.ServerMessage_RegisterResponse''"
| "server_payload_type (Some (ServerMessage_Command c)) = ''*agentv1.ServerMessage_Command''"

text \<open>
  \<open>connect\<close> up to \<open>session\<close>: what was sent, and the error or the identifier the
  server gave. The connection is a parameter: the outcome of opening the client and the
  stream, of sending, and of the first receive.
\<close>

definition agent_register :: "string \<Rightarrow> string \<Rightarrow> string \<Rightarrow> string \<Rightarrow> goerr option \<Rightarrow> goerr option
    \<Rightarrow> (AgentMessage \<Rightarrow> goerr option) \<Rightarrow> goerr + ServerMessage
    \<Rightarrow> AgentMessage list \<times> (goerr + string)" where
  "agent_register apiAddr token hostname goarch dial opened send recv =
     (case dial of
        Some e \<Rightarrow> ([], Inl (''dial '' @ apiAddr @ '': '' @ e))
      | None \<Rightarrow>
     (case opened of
        Some e \<Rightarrow> ([], Inl (''open stream: '' @ e))
      | None \<Rightarrow>
     (let reg = register_message token hostname goarch in
      case send reg of
        Some e \<Rightarrow> ([reg], Inl (''send register: '' @ e))
      | None \<Rightarrow>
     (case recv of
        Inl e \<Rightarrow> ([reg], Inl (''recv register response: '' @ e))
      | Inr (Some (ServerMessage_RegisterResponse resp)) \<Rightarrow>
          if \<not> rp_Accepted resp
          then ([reg], Inl (''registration rejected: '' @ rp_Message resp))
          else ([reg], Inr (rp_ServerId resp))
      | Inr msg \<Rightarrow> ([reg], Inl (''expected RegisterResponse, got '' @ server_payload_type msg))))))"

record Agent =
  ag_apiAddr :: string
  ag_token :: string
  ag_dispatcher :: Dispatcher
  ag_lastCPU :: CPUSample

definition NewAgent :: "string \<Rightarrow> string \<Rightarrow> Dispatcher \<Rightarrow> Agent" where
  "NewAgent apiAddr token dispatcher = \<lparr>ag_apiAddr = apiAddr, ag_token = token,
     ag_dispatcher = dispatcher, ag_lastCPU = \<lparr>total = 0, idle = 0\<rparr>\<rparr>"

text \<open>
  \<open>Run\<close>: attempt after attempt. \<open>connect i\<close> is what attempt \<open>i\<close> does to the
  agent and the error it ends with, which is only logged; \<open>cancelled i\<close> tells whether
  the \<open>select\<close> after it takes the context's branch, or the delay passes. The value is
  the log and the agent; the loop may run for ever.
\<close>

datatype run_log = Session_Ended goerr | Reconnecting string

partial_function (option) agent_run :: "(nat \<Rightarrow> 's \<Rightarrow> goerr option \<times> 's) \<Rightarrow> (nat \<Rightarrow> bool) \<Rightarrow> string
    \<Rightarrow> nat \<Rightarrow> run_log list \<Rightarrow> 's \<Rightarrow> (run_log list \<times> 's) option" where
  "agent_run connect cancelled apiAddr i lg a =
     (case connect i a of (err, a') \<Rightarrow>
        let lg' = (case err of Some e \<Rightarrow> lg @ [Session_Ended e] | None \<Rightarrow> lg)
        in if cancelled i then Some (lg', a')
           else agent_run connect cancelled apiAddr (Suc i) (lg' @ [Reconnecting apiAddr]) a')"

text \<open>The number of reconnections in a log.\<close>

definition reconnects :: "run_log list \<Rightarrow> nat" where
  "reconnects lg = length (filter (\<lambda>l. case l of Reconnecting a \<Rightarrow> True | Session_Ended e \<Rightarrow> False) lg)"

lemma reconnects_simps [simp]:
  "reconnects [] = 0" "reconnects (xs @ ys) = reconnects xs + reconnects ys"
  "reconnects [Reconnecting a] = 1" "reconnects [Session_Ended e] = 0"
  by (simp_all add: reconnects_def)

lemma agent_run_returns:
  "(\<And>j. i \<le> j \<Longrightarrow> j < i + n \<Longrightarrow> \<not> cancelled j) \<Longrightarrow> cancelled (i + n) \<Longrightarrow>
     \<exists>lg' a'. agent_run connect cancelled apiAddr i lg a = Some (lg', a') \<and>
       reconnects lg' = reconnects lg + n"
proof (induction n arbitrary: i lg a)
  case 0
  obtain err a' where "connect i a = (err, a')" by fastforce
  with 0 show ?case by (subst agent_run.simps) (auto split: option.split)
next
  case (Suc n)
  obtain err a' where c: "connect i a = (err, a')" by fastforce
  let ?lg = "(case err of Some e \<Rightarrow> lg @ [Session_Ended e] | None \<Rightarrow> lg) @ [Reconnecting apiAddr]"
  have "\<exists>lg' b. agent_run connect cancelled apiAddr (Suc i) ?lg a' = Some (lg', b) \<and>
      reconnects lg' = reconnects ?lg + n"
    by (rule Suc.IH) (use Suc.prems in auto)
  moreover have "\<not> cancelled i" using Suc.prems(1) [of i] by simp
  ultimately show ?case using c
    by (subst agent_run.simps) (auto split: option.splits)
qed

lemma agent_run_cancelled:
  assumes "agent_run connect cancelled apiAddr i lg a = Some r"
  shows "\<exists>j\<ge>i. cancelled j"
proof (rule agent_run.raw_induct
    [where P = "\<lambda>connect cancelled apiAddr i lg a r. \<exists>j\<ge>i. cancelled j", OF _ assms])
  fix run :: "(nat \<Rightarrow> 'a \<Rightarrow> goerr option \<times> 'a) \<Rightarrow> (nat \<Rightarrow> bool) \<Rightarrow> string \<Rightarrow> nat \<Rightarrow> run_log list \<Rightarrow> 'a
      \<Rightarrow> (run_log list \<times> 'a) option"
    and connect cancelled apiAddr i lg a r
  assume IH: "\<And>connect cancelled apiAddr i lg a r.
      run connect cancelled apiAddr i lg a = Some r \<Longrightarrow> \<exists>j\<ge>i. cancelled j"
    and body: "(case connect i a of (err, a') \<Rightarrow>
      let lg' = (case err of Some e \<Rightarrow> lg @ [Session_Ended e] | None \<Rightarrow> lg)
      in if cancelled i then Some (lg', a')
         else run connect cancelled apiAddr (Suc i) (lg' @ [Reconnecting apiAddr]) a') = Some r"
  show "\<exists>j\<ge>i. cancelled j"
  proof (cases "cancelled i")
    case False
    then obtain lg' a' where "run connect cancelled apiAddr (Suc i) lg' a' = Some r"
      using body by (auto simp: Let_def split: prod.splits)
    then show ?thesis using IH Suc_leD by blast
  qed auto
qed

text \<open>
  The exit status of the agent, \<open>None\<close> if it runs for ever. \<open>attempts\<close> says what
  an attempt does to an agent.
\<close>

definition agent_process :: "(string \<Rightarrow> string) \<Rightarrow> (string \<Rightarrow> goerr + 'db) \<Rightarrow> ('db \<Rightarrow> goerr option)
    \<Rightarrow> 'w host \<Rightarrow> agent_flags \<Rightarrow> (nat \<Rightarrow> Agent \<Rightarrow> goerr option \<times> Agent) \<Rightarrow> (nat \<Rightarrow> bool)
    \<Rightarrow> 'w machine \<Rightarrow> nat option" where
  "agent_process getenv sql_open ping h fl attempts cancelled m =
     (case fst (run_state (agent_main getenv sql_open ping h fl) m) of
        Inl status \<Rightarrow> Some status
      | Inr (api, token, d) \<Rightarrow>
          map_option (\<lambda>_. 0) (agent_run attempts cancelled api 0 [] (NewAgent api token d)))"

section \<open>Heartbeats\<close>

definition with_cpu :: "CPUSample \<Rightarrow> goerr + CPUSample \<Rightarrow> SystemMetrics \<Rightarrow> SystemMetrics \<times> CPUSample" where
  "with_cpu prev cur m =
     (case cur of
        Inl e \<Rightarrow> (m, prev)
      | Inr c \<Rightarrow> (m\<lparr>CpuPercent := Finite (CPUPercent prev c)\<rparr>, c))"

definition with_mem :: "goerr + MemInfo \<Rightarrow> SystemMetrics \<Rightarrow> SystemMetrics" where
  "with_mem r m = (case r of Inl e \<Rightarrow> m | Inr i \<Rightarrow> m\<lparr>MemTotal := mem_Total i, MemUsed := mem_Used i\<rparr>)"

definition with_disk :: "goerr + DiskInfo \<Rightarrow> SystemMetrics \<Rightarrow> SystemMetrics" where
  "with_disk r m = (case r of Inl e \<Rightarrow> m | Inr i \<Rightarrow> m\<lparr>DiskTotal := disk_Total i, DiskUsed := disk_Used i\<rparr>)"

definition with_load :: "goerr + LoadAvg \<Rightarrow> SystemMetrics \<Rightarrow> SystemMetrics" where
  "with_load r m = (case r of Inl e \<Rightarrow> m
     | Inr l \<Rightarrow> m\<lparr>Load_1 := Load1 l, Load_5 := Load5 l, Load_15 := Load15 l\<rparr>)"

definition zero_metrics :: SystemMetrics where
  "zero_metrics = \<lparr>CpuPercent = Finite 0, MemTotal = 0, MemUsed = 0, DiskTotal = 0, DiskUsed = 0,
     Load_1 = Finite 0, Load_5 = Finite 0, Load_15 = Finite 0\<rparr>"

text \<open>\<open>now\<close>: the clock. The result carries the new \<open>lastCPU\<close>.\<close>

definition buildHeartbeat :: "(string \<Rightarrow> float64) \<Rightarrow> 'w host \<Rightarrow> int \<Rightarrow> CPUSample
    \<Rightarrow> ('w, Heartbeat \<times> CPUSample) io" where
  "buildHeartbeat parse_float h now lastCPU = do {
     cur \<leftarrow> SampleCPU h;
     mem \<leftarrow> ReadMemInfo h;
     disk \<leftarrow> ReadDiskInfo h ''/'';
     load \<leftarrow> ReadLoadAvg parse_float h;
     State_Monad.return
       (case with_cpu lastCPU cur zero_metrics of (m, prev) \<Rightarrow>
          (\<lparr>hb_Timestamp = now, hb_Metrics = Some (with_load load (with_disk disk (with_mem mem m))),
            hb_Services = []\<rparr>, prev))
   }"

section \<open>Sessions\<close>

datatype agent_status = Live | Ended "goerr option" | Crashed

record agent_session =
  as_status :: agent_status
  as_received :: "Command list"
  as_running :: "Command multiset"
  as_answered :: "CommandResult list"
  as_sent :: "AgentMessage list"
  as_calls :: "call list"

definition new_agent_session :: agent_session where
  "new_agent_session = \<lparr>as_status = Live, as_received = [], as_running = {#}, as_answered = [],
     as_sent = [], as_calls = []\<rparr>"

text \<open>
  \<open>answers cmd out tr\<close>: dispatching \<open>cmd\<close> can have the outcome \<open>out\<close> while
  making the calls \<open>tr\<close>. A command starts a goroutine; when it finishes its result is
  sent, which may fail silently, also after the session has ended. A panic ends the process.
\<close>

inductive agent_step :: "(Command \<Rightarrow> CommandResult outcome \<Rightarrow> call list \<Rightarrow> bool)
    \<Rightarrow> agent_session \<Rightarrow> agent_session \<Rightarrow> bool" for answers where
  command: "as_status s = Live \<Longrightarrow>
     agent_step answers s (s\<lparr>as_received := as_received s @ [cmd], as_running := add_mset cmd (as_running s)\<rparr>)"
| heartbeat: "as_status s = Live \<Longrightarrow>
     agent_step answers s (s\<lparr>as_sent := as_sent s @ [Some (AgentMessage_Heartbeat hb)]\<rparr>)"
| heartbeat_fails: "as_status s = Live \<Longrightarrow>
     agent_step answers s (s\<lparr>as_status := Ended (Some (''send heartbeat: '' @ e))\<rparr>)"
| stream_ends: "as_status s = Live \<Longrightarrow>
     agent_step answers s (s\<lparr>as_status := Ended (Some (''stream recv: '' @ e))\<rparr>)"
| cancelled: "as_status s = Live \<Longrightarrow> agent_step answers s (s\<lparr>as_status := Ended None\<rparr>)"
| finish: "as_status s \<noteq> Crashed \<Longrightarrow> cmd \<in># as_running s \<Longrightarrow> answers cmd (Done r) tr \<Longrightarrow>
     agent_step answers s (s\<lparr>as_running := as_running s - {#cmd#}, as_answered := as_answered s @ [r],
       as_sent := as_sent s @ [Some (AgentMessage_CommandResult r)], as_calls := as_calls s @ tr\<rparr>)"
| finish_unsent: "as_status s \<noteq> Crashed \<Longrightarrow> cmd \<in># as_running s \<Longrightarrow> answers cmd (Done r) tr \<Longrightarrow>
     agent_step answers s (s\<lparr>as_running := as_running s - {#cmd#}, as_answered := as_answered s @ [r],
       as_calls := as_calls s @ tr\<rparr>)"
| crash: "as_status s \<noteq> Crashed \<Longrightarrow> cmd \<in># as_running s \<Longrightarrow> answers cmd (Panic msg) tr \<Longrightarrow>
     agent_step answers s (s\<lparr>as_status := Crashed, as_calls := as_calls s @ tr\<rparr>)"

definition session_reachable :: "(Command \<Rightarrow> CommandResult outcome \<Rightarrow> call list \<Rightarrow> bool)
    \<Rightarrow> agent_session \<Rightarrow> bool" where
  "session_reachable answers s \<longleftrightarrow> (agent_step answers)\<^sup>*\<^sup>* new_agent_session s"

inductive_cases agent_stepE: "agent_step answers s t"

text \<open>The results among the messages sent.\<close>

fun sent_results :: "AgentMessage list \<Rightarrow> CommandResult list" where
  "sent_results [] = []"
| "sent_results (Some (AgentMessage_CommandResult r) # ms) = r # sent_results ms"
| "sent_results (_ # ms) = sent_results ms"

lemma sent_results_append [simp]: "sent_results (xs @ ys) = sent_results xs @ sent_results ys"
  by (induction xs rule: sent_results.induct) simp_all

section \<open>What a session relies on\<close>

text \<open>
  The contract of a dispatcher: a result has the identifier of its command, and the calls
  made are of a permitted kind.
\<close>

locale command_service =
  fixes answers :: "Command \<Rightarrow> CommandResult outcome \<Rightarrow> call list \<Rightarrow> bool"
    and permitted :: "call \<Rightarrow> bool"
  assumes answer_id: "answers cmd (Done r) tr \<Longrightarrow> cr_CommandId r = cmd_CommandId cmd"
    and calls_permitted: "answers cmd out tr \<Longrightarrow> list_all permitted tr"
begin

lemma answered_once:
  assumes "(agent_step answers)\<^sup>*\<^sup>* new_agent_session s"
  shows "mset (map cmd_CommandId (as_received s)) =
    image_mset cmd_CommandId (as_running s) + mset (map cr_CommandId (as_answered s)) \<and>
    mset (sent_results (as_sent s)) \<subseteq># mset (as_answered s)"
  using assms
proof (induction rule: rtranclp_induct)
  case base
  then show ?case by (simp add: new_agent_session_def)
next
  case (step s t)
  from step.hyps(2) step.IH show ?case
  proof (cases rule: agent_step.cases)
    case (finish cmd r tr)
    then show ?thesis using step.IH answer_id [of cmd r tr]
      by (auto dest!: multi_member_split)
  next
    case (finish_unsent cmd r tr)
    then show ?thesis using step.IH answer_id [of cmd r tr]
      by (auto dest!: multi_member_split intro: subset_mset.order_trans)
  qed auto
qed

lemma session_calls_permitted:
  "(agent_step answers)\<^sup>*\<^sup>* new_agent_session s \<Longrightarrow> list_all permitted (as_calls s)"
proof (induction rule: rtranclp_induct)
  case base
  then show ?case by (simp add: new_agent_session_def)
next
  case (step s t)
  from step.hyps(2) step.IH show ?case
    by (elim agent_stepE) (auto dest: calls_permitted)
qed

end

section \<open>The dispatcher provides it\<close>

text \<open>
  The dispatcher of an agent on a host: any state of the host may be the one a goroutine
  finds, since others run beside it.
\<close>

definition dispatch_answers :: "'w host \<Rightarrow> Dispatcher \<Rightarrow> Command \<Rightarrow> CommandResult outcome \<Rightarrow> call list \<Rightarrow> bool" where
  "dispatch_answers h d cmd out tr \<longleftrightarrow>
     (\<exists>w w'. run_state (Dispatch h d cmd) \<lparr>world = w, trace = []\<rparr> = (out, \<lparr>world = w', trace = tr\<rparr>))"

interpretation dispatch: command_service "dispatch_answers h d" "agent_safe d" for h d
proof (unfold_locales, goal_cases)
  case (1 cmd r tr)
  then show ?case by (auto simp: dispatch_answers_def dest: Dispatch_result)
next
  case (2 cmd out tr)
  then obtain w w' where "run_state (Dispatch h d cmd) \<lparr>world = w, trace = []\<rparr> = (out, \<lparr>world = w', trace = tr\<rparr>)"
    by (auto simp: dispatch_answers_def)
  then show ?case using emitsE [OF emits_agent_Dispatch, of h d cmd "\<lparr>world = w, trace = []\<rparr>"]
    by auto
qed

section \<open>Properties\<close>

lemma agent_run_count:
  "map_option (\<lambda>(lg, a'). reconnects lg) (agent_run connect cancelled apiAddr 0 [] a) =
     (if \<exists>j. cancelled j then Some (LEAST j. cancelled j) else None)"
proof (cases "\<exists>j. cancelled j")
  case True
  let ?n = "LEAST j. cancelled j"
  have "\<exists>lg a'. agent_run connect cancelled apiAddr 0 [] a = Some (lg, a') \<and>
      reconnects lg = reconnects [] + ?n"
    by (rule agent_run_returns) (use True in \<open>auto dest: not_less_Least intro: LeastI_ex\<close>)
  then show ?thesis using True by auto
next
  case False
  then show ?thesis
    using agent_run_cancelled [of connect cancelled apiAddr 0 "[]" a]
    by (cases "agent_run connect cancelled apiAddr 0 [] a") auto
qed

lemma agent_run_status:
  "map_option (\<lambda>_. 0 :: nat) (agent_run connect cancelled apiAddr 0 [] a) =
     (if \<exists>j. cancelled j then Some 0 else None)"
  using agent_run_count [of connect cancelled apiAddr a]
  by (cases "agent_run connect cancelled apiAddr 0 [] a") (auto split: if_splits)

lemma agent_main_result:
  "case fst (run_state (agent_main getenv sql_open ping h fl) m) of
     Inl status \<Rightarrow> status = 1 \<and> flag_or_env getenv (fl_token fl) ''GRATIS_TOKEN'' = []
   | Inr (api, token, d) \<Rightarrow> flag_or_env getenv (fl_token fl) ''GRATIS_TOKEN'' \<noteq> []"
  by (auto simp: agent_main_def Let_def split: prod.splits)


text \<open>
  C12: every command is answered at most once, and none is lost. At every moment of a
  session the commands received are, as a multiset of identifiers, those still running and
  those answered; what was sent is part of the answers.
\<close>

theorem session_answers_once:
  assumes "session_reachable (dispatch_answers h d) s"
  shows "mset (map cmd_CommandId (as_received s)) =
    image_mset cmd_CommandId (as_running s) + mset (map cr_CommandId (as_answered s)) \<and>
    mset (sent_results (as_sent s)) \<subseteq># mset (as_answered s)"
  using dispatch.answered_once assms unfolding session_reachable_def .

text \<open>The witness: one restart command, refused by the list of services.\<close>

definition demo_command :: Command where
  "demo_command = \<lparr>cmd_CommandId = ''7'', cmd_Payload = Some (Command_RestartService \<lparr>rs_Service = ''sshd''\<rparr>)\<rparr>"

definition demo_refusal :: CommandResult where
  "demo_refusal = \<lparr>cr_CommandId = ''7'', cr_Success = False,
     cr_Error = ''service '' @ go_quote id ''sshd'' @ '' is not in the allowed restart list''\<rparr>"

definition demo_session :: agent_session where
  "demo_session = \<lparr>as_status = Live, as_received = [demo_command], as_running = {#},
     as_answered = [demo_refusal], as_sent = [Some (AgentMessage_CommandResult demo_refusal)], as_calls = []\<rparr>"

lemma demo_answer:
  "dispatch_answers quiet_host (NewDispatcher False None False) demo_command (Done demo_refusal) []"
  by (auto simp: dispatch_answers_def Dispatch_def demo_command_def demo_refusal_def
      handleRestartService_def allowed_services_def result_of_def quiet_host_def id_def)

lemma demo_session_reachable:
  "session_reachable (dispatch_answers quiet_host (NewDispatcher False None False)) demo_session"
proof -
  let ?ans = "dispatch_answers quiet_host (NewDispatcher False None False)"
  let ?s1 = "new_agent_session\<lparr>as_received := [demo_command], as_running := {#demo_command#}\<rparr>"
  have "agent_step ?ans new_agent_session ?s1"
    using agent_step.command [of new_agent_session ?ans demo_command] by (simp add: new_agent_session_def)
  moreover have "agent_step ?ans ?s1 demo_session"
    using agent_step.finish [of ?s1 demo_command ?ans demo_refusal "[]"] demo_answer
    by (simp add: new_agent_session_def demo_session_def)
  ultimately show ?thesis unfolding session_reachable_def by (meson converse_rtranclp_into_rtranclp r_into_rtranclp)
qed

theorem session_answers_once_witness:
  "mset (map cmd_CommandId (as_received demo_session)) =
    image_mset cmd_CommandId (as_running demo_session) + mset (map cr_CommandId (as_answered demo_session)) \<and>
    mset (sent_results (as_sent demo_session)) \<subseteq># mset (as_answered demo_session)"
  by (rule session_answers_once [OF demo_session_reachable])

definition sql_call :: "call \<Rightarrow> bool" where
  "sql_call c \<longleftrightarrow> (\<exists>stmt args. c = CSqlExec stmt args \<or> c = CSqlQueryRow stmt args)"

text \<open>
  C28: an agent that could not reach MariaDB when it started sends no SQL at all, whatever
  commands arrive in its sessions: the mail manager exists only on top of the database
  connection.
\<close>

theorem agent_without_db_sends_no_sql:
  assumes "NewDbManager sql_open ping (fl_dbSocket fl) = Inl e"
    and "run_state (agent_main getenv sql_open ping h fl) m = (Inr (api, token, d), m')"
    and "session_reachable (dispatch_answers h d) s"
  shows "m' = m \<and> token \<noteq> [] \<and> filter sql_call (as_calls s) = []"
proof -
  have d: "\<not> d_db d \<and> \<not> d_email d" and "m' = m" "token \<noteq> []"
    using assms(1,2) by (auto simp: agent_main_def Let_def NewDispatcher_def split: if_splits)
  have "list_all (agent_safe d) (as_calls s)"
    using dispatch.session_calls_permitted assms(3) unfolding session_reachable_def .
  then have "list_all (\<lambda>c. \<not> sql_call c) (as_calls s)"
    by (rule list.pred_mono_strong) (use d in \<open>auto simp: agent_safe_def sql_call_def\<close>)
  then show ?thesis
    using \<open>m' = m\<close> \<open>token \<noteq> []\<close> by (simp add: filter_empty_conv list_all_iff)
qed

theorem agent_without_db_sends_no_sql_witness:
  "\<lparr>world = (), trace = []\<rparr> = \<lparr>world = (), trace = []\<rparr> \<and> ''t'' \<noteq> [] \<and>
     filter sql_call (as_calls demo_session) = []"
  by (rule agent_without_db_sends_no_sql [where sql_open = "\<lambda>_. Inr ()" and ping = "\<lambda>_. Some ''down''"
        and fl = "\<lparr>fl_api = ''a'', fl_token = ''t'', fl_dbSocket = ''s'', fl_pdnsURL = [], fl_pdnsKey = []\<rparr>"
        and getenv = "\<lambda>_. []" and api = "''a''", OF _ _ demo_session_reachable])
    (simp_all add: agent_main_def NewDbManager_def flag_or_env_def NewDispatcher_def)

end
