(* ===== verification/Network.thy ===== *)
theory Network
  imports ServerRun AgentRpc
begin

text \<open>
  Server and agents together. Theory \<open>Server\<close> lets any message arrive from a stream and
  theory \<open>AgentRpc\<close> any command; here each session of the server has an agent at the other
  end of its stream, and what arrives is what was sent. So the result that a call returns
  can be traced to the agent that computed it.
\<close>

section \<open>State and steps\<close>

text \<open>
  Agents and streams have the numbers of the sessions. \<open>nw_down\<close> and \<open>nw_up\<close> are the
  messages under way; \<open>nw_log\<close> is the history of what \<open>SendCommand\<close> has sent: the
  identifier, the call, the session and the payload of each command, and \<open>nw_asked\<close> of
  what each call was asked to send, and to which server.
\<close>

record network =
  nw_server :: server
  nw_agents :: "nat \<Rightarrow> agent_session"
  nw_down :: "nat \<Rightarrow> ServerMessage list"
  nw_up :: "nat \<Rightarrow> AgentMessage list"
  nw_log :: "(string \<times> nat \<times> nat \<times> CommandPayload option) set"
  nw_asked :: "nat \<rightharpoonup> string \<times> CommandPayload option"

definition new_network :: network where
  "new_network = \<lparr>nw_server = NewServer, nw_agents = (\<lambda>_. new_agent_session), nw_down = (\<lambda>_. []),
     nw_up = (\<lambda>_. []), nw_log = {}, nw_asked = Map.empty\<rparr>"

text \<open>
  The queue of a session and what it keeps of the heartbeats; a step of the server that touches
  no queue, takes nothing from a stream and begins no call.
\<close>

definition queue :: "server \<Rightarrow> nat \<Rightarrow> ServerMessage list" where
  "queue s k = (case sessions s k of None \<Rightarrow> [] | Some a \<Rightarrow> ss_send a)"

definition shown :: "server \<Rightarrow> nat \<Rightarrow> SystemMetrics option \<times> int" where
  "shown s k = (case sessions s k of None \<Rightarrow> (None, 0) | Some a \<Rightarrow> (ss_lastMetrics a, ss_lastSeen a))"

definition quiet_step :: "(string \<Rightarrow> string) \<Rightarrow> server \<Rightarrow> server \<Rightarrow> bool" where
  "quiet_step quote s t \<longleftrightarrow> server_step quote s t \<and> queue t = queue s \<and> shown t = shown s \<and>
     (\<forall>k i r. delivering t k i r \<longrightarrow> delivering s k i r) \<and> dom (calls t) \<subseteq> dom (calls s)"

text \<open>
  \<open>answers k\<close> is the dispatcher of agent \<open>k\<close>. An agent ignores what is no command; a
  stream that breaks loses the messages at its end.
\<close>

inductive network_step :: "(string \<Rightarrow> string) \<Rightarrow> (nat \<Rightarrow> Command \<Rightarrow> CommandResult outcome \<Rightarrow> call list \<Rightarrow> bool)
    \<Rightarrow> network \<Rightarrow> network \<Rightarrow> bool" for quote answers where
  server: "quiet_step quote (nw_server n) t \<Longrightarrow> network_step quote answers n (n\<lparr>nw_server := t\<rparr>)"
| call: "calls (nw_server n) i = None \<Longrightarrow>
     network_step quote answers n (n\<lparr>nw_server := set_call i (Start serverID p) (nw_server n),
       nw_asked := (nw_asked n)(i \<mapsto> (serverID, p))\<rparr>)"
| send: "calls (nw_server n) i = Some (Sending k cid p) \<Longrightarrow> sessions (nw_server n) k = Some a \<Longrightarrow>
     length (ss_send a) < send_capacity \<Longrightarrow>
     network_step quote answers n (n\<lparr>nw_server := set_call i (Waiting cid) (set_session k
         (a\<lparr>ss_send := ss_send a @ [Some (ServerMessage_Command \<lparr>cmd_CommandId = cid, cmd_Payload = p\<rparr>)]\<rparr>)
         (nw_server n)),
       nw_log := insert (cid, i, k, p) (nw_log n)\<rparr>)"
| transmit: "sessions (nw_server n) k = Some a \<Longrightarrow> ss_pc a = Looping \<Longrightarrow> ss_send a = msg # rest \<Longrightarrow>
     network_step quote answers n (n\<lparr>nw_server := set_session k (a\<lparr>ss_send := rest\<rparr>) (nw_server n),
       nw_down := (nw_down n)(k := nw_down n k @ [msg])\<rparr>)"
| receive: "sessions (nw_server n) k = Some a \<Longrightarrow> ss_pc a = Looping \<Longrightarrow> nw_up n k = msg # ms \<Longrightarrow>
     network_step quote answers n (n\<lparr>nw_server := handleAgentMessage k a now msg (nw_server n),
       nw_up := (nw_up n)(k := ms)\<rparr>)"
| command: "nw_down n k = Some (ServerMessage_Command cmd) # ms \<Longrightarrow> as_status (nw_agents n k) = Live \<Longrightarrow>
     network_step quote answers n (n\<lparr>nw_agents := (nw_agents n)(k := (nw_agents n k)
         \<lparr>as_received := as_received (nw_agents n k) @ [cmd],
          as_running := add_mset cmd (as_running (nw_agents n k))\<rparr>),
       nw_down := (nw_down n)(k := ms)\<rparr>)"
| no_command: "nw_down n k = msg # ms \<Longrightarrow> (\<And>cmd. msg \<noteq> Some (ServerMessage_Command cmd)) \<Longrightarrow>
     network_step quote answers n (n\<lparr>nw_down := (nw_down n)(k := ms)\<rparr>)"
| agent: "agent_step (answers k) (nw_agents n k) b \<Longrightarrow> as_received b = as_received (nw_agents n k) \<Longrightarrow>
     network_step quote answers n (n\<lparr>nw_agents := (nw_agents n)(k := b),
       nw_up := (nw_up n)(k := nw_up n k @ drop (length (as_sent (nw_agents n k))) (as_sent b))\<rparr>)"
| broken: "network_step quote answers n (n\<lparr>nw_down := (nw_down n)(k := take i (nw_down n k)),
       nw_up := (nw_up n)(k := take j (nw_up n k))\<rparr>)"

definition network_reachable :: "(string \<Rightarrow> string) \<Rightarrow> (nat \<Rightarrow> Command \<Rightarrow> CommandResult outcome \<Rightarrow> call list \<Rightarrow> bool)
    \<Rightarrow> network \<Rightarrow> bool" where
  "network_reachable quote answers n \<longleftrightarrow> (network_step quote answers)\<^sup>*\<^sup>* new_network n"

inductive_cases network_stepE: "network_step quote answers n n'"

section \<open>The parts take their own steps\<close>

lemma network_server:
  "network_step quote answers n n' \<Longrightarrow>
     nw_server n' = nw_server n \<or> server_step quote (nw_server n) (nw_server n')"
  by (elim network_stepE) (auto simp: quiet_step_def intro: server_step.intros)

lemma network_agent:
  "network_step quote answers n n' \<Longrightarrow>
     nw_agents n' k = nw_agents n k \<or> agent_step (answers k) (nw_agents n k) (nw_agents n' k)"
  by (elim network_stepE) (auto intro: agent_step.command)

lemma network_server_reachable:
  "(network_step quote answers)\<^sup>*\<^sup>* new_network n \<Longrightarrow> reachable quote (nw_server n)"
proof (induction rule: rtranclp_induct)
  case base
  then show ?case by (simp add: new_network_def reachable.init)
next
  case (step n n')
  then show ?case using network_server [OF step.hyps(2)] by (auto intro: reachable.step)
qed

section \<open>Results on the server\<close>

text \<open>The results that are somewhere between a session and the caller.\<close>

definition server_results :: "server \<Rightarrow> CommandResult set" where
  "server_results s = {r. (\<exists>k i. delivering s k i r) \<or> (\<exists>i. r \<in> set (chans s i)) \<or>
     (\<exists>i c. calls s i = Some (Returned c (Inr r)))}"

lemma chans_step:
  assumes "server_step quote s t" and "r \<in> set (chans t i)"
  shows "r \<in> set (chans s i) \<or> (\<exists>k. delivering s k i r)"
  using assms
proof (cases rule: server_step.cases)
  case (receive k a now msg)
  then show ?thesis using assms(2) handleAgentMessage_cases [of k a now msg s] by auto
qed (auto simp: registerAgent_def unregisterAgent_def delivering_def split: if_splits)

lemma returned_step:
  assumes "server_step quote s t" and "calls t i = Some (Returned c (Inr r))"
  shows "calls s i = Some (Returned c (Inr r)) \<or> r \<in> set (chans s i)"
  using assms
proof (cases rule: server_step.cases)
  case (receive k a now msg)
  then show ?thesis using assms(2) handleAgentMessage_cases [of k a now msg s] by auto
qed (auto simp: registerAgent_def unregisterAgent_def split: if_splits)

lemma server_resultsI:
  "delivering s k i r \<Longrightarrow> r \<in> server_results s"
  "r \<in> set (chans s i) \<Longrightarrow> r \<in> server_results s"
  "calls s i = Some (Returned c (Inr r)) \<Longrightarrow> r \<in> server_results s"
  by (auto simp: server_results_def)

lemma results_of_step:
  assumes "server_step quote s t" and "r \<in> server_results t"
  shows "r \<in> server_results s \<or> (\<exists>k i. delivering t k i r \<and> \<not> delivering s k i r)"
proof -
  consider (d) k i where "delivering t k i r" | (c) i where "r \<in> set (chans t i)"
    | (v) i c where "calls t i = Some (Returned c (Inr r))"
    using assms(2) unfolding server_results_def by blast
  then show ?thesis
  proof cases
    case d
    then show ?thesis using server_resultsI(1) by blast
  next
    case c
    then show ?thesis using chans_step [OF assms(1)] server_resultsI(1,2) by metis
  next
    case v
    then show ?thesis using returned_step [OF assms(1)] server_resultsI(2,3) by metis
  qed
qed

text \<open>A new delivery is the reception of its result.\<close>

lemma receive_results:
  assumes "sessions s k = Some a" and "ss_pc a = Looping"
    and "r \<in> server_results (handleAgentMessage k a now msg s)"
  shows "r \<in> server_results s \<or> msg = Some (AgentMessage_CommandResult r)"
proof (cases "r \<in> server_results s")
  case False
  then obtain k' i where "delivering (handleAgentMessage k a now msg s) k' i r" "\<not> delivering s k' i r"
    using results_of_step [OF server_step.receive [OF assms(1,2)] assms(3)] by blast
  then show ?thesis using handleAgentMessage_cases [of k a now msg s] assms(1,2)
    by (auto simp: delivering_def split: if_splits)
qed simp

section \<open>Results on the agent\<close>

lemma agent_sent:
  assumes "agent_step ans a b" and "as_received b = as_received a"
  shows "\<exists>ms. as_sent b = as_sent a @ ms \<and> as_running b \<subseteq># as_running a \<and>
    (\<forall>r. Some (AgentMessage_CommandResult r) \<in> set ms \<longrightarrow>
      (\<exists>cmd tr. cmd \<in># as_running a \<and> ans cmd (Done r) tr))"
  using assms by (elim agent_stepE) auto

section \<open>The invariant\<close>

text \<open>The identifier of a call that has sent its command; it never changes again.\<close>

fun sent_id :: "call_pc \<Rightarrow> string option" where
  "sent_id (Waiting c) = Some c"
| "sent_id (Expired c) = Some c"
| "sent_id (Returned c r) = c"
| "sent_id _ = None"

lemma sent_id_step:
  assumes "server_step quote s t" and "calls s i = Some pc" and "sent_id pc = Some c"
  shows "\<exists>pc'. calls t i = Some pc' \<and> sent_id pc' = Some c"
  using assms
proof (cases rule: server_step.cases)
  case (receive k a now msg)
  then show ?thesis using assms(2,3) handleAgentMessage_cases [of k a now msg s] by auto
qed (auto simp: registerAgent_def unregisterAgent_def)

text \<open>A command of the log, for a session; a result that its agent computed for one.\<close>

definition logged :: "network \<Rightarrow> nat \<Rightarrow> Command \<Rightarrow> bool" where
  "logged n k cmd \<longleftrightarrow> (\<exists>i. (cmd_CommandId cmd, i, k, cmd_Payload cmd) \<in> nw_log n)"

definition genuine :: "(nat \<Rightarrow> Command \<Rightarrow> CommandResult outcome \<Rightarrow> call list \<Rightarrow> bool) \<Rightarrow> network
    \<Rightarrow> CommandResult \<Rightarrow> bool" where
  "genuine answers n r \<longleftrightarrow> (\<exists>k cmd tr. logged n k cmd \<and> answers k cmd (Done r) tr)"

definition log_inv :: "network \<Rightarrow> bool" where
  "log_inv n \<longleftrightarrow> (\<forall>c i k p. (c, i, k, p) \<in> nw_log n \<longrightarrow>
     (\<exists>pc. calls (nw_server n) i = Some pc \<and> sent_id pc = Some c) \<and>
     (\<forall>c' k' p'. (c', i, k', p') \<in> nw_log n \<longrightarrow> c' = c \<and> k' = k \<and> p' = p))"

text \<open>The log only grows, so what was logged or genuine stays so.\<close>

lemma log_grows: "network_step quote answers n n' \<Longrightarrow> nw_log n \<subseteq> nw_log n'"
  by (elim network_stepE) auto

lemma logged_step: "network_step quote answers n n' \<Longrightarrow> logged n k cmd \<Longrightarrow> logged n' k cmd"
  using log_grows by (fastforce simp: logged_def)

lemma genuine_step: "network_step quote answers n n' \<Longrightarrow> genuine answers n r \<Longrightarrow> genuine answers n' r"
  using logged_step by (fastforce simp: genuine_def)

lemma log_inv_call:
  "log_inv n \<Longrightarrow> (c, i, k, p) \<in> nw_log n \<Longrightarrow> \<exists>pc. calls (nw_server n) i = Some pc \<and> sent_id pc = Some c"
  unfolding log_inv_def by blast

lemma log_inv_unique:
  "log_inv n \<Longrightarrow> (c, i, k, p) \<in> nw_log n \<Longrightarrow> (c', i, k', p') \<in> nw_log n \<Longrightarrow>
     c' = c \<and> k' = k \<and> p' = p"
  unfolding log_inv_def by blast

lemma log_calls_step:
  assumes "network_step quote answers n n'" and "log_inv n" and "(c, i, k, p) \<in> nw_log n"
  shows "\<exists>pc. calls (nw_server n') i = Some pc \<and> sent_id pc = Some c"
proof -
  obtain pc where pc: "calls (nw_server n) i = Some pc" "sent_id pc = Some c"
    using log_inv_call [OF assms(2,3)] by blast
  from network_server [OF assms(1)] show ?thesis
    using pc sent_id_step [OF _ pc] by auto
qed

text \<open>Only a send writes the log, for a call that is not in it.\<close>

lemma log_written:
  assumes "network_step quote answers n n'" and "log_inv n" and "nw_log n' \<noteq> nw_log n"
  obtains j k c p where "nw_log n' = insert (c, j, k, p) (nw_log n)"
    and "calls (nw_server n') j = Some (Waiting c)" and "\<And>c' k' p'. (c', j, k', p') \<notin> nw_log n"
proof -
  obtain j k c p where j: "calls (nw_server n) j = Some (Sending k c p)"
    "nw_log n' = insert (c, j, k, p) (nw_log n)" "calls (nw_server n') j = Some (Waiting c)"
    using assms(1,3) by (elim network_stepE) auto
  have "(c', j, k', p') \<notin> nw_log n" for c' k' p'
    using log_inv_call [OF assms(2), of c' j k' p'] j(1) by auto
  with j show thesis by (intro that)
qed

lemma log_inv_step:
  assumes step: "network_step quote answers n n'" and inv: "log_inv n"
  shows "log_inv n'"
proof (cases "nw_log n' = nw_log n")
  case True
  then show ?thesis using log_calls_step [OF step inv] log_inv_unique [OF inv]
    unfolding log_inv_def by metis
next
  case False
  obtain j k c p where j: "nw_log n' = insert (c, j, k, p) (nw_log n)"
    "calls (nw_server n') j = Some (Waiting c)" "\<And>c' k' p'. (c', j, k', p') \<notin> nw_log n"
    by (rule log_written [OF step inv False]) blast
  show ?thesis unfolding log_inv_def
  proof (intro allI impI)
    fix c1 i k1 p1 assume new: "(c1, i, k1, p1) \<in> nw_log n'"
    show "(\<exists>pc. calls (nw_server n') i = Some pc \<and> sent_id pc = Some c1) \<and>
      (\<forall>c' k' p'. (c', i, k', p') \<in> nw_log n' \<longrightarrow> c' = c1 \<and> k' = k1 \<and> p' = p1)"
    proof (cases "i = j")
      case True
      then have only: "c' = c \<and> k' = k \<and> p' = p" if "(c', i, k', p') \<in> nw_log n'" for c' k' p'
        using that j(3) [of c' k' p'] unfolding j(1) by blast
      show ?thesis using only [OF new] only j(2) True by (metis sent_id.simps(1))
    next
      case False
      then have old: "(c1, i, k1, p1) \<in> nw_log n" using new j(1) by simp
      show ?thesis using log_calls_step [OF step inv old] log_inv_unique [OF inv old] False j(1) by auto
    qed
  qed
qed

lemma queue_set_session:
  "queue (set_call i pc s) = queue s"
  "queue (set_session k a s) j = (if j = k then ss_send a else queue s j)"
  by (auto simp: queue_def)

lemma queue_receive:
  "sessions s k = Some a \<Longrightarrow> queue (handleAgentMessage k a now msg s) = queue s"
  using handleAgentMessage_cases [of k a now msg s] by (auto simp: queue_def fun_eq_iff)

lemma quiet_queue: "quiet_step quote s t \<Longrightarrow> queue t = queue s"
  by (simp add: quiet_step_def)

text \<open>
  The commands on the way to an agent, and the results on the way back: each is from the
  step before, or sent just now, or computed just now for a command of the log.
\<close>

definition travelling :: "network \<Rightarrow> nat \<Rightarrow> Command \<Rightarrow> bool" where
  "travelling n k cmd \<longleftrightarrow> Some (ServerMessage_Command cmd) \<in> set (queue (nw_server n) k) \<or>
     Some (ServerMessage_Command cmd) \<in> set (nw_down n k) \<or> cmd \<in># as_running (nw_agents n k)"

definition returning :: "network \<Rightarrow> CommandResult \<Rightarrow> bool" where
  "returning n r \<longleftrightarrow> r \<in> server_results (nw_server n) \<or>
     (\<exists>k. Some (AgentMessage_CommandResult r) \<in> set (nw_up n k))"

lemma travelling_step:
  assumes "network_step quote answers n n'" and "travelling n' k cmd"
  shows "travelling n k cmd \<or> logged n' k cmd"
  using assms(1)
proof (cases rule: network_step.cases)
  case (send i j cid p a)
  then show ?thesis using assms(2)
    by (auto simp: travelling_def logged_def queue_set_session queue_def split: if_splits)
next
  case (agent k' b)
  then show ?thesis using agent_sent [OF agent(2,3)] assms(2)
    by (auto simp: travelling_def split: if_splits dest: mset_subset_eqD)
next
  case (broken k' i j)
  then show ?thesis using assms(2) by (auto simp: travelling_def split: if_splits dest: in_set_takeD)
qed (use assms(2) in \<open>auto simp: travelling_def queue_set_session queue_receive queue_def
  quiet_queue split: if_splits\<close>)

lemma returning_server:
  assumes "network_step quote answers n n'" and "r \<in> server_results (nw_server n')"
  shows "returning n r"
  using assms(1)
proof (cases rule: network_step.cases)
  case (server t)
  then show ?thesis using results_of_step [of quote "nw_server n" t r] assms(2)
    by (auto simp: quiet_step_def returning_def)
next
  case (receive k a msg ms now)
  then show ?thesis using receive_results [OF receive(2,3), of r now msg] assms(2)
    by (auto simp: returning_def intro: exI [of _ k])
qed (use assms(2) in \<open>auto simp: returning_def server_results_def delivering_def split: if_splits\<close>)

lemma returning_up:
  assumes "network_step quote answers n n'" and "Some (AgentMessage_CommandResult r) \<in> set (nw_up n' k)"
  shows "returning n r \<or> (\<exists>cmd tr. travelling n k cmd \<and> answers k cmd (Done r) tr)"
  using assms(1)
proof (cases rule: network_step.cases)
  case (agent k' b)
  then show ?thesis using agent_sent [OF agent(2,3)] assms(2)
    by (auto simp: returning_def travelling_def split: if_splits)
next
  case (broken k' i j)
  then show ?thesis using assms(2) by (auto simp: returning_def split: if_splits dest: in_set_takeD)
qed (use assms(2) in \<open>auto simp: returning_def split: if_splits intro: exI [of _ k]\<close>)

text \<open>So every command that travels is of the log, and every result comes from one.\<close>

definition network_inv :: "(nat \<Rightarrow> Command \<Rightarrow> CommandResult outcome \<Rightarrow> call list \<Rightarrow> bool) \<Rightarrow> network \<Rightarrow> bool" where
  "network_inv answers n \<longleftrightarrow> log_inv n \<and> (\<forall>k cmd. travelling n k cmd \<longrightarrow> logged n k cmd) \<and>
     (\<forall>r. returning n r \<longrightarrow> genuine answers n r)"

lemma network_inv_step:
  assumes step: "network_step quote answers n n'" and inv: "network_inv answers n"
  shows "network_inv answers n'"
proof -
  have old: "travelling n k cmd \<Longrightarrow> logged n k cmd" "returning n r \<Longrightarrow> genuine answers n r" for k cmd r
    using inv by (auto simp: network_inv_def)
  have "log_inv n'" using log_inv_step [OF step] inv by (simp add: network_inv_def)
  moreover have "logged n' k cmd" if "travelling n' k cmd" for k cmd
    using travelling_step [OF step that] old(1) logged_step [OF step] by blast
  moreover have "genuine answers n' r" if "returning n' r" for r
  proof -
    have "genuine answers n r"
      using that returning_server [OF step] returning_up [OF step] old
      unfolding returning_def [of n'] genuine_def by blast
    then show ?thesis by (rule genuine_step [OF step])
  qed
  ultimately show ?thesis by (simp add: network_inv_def)
qed

lemma network_inv_reachable:
  "(network_step quote answers)\<^sup>*\<^sup>* new_network n \<Longrightarrow> network_inv answers n"
proof (induction rule: rtranclp_induct)
  case base
  then show ?case
    by (simp add: network_inv_def log_inv_def travelling_def returning_def queue_def
        server_results_def delivering_def new_network_def NewServer_def new_agent_session_def)
next
  case (step n n')
  then show ?case by (blast intro: network_inv_step)
qed

section \<open>The server that was asked\<close>

text \<open>The session and payload of a call that has looked up its server.\<close>

fun target :: "call_pc \<Rightarrow> (nat \<times> CommandPayload option) option" where
  "target (Found k p) = Some (k, p)"
| "target (Sending k c p) = Some (k, p)"
| "target _ = None"

lemma target_step:
  assumes "server_step quote s t" and "calls t i = Some pc'" and "target pc' = Some (k, p)"
  shows "(\<exists>pc. calls s i = Some pc \<and> target pc = Some (k, p)) \<or>
    (\<exists>sid. calls s i = Some (Start sid p) \<and> agents s sid = Some k)"
  using assms
proof (cases rule: server_step.cases)
  case (receive k' a now msg)
  then show ?thesis using assms(2,3) handleAgentMessage_cases [of k' a now msg s] by auto
qed (auto simp: registerAgent_def unregisterAgent_def split: if_splits)

lemma start_step:
  assumes "server_step quote s t" and "calls t i = Some (Start sid p)"
  shows "calls s i = Some (Start sid p) \<or> calls s i = None"
  using assms
proof (cases rule: server_step.cases)
  case (receive k' a now msg)
  then show ?thesis using assms(2) handleAgentMessage_cases [of k' a now msg s] by auto
qed (auto simp: registerAgent_def unregisterAgent_def split: if_splits)

lemma serverID_step:
  assumes "server_step quote s t" and "sessions s k = Some a"
  shows "\<exists>b. sessions t k = Some b \<and> ss_serverID b = ss_serverID a"
  using assms
proof (cases rule: server_step.cases)
  case (receive k' a' now msg)
  then show ?thesis using assms(2) handleAgentMessage_cases [of k' a' now msg s] by auto
qed (auto simp: registerAgent_def unregisterAgent_def)

text \<open>Call \<open>i\<close> was asked to send \<open>p\<close> to the server of session \<open>k\<close>.\<close>

definition asks :: "network \<Rightarrow> nat \<Rightarrow> nat \<Rightarrow> CommandPayload option \<Rightarrow> bool" where
  "asks n i k p \<longleftrightarrow> (\<exists>a. sessions (nw_server n) k = Some a \<and> nw_asked n i = Some (ss_serverID a, p))"

definition asked_inv :: "network \<Rightarrow> bool" where
  "asked_inv n \<longleftrightarrow>
     (\<forall>i sid p. calls (nw_server n) i = Some (Start sid p) \<longrightarrow> nw_asked n i = Some (sid, p)) \<and>
     (\<forall>i pc k p. calls (nw_server n) i = Some pc \<longrightarrow> target pc = Some (k, p) \<longrightarrow> asks n i k p) \<and>
     (\<forall>c i k p. (c, i, k, p) \<in> nw_log n \<longrightarrow> asks n i k p)"

lemma asked_kept:
  "network_step quote answers n n' \<Longrightarrow> calls (nw_server n) i \<noteq> None \<Longrightarrow> nw_asked n' i = nw_asked n i"
  by (elim network_stepE) auto

lemma asks_step:
  assumes "network_step quote answers n n'" and "asks n i k p" and "calls (nw_server n) i \<noteq> None"
  shows "asks n' i k p"
  using network_server [OF assms(1)] asked_kept [OF assms(1,3)] assms(2) serverID_step
  unfolding asks_def by metis

lemma asked_start:
  assumes "network_step quote answers n n'" and "calls (nw_server n') i = Some (Start sid p)"
    and "calls (nw_server n) i = None"
  shows "nw_asked n' i = Some (sid, p)"
  using assms
proof (cases rule: network_step.cases)
  case (receive k a msg ms now)
  then show ?thesis using assms(2,3) handleAgentMessage_cases [of k a now msg "nw_server n"] by auto
qed (auto simp: quiet_step_def split: if_splits)

lemma log_step:
  assumes "network_step quote answers n n'" and "(c, i, k, p) \<in> nw_log n'"
  shows "(c, i, k, p) \<in> nw_log n \<or> calls (nw_server n) i = Some (Sending k c p)"
  using assms by (elim network_stepE) auto

lemma asked_inv_step:
  assumes step: "network_step quote answers n n'" and inv: "asked_inv n"
    and ok: "log_inv n" "registry_ok (nw_server n)"
  shows "asked_inv n'"
proof -
  note old = inv [unfolded asked_inv_def]
  have "nw_asked n' i = Some (sid, p)" if "calls (nw_server n') i = Some (Start sid p)" for i sid p
  proof (cases "calls (nw_server n) i = None")
    case False
    then have "calls (nw_server n) i = Some (Start sid p)"
      using network_server [OF step] start_step that by metis
    then show ?thesis using old asked_kept [OF step False] by simp
  qed (rule asked_start [OF step that])
  moreover have tgt: "asks n' i k p"
    if "calls (nw_server n) i = Some pc" and "target pc = Some (k, p)" for i pc k p
    by (rule asks_step [OF step]) (use old that in auto)
  moreover have "asks n' i k p"
    if new: "calls (nw_server n') i = Some pc" "target pc = Some (k, p)" for i pc k p
  proof -
    consider (same) pc' where "calls (nw_server n) i = Some pc'" "target pc' = Some (k, p)"
      | (found) sid where "calls (nw_server n) i = Some (Start sid p)" "agents (nw_server n) sid = Some k"
      using network_server [OF step] target_step [OF _ new] new by metis
    then show ?thesis
    proof cases
      case same
      then show ?thesis by (rule tgt)
    next
      case found
      obtain a where "sessions (nw_server n) k = Some a" "ss_serverID a = sid"
        using ok(2) found(2) unfolding registry_ok_def by blast
      moreover have "nw_asked n i = Some (sid, p)" using old found(1) by blast
      ultimately have "asks n i k p" by (auto simp: asks_def)
      then show ?thesis by (rule asks_step [OF step]) (simp add: found(1))
    qed
  qed
  moreover have "asks n' i k p" if "(c, i, k, p) \<in> nw_log n'" for c i k p
    using log_step [OF step that]
  proof
    assume c: "(c, i, k, p) \<in> nw_log n"
    then have "calls (nw_server n) i \<noteq> None" using log_inv_call [OF ok(1)] by blast
    then show ?thesis using asks_step [OF step] old c by blast
  qed (auto intro: tgt)
  ultimately show ?thesis unfolding asked_inv_def by blast
qed

lemma asked_inv_reachable:
  "(network_step quote answers)\<^sup>*\<^sup>* new_network n \<Longrightarrow> asked_inv n"
proof (induction rule: rtranclp_induct)
  case base
  then show ?case by (simp add: asked_inv_def new_network_def NewServer_def)
next
  case (step n n')
  then show ?case
    using asked_inv_step network_inv_reachable [OF step.hyps(1)]
      reachable_inv [OF network_server_reachable [OF step.hyps(1)]]
    by (simp add: network_inv_def server_inv_def)
qed

section \<open>Heartbeats\<close>

text \<open>What a stream carries up was sent by its agent, and so were the metrics of its session.\<close>

definition beats_inv :: "network \<Rightarrow> bool" where
  "beats_inv n \<longleftrightarrow> (\<forall>k. set (nw_up n k) \<subseteq> set (as_sent (nw_agents n k))) \<and>
     (\<forall>k a m. sessions (nw_server n) k = Some a \<longrightarrow> ss_lastMetrics a = Some m \<longrightarrow>
        (\<exists>hb. Some (AgentMessage_Heartbeat hb) \<in> set (as_sent (nw_agents n k)) \<and> hb_Metrics hb = Some m))"

lemma beats_invD:
  assumes "beats_inv n"
  shows "msg \<in> set (nw_up n k) \<Longrightarrow> msg \<in> set (as_sent (nw_agents n k))"
    and "sessions (nw_server n) k = Some a \<Longrightarrow> ss_lastMetrics a = Some m \<Longrightarrow>
      \<exists>hb. Some (AgentMessage_Heartbeat hb) \<in> set (as_sent (nw_agents n k)) \<and> hb_Metrics hb = Some m"
  using assms unfolding beats_inv_def by blast+

lemma sent_grows:
  assumes "network_step quote answers n n'"
  shows "set (as_sent (nw_agents n k)) \<subseteq> set (as_sent (nw_agents n' k))"
  using network_agent [OF assms, of k] by (auto elim: agent_stepE)

lemma up_step:
  assumes "network_step quote answers n n'" and "msg \<in> set (nw_up n' k)"
  shows "msg \<in> set (nw_up n k) \<or> msg \<in> set (as_sent (nw_agents n' k))"
  using assms by (elim network_stepE) (auto split: if_splits dest: in_set_takeD in_set_dropD)

lemma quiet_metrics:
  assumes "quiet_step quote s t" and "sessions t k = Some b" and "ss_lastMetrics b = Some m"
  obtains a where "sessions s k = Some a" and "ss_lastMetrics a = Some m"
proof -
  have "fst (shown s k) = Some m" using assms by (metis quiet_step_def shown_def option.case(2) fst_conv)
  then show thesis using that by (auto simp: shown_def split: option.splits)
qed

lemma metrics_step:
  assumes "network_step quote answers n n'" and "sessions (nw_server n') k = Some b" and "ss_lastMetrics b = Some m"
  shows "(\<exists>a. sessions (nw_server n) k = Some a \<and> ss_lastMetrics a = Some m) \<or>
    (\<exists>hb. Some (AgentMessage_Heartbeat hb) \<in> set (nw_up n k) \<and> hb_Metrics hb = Some m)"
  using assms(1)
proof (cases rule: network_step.cases)
  case (server t)
  from quiet_metrics [OF server(2), of k b m] show ?thesis using assms(2,3) server(1) by auto
next
  case (receive k' a msg ms now)
  then show ?thesis using assms(2,3) handleAgentMessage_cases [of k' a now msg "nw_server n"]
    by (auto split: if_splits)
qed (use assms(2,3) in \<open>auto split: if_splits\<close>)

lemma beats_inv_step:
  assumes step: "network_step quote answers n n'" and inv: "beats_inv n"
  shows "beats_inv n'"
  unfolding beats_inv_def
proof (intro conjI allI impI subsetI)
  fix k msg assume "msg \<in> set (nw_up n' k)"
  then show "msg \<in> set (as_sent (nw_agents n' k))"
    using up_step [OF step] beats_invD(1) [OF inv] sent_grows [OF step] by blast
next
  fix k b m assume k: "sessions (nw_server n') k = Some b" "ss_lastMetrics b = Some m"
  have "\<exists>hb. Some (AgentMessage_Heartbeat hb) \<in> set (as_sent (nw_agents n k)) \<and> hb_Metrics hb = Some m"
    using metrics_step [OF step k] beats_invD [OF inv] by blast
  then show "\<exists>hb. Some (AgentMessage_Heartbeat hb) \<in> set (as_sent (nw_agents n' k)) \<and> hb_Metrics hb = Some m"
    using sent_grows [OF step] by blast
qed

lemma beats_inv_reachable: "network_reachable quote answers n \<Longrightarrow> beats_inv n"
  unfolding network_reachable_def
proof (induction rule: rtranclp_induct)
  case base
  then show ?case by (simp add: beats_inv_def new_network_def NewServer_def)
next
  case (step n n')
  then show ?case by (blast intro: beats_inv_step)
qed

section \<open>Properties\<close>

text \<open>With dispatchers that answer under the identifier of the command.\<close>

lemma result_traced:
  assumes reach: "(network_step quote answers)\<^sup>*\<^sup>* new_network n"
    and ids: "\<And>k cmd r tr. answers k cmd (Done r) tr \<Longrightarrow> cr_CommandId r = cmd_CommandId cmd"
    and ret: "calls (nw_server n) i = Some (Returned c (Inr r))"
  shows "\<exists>k p tr. asks n i k p \<and> answers k \<lparr>cmd_CommandId = cr_CommandId r, cmd_Payload = p\<rparr> (Done r) tr"
proof -
  have inv: "network_inv answers n" by (rule network_inv_reachable [OF reach])
  have srv: "results_ok (nw_server n)" "ids_ok (nw_server n)"
    using reachable_inv [OF network_server_reachable [OF reach]] by (auto simp: server_inv_def)
  have "returning n r" unfolding returning_def using server_resultsI(3) [OF ret] by blast
  then obtain k cmd tr j where a: "answers k cmd (Done r) tr"
    and log: "(cmd_CommandId cmd, j, k, cmd_Payload cmd) \<in> nw_log n"
    using inv by (auto simp: network_inv_def genuine_def logged_def)
  have id: "cr_CommandId r = cmd_CommandId cmd" by (rule ids [OF a])
  have "issued (nw_server n) i = Some (cmd_CommandId cmd)"
    using srv(1) ret unfolding results_ok_def id [symmetric] by (simp add: issued_def)
  moreover obtain pc where "calls (nw_server n) j = Some pc" "sent_id pc = Some (cmd_CommandId cmd)"
    using log_inv_call [OF _ log] inv by (auto simp: network_inv_def)
  then have "issued (nw_server n) j = Some (cmd_CommandId cmd)"
    by (cases pc) (auto simp: issued_def)
  ultimately have "j = i" using srv(2) unfolding ids_ok_def by blast
  then have "asks n i k (cmd_Payload cmd)"
    using asked_inv_reachable [OF reach] log unfolding asked_inv_def by blast
  moreover have "cmd = \<lparr>cmd_CommandId = cr_CommandId r, cmd_Payload = cmd_Payload cmd\<rparr>"
    by (simp add: id)
  ultimately show ?thesis using a by metis
qed

lemma dispatch_traced:
  assumes "network_reachable quote (\<lambda>k. dispatch_answers (hs k) (ds k)) n"
    and "calls (nw_server n) i = Some (Returned c (Inr r))"
  shows "\<exists>k p tr. asks n i k p \<and>
    dispatch_answers (hs k) (ds k) \<lparr>cmd_CommandId = cr_CommandId r, cmd_Payload = p\<rparr> (Done r) tr"
  by (rule result_traced [OF assms(1) [unfolded network_reachable_def] _ assms(2)])
    (rule dispatch.answer_id)

text \<open>
  C1: the round trip. If a call of \<open>SendCommand\<close> returns a result, then the dispatcher
  of an agent of the very server that the caller named computed it, from the very payload
  that the caller gave; no result is mixed up, forged, or taken from another session,
  whatever is lost, repeated or delayed on the way.
\<close>

theorem results_come_from_the_asked_server:
  assumes "network_reachable quote (\<lambda>k. dispatch_answers (hs k) (ds k)) n"
    and "calls (nw_server n) i = Some (Returned c (Inr r))"
  shows "\<exists>k a p w w' tr. sessions (nw_server n) k = Some a \<and> nw_asked n i = Some (ss_serverID a, p) \<and>
    run_state (Dispatch (hs k) (ds k) \<lparr>cmd_CommandId = cr_CommandId r, cmd_Payload = p\<rparr>)
      \<lparr>world = w, trace = []\<rparr> = (Done r, \<lparr>world = w', trace = tr\<rparr>)"
  using dispatch_traced [OF assms] unfolding asks_def dispatch_answers_def by blast

text \<open>
  A run, for the witnesses: one call sends the payload \<open>p\<close>, the result comes back and is
  returned.
\<close>

definition demo_server :: "ServerMessage list \<Rightarrow> session_pc \<Rightarrow> (string \<rightharpoonup> nat) \<Rightarrow> CommandResult list
    \<Rightarrow> call_pc option \<Rightarrow> string set \<Rightarrow> server" where
  "demo_server q pc pend ch call ids = \<lparr>agents = Map.empty(''srv_1'' \<mapsto> 0),
     sessions = Map.empty(0 \<mapsto> (new_session ''srv_1'' ''web1'')\<lparr>ss_send := q, ss_pc := pc\<rparr>),
     pending = pend, chans = (\<lambda>_. [])(0 := ch), calls = Map.empty(0 := call), used_ids = ids\<rparr>"

definition demo_network :: "CommandPayload option \<Rightarrow> server \<Rightarrow> agent_session \<Rightarrow> ServerMessage list \<Rightarrow> AgentMessage list
    \<Rightarrow> (string \<times> nat \<times> nat \<times> CommandPayload option) set \<Rightarrow> network" where
  "demo_network p s a down up lg = \<lparr>nw_server = s, nw_agents = (\<lambda>_. new_agent_session)(0 := a),
     nw_down = (\<lambda>_. [])(0 := down), nw_up = (\<lambda>_. [])(0 := up), nw_log = lg,
     nw_asked = Map.empty(0 \<mapsto> (''srv_1'', p))\<rparr>"

definition demo_agent :: "CommandPayload option \<Rightarrow> CommandResult \<Rightarrow> call list \<Rightarrow> agent_session" where
  "demo_agent p r tr = \<lparr>as_status = Live, as_received = [\<lparr>cmd_CommandId = ''7'', cmd_Payload = p\<rparr>],
     as_running = {#}, as_answered = [r], as_sent = [Some (AgentMessage_CommandResult r)], as_calls = tr\<rparr>"

definition demo_end :: "CommandPayload option \<Rightarrow> CommandResult \<Rightarrow> call list \<Rightarrow> network" where
  "demo_end p r tr = demo_network p
     (demo_server [] Looping Map.empty [] (Some (Returned (Some ''7'') (Inr r))) {''7''})
     (demo_agent p r tr) [] [] {(''7'', 0, 0, p)}"

lemmas demo_network_defs = demo_server_def demo_network_def queue_def shown_def delivering_def new_session_def
  set_call_def set_session_def quiet_step_def

lemma demo_network_server:
  assumes "server_step quote s t" and "queue t = queue s" and "shown t = shown s"
    and "dom (calls t) \<subseteq> dom (calls s)" and "\<And>k i r. delivering t k i r \<Longrightarrow> delivering s k i r"
  shows "network_step quote answers (demo_network p s a down up lg) (demo_network p t a down up lg)"
proof -
  have "network_step quote answers (demo_network p s a down up lg)
      (demo_network p s a down up lg\<lparr>nw_server := t\<rparr>)"
    by (rule network_step.server) (use assms in \<open>simp add: quiet_step_def demo_network_def\<close>)
  then show ?thesis by (simp add: demo_network_def)
qed

definition demo_joined :: network where
  "demo_joined = new_network\<lparr>nw_server := demo_connected\<rparr>"

lemma demo_join: "network_step quote answers new_network demo_joined"
proof -
  have "server_step quote NewServer demo_connected"
    unfolding demo_connected_def by (rule server_step.register) (simp add: NewServer_def)
  then have "quiet_step quote NewServer demo_connected"
    by (auto simp: quiet_step_def demo_simps queue_def shown_def delivering_def fun_eq_iff split: if_splits)
  then show ?thesis
    using network_step.server [of quote new_network demo_connected answers] by (simp add: new_network_def demo_joined_def)
qed

lemma demo_call:
  "network_step quote answers demo_joined (demo_network p
     (demo_server [] Looping Map.empty [] (Some (Start ''srv_1'' p)) {}) new_agent_session [] [] {})"
  using network_step.call [of demo_joined 0 quote answers "''srv_1''" p]
  by (simp add: demo_network_def demo_server_def demo_joined_def demo_connected_def new_network_def NewServer_def
      registerAgent_def set_session_def set_call_def new_session_def fun_upd_idem)

lemma demo_send:
  "(network_step quote answers)\<^sup>*\<^sup>*
     (demo_network p (demo_server [] Looping Map.empty [] (Some (Start ''srv_1'' p)) {}) a [] [] {})
     (demo_network p (demo_server [Some (ServerMessage_Command \<lparr>cmd_CommandId = ''7'', cmd_Payload = p\<rparr>)]
        Looping [''7'' \<mapsto> 0] [] (Some (Waiting ''7'')) {''7''}) a [] [] {(''7'', 0, 0, p)})"
proof -
  let ?s1 = "demo_server [] Looping Map.empty [] (Some (Start ''srv_1'' p)) {}"
  let ?s2 = "demo_server [] Looping Map.empty [] (Some (Found 0 p)) {}"
  let ?s3 = "demo_server [] Looping [''7'' \<mapsto> 0] [] (Some (Sending 0 ''7'' p)) {''7''}"
  have "server_step quote ?s1 ?s2"
    using server_step.call_lookup [of ?s1 0 "''srv_1''" p 0 quote]
    by (simp add: demo_server_def set_call_def)
  then have 1: "network_step quote answers (demo_network p ?s1 a [] [] {}) (demo_network p ?s2 a [] [] {})"
    by (rule demo_network_server) (auto simp: demo_network_defs fun_eq_iff split: if_splits)
  have "server_step quote ?s2 ?s3"
    using server_step.call_register [of ?s2 0 0 p "''7''" quote]
    by (simp add: demo_server_def set_call_def)
  then have 2: "network_step quote answers (demo_network p ?s2 a [] [] {}) (demo_network p ?s3 a [] [] {})"
    by (rule demo_network_server) (auto simp: demo_network_defs fun_eq_iff split: if_splits)
  have 3: "network_step quote answers (demo_network p ?s3 a [] [] {})
     (demo_network p (demo_server [Some (ServerMessage_Command \<lparr>cmd_CommandId = ''7'', cmd_Payload = p\<rparr>)]
        Looping [''7'' \<mapsto> 0] [] (Some (Waiting ''7'')) {''7''}) a [] [] {(''7'', 0, 0, p)})"
    using network_step.send [of "demo_network p ?s3 a [] [] {}" 0 0 "''7''" p
        "new_session ''srv_1'' ''web1''\<lparr>ss_send := [], ss_pc := Looping\<rparr>" quote answers]
    by (simp add: demo_network_def demo_server_def set_call_def set_session_def new_session_def send_capacity_def)
  show ?thesis using 1 2 3 by auto
qed

lemma demo_arrives:
  assumes "answers 0 \<lparr>cmd_CommandId = ''7'', cmd_Payload = p\<rparr> (Done r) tr"
  shows "(network_step quote answers)\<^sup>*\<^sup>*
     (demo_network p (demo_server [Some (ServerMessage_Command \<lparr>cmd_CommandId = ''7'', cmd_Payload = p\<rparr>)] Looping pend [] call ids)
        new_agent_session [] [] lg)
     (demo_network p (demo_server [] Looping pend [] call ids) (demo_agent p r tr) []
        [Some (AgentMessage_CommandResult r)] lg)"
proof -
  let ?c = "\<lparr>cmd_CommandId = ''7'', cmd_Payload = p\<rparr>"
  let ?msg = "Some (ServerMessage_Command ?c)"
  let ?s1 = "demo_server [?msg] Looping pend [] call ids" and ?s2 = "demo_server [] Looping pend [] call ids"
  let ?a = "new_agent_session\<lparr>as_received := [?c], as_running := {#?c#}\<rparr>"
  have 1: "network_step quote answers (demo_network p ?s1 new_agent_session [] [] lg)
      (demo_network p ?s2 new_agent_session [?msg] [] lg)"
    using network_step.transmit [of "demo_network p ?s1 new_agent_session [] [] lg" 0
        "new_session ''srv_1'' ''web1''\<lparr>ss_send := [?msg], ss_pc := Looping\<rparr>" ?msg "[]" quote answers]
    by (simp add: demo_network_def demo_server_def set_session_def new_session_def)
  have 2: "network_step quote answers (demo_network p ?s2 new_agent_session [?msg] [] lg)
      (demo_network p ?s2 ?a [] [] lg)"
    using network_step.command [of "demo_network p ?s2 new_agent_session [?msg] [] lg" 0 ?c "[]" quote answers]
    by (simp add: demo_network_def new_agent_session_def)
  have "agent_step (answers 0) ?a (demo_agent p r tr)"
    using agent_step.finish [of ?a ?c "answers 0" r tr] assms
    by (simp add: new_agent_session_def demo_agent_def)
  then have 3: "network_step quote answers (demo_network p ?s2 ?a [] [] lg)
      (demo_network p ?s2 (demo_agent p r tr) [] [Some (AgentMessage_CommandResult r)] lg)"
    using network_step.agent [of answers 0 "demo_network p ?s2 ?a [] [] lg" "demo_agent p r tr" quote]
    by (simp add: demo_network_def demo_agent_def new_agent_session_def)
  show ?thesis using 1 2 3 by auto
qed

lemma demo_returns:
  assumes id: "cr_CommandId r = ''7''"
  shows "(network_step quote answers)\<^sup>*\<^sup>*
     (demo_network p (demo_server [] Looping [''7'' \<mapsto> 0] [] (Some (Waiting ''7'')) {''7''}) (demo_agent p r tr) []
        [Some (AgentMessage_CommandResult r)] {(''7'', 0, 0, p)})
     (demo_end p r tr)"
proof -
  let ?lg = "{(''7'', 0, 0, p)}"
  let ?net = "\<lambda>s up. demo_network p s (demo_agent p r tr) [] up ?lg"
  let ?w = "Some (Waiting ''7'')" and ?m = "Some (AgentMessage_CommandResult r)"
  let ?s1 = "demo_server [] Looping [''7'' \<mapsto> 0] [] ?w {''7''}"
  let ?s2 = "demo_server [] (Delivering 0 r) Map.empty [] ?w {''7''}"
  let ?s3 = "demo_server [] Looping Map.empty [r] ?w {''7''}"
  let ?s4 = "demo_server [] Looping Map.empty [] (Some (Returned (Some ''7'') (Inr r))) {''7''}"
  have 1: "network_step quote answers (?net ?s1 [?m]) (?net ?s2 [])"
    using network_step.receive [of "?net ?s1 [?m]" 0
        "new_session ''srv_1'' ''web1''\<lparr>ss_send := [], ss_pc := Looping\<rparr>" ?m "[]" quote answers 0] id
    by (simp add: demo_network_def demo_server_def set_session_def new_session_def handleAgentMessage_def)
  have "server_step quote ?s2 ?s3"
    using server_step.deliver [of ?s2 0
        "new_session ''srv_1'' ''web1''\<lparr>ss_send := [], ss_pc := Delivering 0 r\<rparr>" 0 r quote]
    by (simp add: demo_server_def set_session_def new_session_def result_capacity_def)
  then have 2: "network_step quote answers (?net ?s2 []) (?net ?s3 [])"
    by (rule demo_network_server) (auto simp: demo_network_defs fun_eq_iff split: if_splits)
  have "server_step quote ?s3 ?s4"
    using server_step.call_result [of ?s3 0 "''7''" r "[]" quote]
    by (simp add: demo_server_def set_call_def)
  then have 3: "network_step quote answers (?net ?s3 []) (?net ?s4 [])"
    by (rule demo_network_server) (auto simp: demo_network_defs fun_eq_iff split: if_splits)
  show ?thesis using 1 2 3 unfolding demo_end_def by auto
qed

lemma demo_run:
  assumes "answers 0 \<lparr>cmd_CommandId = ''7'', cmd_Payload = p\<rparr> (Done r) tr" and "cr_CommandId r = ''7''"
  shows "(network_step quote answers)\<^sup>*\<^sup>* demo_joined (demo_end p r tr)"
  using demo_call [of quote answers p] demo_send [of quote answers p new_agent_session]
    demo_arrives [where quote = quote and answers = answers, OF assms(1)] demo_returns [where quote = quote, OF assms(2)]
  by (meson converse_rtranclp_into_rtranclp rtranclp_trans)

lemma demo_reachable:
  assumes "answers 0 \<lparr>cmd_CommandId = ''7'', cmd_Payload = p\<rparr> (Done r) tr" and "cr_CommandId r = ''7''"
  shows "network_reachable quote answers (demo_end p r tr)"
  unfolding network_reachable_def
  using demo_join demo_run [where answers = answers, OF assms] by (rule converse_rtranclp_into_rtranclp)

lemma demo_end_simps [simp]:
  "sessions (nw_server (demo_end p r tr)) 0 = Some (new_session ''srv_1'' ''web1'')"
  "calls (nw_server (demo_end p r tr)) 0 = Some (Returned (Some ''7'') (Inr r))"
  "nw_asked (demo_end p r tr) 0 = Some (''srv_1'', p)"
  by (simp_all add: demo_end_def demo_network_def demo_server_def new_session_def)

text \<open>Here it is the restart command of theory \<open>AgentRpc\<close>.\<close>

lemma demo_network_reachable:
  "network_reachable id (\<lambda>_. dispatch_answers quiet_host (NewDispatcher False None False))
     (demo_end (cmd_Payload demo_command) demo_refusal [])"
proof -
  have "\<lparr>cmd_CommandId = ''7'', cmd_Payload = cmd_Payload demo_command\<rparr> = demo_command"
    by (simp add: demo_command_def)
  with demo_answer show ?thesis by (intro demo_reachable) (simp_all add: demo_refusal_def)
qed

theorem results_come_from_the_asked_server_witness:
  "let n = demo_end (cmd_Payload demo_command) demo_refusal [] in
   \<exists>k a p w w' tr. sessions (nw_server n) k = Some a \<and> nw_asked n 0 = Some (ss_serverID a, p) \<and>
    run_state (Dispatch quiet_host (NewDispatcher False None False)
      \<lparr>cmd_CommandId = cr_CommandId demo_refusal, cmd_Payload = p\<rparr>)
      \<lparr>world = w, trace = []\<rparr> = (Done demo_refusal, \<lparr>world = w', trace = tr\<rparr>)"
  unfolding Let_def
  by (rule results_come_from_the_asked_server [OF demo_network_reachable]) (rule demo_end_simps)

end
