(* ===== verification/NetworkLive.thy ===== *)
theory NetworkLive
  imports Network
begin

text \<open>
  What a network can always do. From every reachable state in which a server has a session
  and its agent is alive, a command can be sent, carried out and answered: messages that are
  under way can be consumed first, and nothing that happened before is in the way.
\<close>

section \<open>Consuming the messages under way\<close>

text \<open>The commands among messages to an agent.\<close>

fun commands :: "ServerMessage list \<Rightarrow> Command list" where
  "commands [] = []"
| "commands (Some (ServerMessage_Command c) # ms) = c # commands ms"
| "commands (_ # ms) = commands ms"

lemma commands_append [simp]: "commands (xs @ ys) = commands xs @ commands ys"
  by (induction xs rule: commands.induct) simp_all

lemma commands_other: "(\<And>c. msg \<noteq> Some (ServerMessage_Command c)) \<Longrightarrow> commands (msg # ms) = commands ms"
  by (cases msg rule: server_payload_type.cases) auto

lemma set_commands: "c \<in> set (commands ms) \<longleftrightarrow> Some (ServerMessage_Command c) \<in> set ms"
  by (induction ms rule: commands.induct) auto

text \<open>The registry, the calls and the identifiers are left as they are.\<close>

definition same_calls :: "network \<Rightarrow> network \<Rightarrow> bool" where
  "same_calls n n' \<longleftrightarrow> agents (nw_server n') = agents (nw_server n) \<and>
     calls (nw_server n') = calls (nw_server n) \<and> used_ids (nw_server n') = used_ids (nw_server n)"

lemma same_calls_refl [simp]: "same_calls n n"
  by (simp add: same_calls_def)

lemma same_calls_trans: "same_calls n n1 \<Longrightarrow> same_calls n1 n2 \<Longrightarrow> same_calls n n2"
  by (simp add: same_calls_def)

lemma drain_queue:
  assumes "sessions (nw_server n) k = Some a" and "ss_pc a = Looping"
  shows "\<exists>n'. (network_step quote answers)\<^sup>*\<^sup>* n n' \<and> same_calls n n' \<and> nw_agents n' = nw_agents n \<and>
    sessions (nw_server n') k = Some (a\<lparr>ss_send := []\<rparr>) \<and> nw_down n' k = nw_down n k @ ss_send a"
  using assms
proof (induction "ss_send a" arbitrary: n a)
  case Nil
  then have "a\<lparr>ss_send := []\<rparr> = a" by (cases a) simp
  then show ?case using Nil by (intro exI [of _ n]) simp
next
  case (Cons msg rest)
  let ?n = "n\<lparr>nw_server := set_session k (a\<lparr>ss_send := rest\<rparr>) (nw_server n),
    nw_down := (nw_down n)(k := nw_down n k @ [msg])\<rparr>"
  have step: "network_step quote answers n ?n"
    using Cons by (intro network_step.transmit) simp_all
  obtain n' where n': "(network_step quote answers)\<^sup>*\<^sup>* ?n n'" "same_calls ?n n'"
    "nw_agents n' = nw_agents n" "sessions (nw_server n') k = Some (a\<lparr>ss_send := []\<rparr>)"
    "nw_down n' k = nw_down n k @ msg # rest"
    using Cons(1) [of "a\<lparr>ss_send := rest\<rparr>" ?n] Cons(2-4) by auto
  moreover have "same_calls n ?n" by (simp add: same_calls_def)
  ultimately show ?case using step same_calls_trans Cons(2)
    by (intro exI [of _ n']) (auto intro: converse_rtranclp_into_rtranclp)
qed

lemma drain_down:
  assumes "as_status (nw_agents n k) = Live"
  shows "\<exists>n'. (network_step quote answers)\<^sup>*\<^sup>* n n' \<and> nw_server n' = nw_server n \<and>
    nw_down n' k = [] \<and> as_status (nw_agents n' k) = Live \<and>
    as_running (nw_agents n' k) = as_running (nw_agents n k) + mset (commands (nw_down n k)) \<and>
    as_answered (nw_agents n' k) = as_answered (nw_agents n k) \<and> as_calls (nw_agents n' k) = as_calls (nw_agents n k)"
  using assms
proof (induction "nw_down n k" arbitrary: n)
  case Nil
  then show ?case by (intro exI [of _ n]) simp
next
  case (Cons msg ms)
  obtain n1 where n1: "network_step quote answers n n1" "nw_server n1 = nw_server n"
    "nw_down n1 k = ms" "as_status (nw_agents n1 k) = Live"
    "as_running (nw_agents n1 k) = as_running (nw_agents n k) + mset (commands [msg])"
    "as_answered (nw_agents n1 k) = as_answered (nw_agents n k)" "as_calls (nw_agents n1 k) = as_calls (nw_agents n k)"
  proof (cases "\<exists>cmd. msg = Some (ServerMessage_Command cmd)")
    case True
    then obtain cmd where cmd: "msg = Some (ServerMessage_Command cmd)" by blast
    from that [OF network_step.command [OF Cons(2) [symmetric, unfolded cmd] Cons(3)]] Cons(3) cmd
    show thesis by simp
  next
    case False
    then have no: "msg \<noteq> Some (ServerMessage_Command cmd)" for cmd by blast
    from that [OF network_step.no_command [OF Cons(2) [symmetric] no]] Cons(3) show thesis
      by (simp add: commands_other [OF no])
  qed
  from Cons(1) [OF n1(3) [symmetric] n1(4)] obtain n' where n': "(network_step quote answers)\<^sup>*\<^sup>* n1 n'"
    "nw_server n' = nw_server n1" "nw_down n' k = []" "as_status (nw_agents n' k) = Live"
    "as_running (nw_agents n' k) = as_running (nw_agents n1 k) + mset (commands ms)"
    "as_answered (nw_agents n' k) = as_answered (nw_agents n1 k)"
    "as_calls (nw_agents n' k) = as_calls (nw_agents n1 k)" using n1(3) by auto
  have "commands (nw_down n k) = commands [msg] @ commands ms" by (simp flip: Cons(2) commands_append)
  then show ?case using n1 n' by (intro exI [of _ n']) (auto intro: converse_rtranclp_into_rtranclp)
qed

text \<open>One message up: it is received, and delivered if it was a result that a call waits for.\<close>

lemma quiet_deliver:
  assumes "sessions s k = Some a" and "ss_pc a = Delivering i r" and "length (chans s i) < result_capacity"
  shows "quiet_step quote s ((set_session k (a\<lparr>ss_pc := Looping\<rparr>) s)\<lparr>chans := (chans s)(i := chans s i @ [r])\<rparr>)"
  using server_step.deliver [OF assms, of quote] assms
  by (auto simp: quiet_step_def queue_def shown_def delivering_def fun_eq_iff split: if_splits)

lemma receive_one:
  assumes reach: "reachable quote (nw_server n)" and k: "sessions (nw_server n) k = Some a" "ss_pc a = Looping"
    and up: "nw_up n k = msg # ms"
  shows "\<exists>n' b. (network_step quote answers)\<^sup>*\<^sup>* n n' \<and> same_calls n n' \<and> nw_agents n' = nw_agents n \<and>
    nw_down n' = nw_down n \<and> nw_up n' k = ms \<and> sessions (nw_server n') k = Some b \<and> ss_pc b = Looping \<and>
    ss_send b = ss_send a"
proof -
  let ?s = "handleAgentMessage k a 0 msg (nw_server n)"
  let ?n = "n\<lparr>nw_server := ?s, nw_up := (nw_up n)(k := ms)\<rparr>"
  have step: "network_step quote answers n ?n" using k up by (rule network_step.receive)
  have same: "same_calls n ?n"
    using handleAgentMessage_cases [of k a 0 msg "nw_server n"] by (auto simp: same_calls_def)
  have inv: "server_inv ?s" using reach server_step.receive [OF k] by (blast intro: reachable_inv reachable.step)
  show ?thesis
  proof (cases "\<exists>i r. sessions ?s k = Some (a\<lparr>ss_pc := Delivering i r\<rparr>)")
    case True
    then obtain i r where a': "sessions ?s k = Some (a\<lparr>ss_pc := Delivering i r\<rparr>)" by blast
    then have "delivering ?s k i r" by (auto simp: delivering_def)
    then have "chans ?s i = []" using inv deliveryD(1) by (auto simp: server_inv_def)
    then have "quiet_step quote ?s ((set_session k (a\<lparr>ss_pc := Looping\<rparr>) ?s)\<lparr>chans := (chans ?s)(i := chans ?s i @ [r])\<rparr>)"
      using quiet_deliver [OF a', of i r quote] by (simp add: result_capacity_def)
    then obtain t where t: "quiet_step quote ?s t" "sessions t k = Some (a\<lparr>ss_pc := Looping\<rparr>)"
      "agents t = agents ?s" "calls t = calls ?s" "used_ids t = used_ids ?s" by fastforce
    then have "network_step quote answers ?n (?n\<lparr>nw_server := t\<rparr>)" by (intro network_step.server) simp
    moreover have "same_calls n (?n\<lparr>nw_server := t\<rparr>)" using same t(3-5) by (simp add: same_calls_def)
    ultimately show ?thesis using step t(2) by (intro exI [of _ "?n\<lparr>nw_server := t\<rparr>"]) auto
  next
    case False
    obtain b where "sessions ?s k = Some b" "ss_pc b = Looping" "ss_send b = ss_send a"
      using handleAgentMessage_cases [of k a 0 msg "nw_server n"] False k by (auto, blast)
    then show ?thesis using step same by (intro exI [of _ ?n]) auto
  qed
qed

lemma drain_up:
  assumes "network_reachable quote answers n" and "sessions (nw_server n) k = Some a" and "ss_pc a = Looping"
  shows "\<exists>n' b. (network_step quote answers)\<^sup>*\<^sup>* n n' \<and> same_calls n n' \<and> nw_agents n' = nw_agents n \<and>
    nw_down n' = nw_down n \<and> nw_up n' k = [] \<and> sessions (nw_server n') k = Some b \<and> ss_pc b = Looping \<and>
    ss_send b = ss_send a"
  using assms
proof (induction "nw_up n k" arbitrary: n a)
  case Nil
  then show ?case by (intro exI [of _ n]) simp
next
  case (Cons msg ms)
  have "reachable quote (nw_server n)"
    using Cons(3) network_server_reachable by (auto simp: network_reachable_def)
  from receive_one [OF this Cons(4,5) Cons(2) [symmetric]]
  obtain n1 b where n1: "(network_step quote answers)\<^sup>*\<^sup>* n n1" "same_calls n n1" "nw_agents n1 = nw_agents n"
    "nw_down n1 = nw_down n" "nw_up n1 k = ms" "sessions (nw_server n1) k = Some b" "ss_pc b = Looping"
    "ss_send b = ss_send a" by blast
  have "network_reachable quote answers n1" using Cons(3) n1(1) by (auto simp: network_reachable_def)
  from Cons(1) [OF n1(5) [symmetric] this n1(6,7)] show ?case
    using n1 same_calls_trans by (metis rtranclp_trans)
qed

section \<open>One command, undisturbed\<close>

text \<open>Sending: from the call to the queue.\<close>

lemma quiet_call:
  assumes "server_step quote s t" and "sessions t = sessions s" and "dom (calls t) = dom (calls s)"
  shows "quiet_step quote s t"
  using assms by (simp add: quiet_step_def queue_def shown_def delivering_def fun_eq_iff)

lemma call_is_sent:
  assumes sid: "agents (nw_server n) sid = Some k" and k: "sessions (nw_server n) k = Some a"
    and new: "calls (nw_server n) i = None" "cid \<notin> used_ids (nw_server n)" and room: "ss_send a = []"
  shows "\<exists>n'. (network_step quote answers)\<^sup>*\<^sup>* n n' \<and> calls (nw_server n') i = Some (Waiting cid) \<and>
    pending (nw_server n') cid = Some i \<and> chans (nw_server n') i = [] \<and>
    sessions (nw_server n') k =
      Some (a\<lparr>ss_send := [Some (ServerMessage_Command \<lparr>cmd_CommandId = cid, cmd_Payload = p\<rparr>)]\<rparr>) \<and>
    nw_agents n' = nw_agents n \<and> nw_down n' = nw_down n \<and> nw_up n' = nw_up n"
proof -
  let ?s1 = "set_call i (Start sid p) (nw_server n)"
  let ?n1 = "n\<lparr>nw_server := ?s1, nw_asked := (nw_asked n)(i \<mapsto> (sid, p))\<rparr>"
  let ?s2 = "set_call i (Found k p) ?s1"
  let ?s3 = "(set_call i (Sending k cid p) ?s2)\<lparr>pending := (pending ?s2)(cid \<mapsto> i),
    chans := (chans ?s2)(i := []), used_ids := insert cid (used_ids ?s2)\<rparr>"
  let ?s4 = "set_call i (Waiting cid) (set_session k (a\<lparr>ss_send := ss_send a @
    [Some (ServerMessage_Command \<lparr>cmd_CommandId = cid, cmd_Payload = p\<rparr>)]\<rparr>) ?s3)"
  have 1: "network_step quote answers n ?n1" using new(1) by (rule network_step.call)
  have "server_step quote ?s1 ?s2"
    by (rule server_step.call_lookup [where serverID = sid]) (simp_all add: sid)
  then have "quiet_step quote ?s1 ?s2" by (rule quiet_call) auto
  then have 2: "network_step quote answers ?n1 (?n1\<lparr>nw_server := ?s2\<rparr>)" by (intro network_step.server) simp
  have "server_step quote ?s2 ?s3" by (rule server_step.call_register) (simp_all add: new(2))
  then have "quiet_step quote ?s2 ?s3" by (rule quiet_call) auto
  then have 3: "network_step quote answers (?n1\<lparr>nw_server := ?s2\<rparr>) (?n1\<lparr>nw_server := ?s3\<rparr>)"
    using network_step.server [of quote "?n1\<lparr>nw_server := ?s2\<rparr>" ?s3 answers] by simp
  have 4: "network_step quote answers (?n1\<lparr>nw_server := ?s3\<rparr>) (?n1\<lparr>nw_server := ?s4,
      nw_log := insert (cid, i, k, p) (nw_log n)\<rparr>)"
    using network_step.send [of "?n1\<lparr>nw_server := ?s3\<rparr>" i k cid p a quote answers] k room
    by (simp add: send_capacity_def)
  show ?thesis using rtranclp_4 [of "network_step quote answers", OF 1 2 3 4] room
    by (intro exI [of _ "?n1\<lparr>nw_server := ?s4, nw_log := insert (cid, i, k, p) (nw_log n)\<rparr>"]) simp
qed

text \<open>Carrying out: from the queue to the stream up.\<close>

lemma command_is_answered:
  assumes k: "sessions (nw_server n) k = Some a" "ss_pc a = Looping"
      "ss_send a = [Some (ServerMessage_Command cmd)]"
    and empty: "nw_down n k = []" "nw_up n k = []" and live: "as_status (nw_agents n k) = Live"
    and ans: "answers k cmd (Done r) tr"
  shows "\<exists>n'. (network_step quote answers)\<^sup>*\<^sup>* n n' \<and>
    nw_server n' = set_session k (a\<lparr>ss_send := []\<rparr>) (nw_server n) \<and>
    nw_up n' k = [Some (AgentMessage_CommandResult r)] \<and>
    as_received (nw_agents n' k) = as_received (nw_agents n k) @ [cmd]"
proof -
  let ?s = "set_session k (a\<lparr>ss_send := []\<rparr>) (nw_server n)"
  let ?g = "nw_agents n k"
  let ?g1 = "?g\<lparr>as_received := as_received ?g @ [cmd], as_running := add_mset cmd (as_running ?g)\<rparr>"
  let ?g2 = "?g1\<lparr>as_running := as_running ?g1 - {#cmd#}, as_answered := as_answered ?g1 @ [r],
    as_sent := as_sent ?g1 @ [Some (AgentMessage_CommandResult r)], as_calls := as_calls ?g1 @ tr\<rparr>"
  let ?n1 = "n\<lparr>nw_server := ?s, nw_down := (nw_down n)(k := [Some (ServerMessage_Command cmd)])\<rparr>"
  let ?n2 = "?n1\<lparr>nw_agents := (nw_agents n)(k := ?g1), nw_down := (nw_down n)(k := [])\<rparr>"
  let ?n3 = "?n2\<lparr>nw_agents := (nw_agents n)(k := ?g2),
    nw_up := (nw_up n)(k := [Some (AgentMessage_CommandResult r)])\<rparr>"
  have 1: "network_step quote answers n ?n1"
    using network_step.transmit [OF k(1,2,3), of quote answers] empty by simp
  have 2: "network_step quote answers ?n1 ?n2"
    using network_step.command [of ?n1 k cmd "[]" quote answers] live by simp
  have "agent_step (answers k) ?g1 ?g2" by (rule agent_step.finish) (use live ans in simp_all)
  then have 3: "network_step quote answers ?n2 ?n3"
    using network_step.agent [of answers k ?n2 ?g2 quote] empty by simp
  show ?thesis using rtranclp_3 [of "network_step quote answers", OF 1 2 3] by (intro exI [of _ ?n3]) simp
qed

text \<open>Returning: from the stream up to the caller.\<close>

lemma result_is_returned:
  assumes k: "sessions (nw_server n) k = Some a" "ss_pc a = Looping"
    and call: "calls (nw_server n) i = Some (Waiting cid)" "pending (nw_server n) cid = Some i"
      "chans (nw_server n) i = []"
    and up: "nw_up n k = [Some (AgentMessage_CommandResult r)]" and id: "cr_CommandId r = cid"
  shows "\<exists>n'. (network_step quote answers)\<^sup>*\<^sup>* n n' \<and>
    calls (nw_server n') i = Some (Returned (Some cid) (Inr r))"
proof -
  let ?s = "nw_server n" and ?a = "a\<lparr>ss_pc := Delivering i r\<rparr>"
  let ?s1 = "(set_session k ?a ?s)\<lparr>pending := (pending ?s)(cid := None)\<rparr>"
  let ?s2 = "(set_session k (?a\<lparr>ss_pc := Looping\<rparr>) ?s1)\<lparr>chans := (chans ?s1)(i := chans ?s1 i @ [r])\<rparr>"
  let ?s3 = "(set_call i (Returned (Some cid) (Inr r)) ?s2)\<lparr>chans := (chans ?s2)(i := [])\<rparr>"
  let ?n1 = "n\<lparr>nw_server := ?s1, nw_up := (nw_up n)(k := [])\<rparr>"
  have 1: "network_step quote answers n ?n1"
    using network_step.receive [OF k up, of quote answers 0] call(2) id by (simp add: handleAgentMessage_def)
  have "quiet_step quote ?s1 ?s2"
    by (rule quiet_deliver) (simp_all add: call(3) result_capacity_def)
  then have 2: "network_step quote answers ?n1 (?n1\<lparr>nw_server := ?s2\<rparr>)" by (intro network_step.server) simp
  have "server_step quote ?s2 ?s3" by (rule server_step.call_result) (simp_all add: call)
  then have "quiet_step quote ?s2 ?s3" by (rule quiet_call) (auto simp: call(1))
  then have 3: "network_step quote answers (?n1\<lparr>nw_server := ?s2\<rparr>) (?n1\<lparr>nw_server := ?s3\<rparr>)"
    using network_step.server [of quote "?n1\<lparr>nw_server := ?s2\<rparr>" ?s3 answers] by simp
  show ?thesis using rtranclp_3 [of "network_step quote answers", OF 1 2 3]
    by (intro exI [of _ "?n1\<lparr>nw_server := ?s3\<rparr>"]) simp
qed

section \<open>Properties\<close>

text \<open>
  C16: no reachable state is in the way of a command. Whatever calls, losses and failures came
  before, if the server named is registered with a session in its loop and its agent is
  alive, then a new call can return what the agent's dispatcher answers to it.
\<close>

theorem commands_get_through:
  assumes "network_reachable quote answers n" and "agents (nw_server n) sid = Some k"
    and "sessions (nw_server n) k = Some a" and "ss_pc a = Looping" and "as_status (nw_agents n k) = Live"
    and "calls (nw_server n) i = None" and "cid \<notin> used_ids (nw_server n)"
    and "answers k \<lparr>cmd_CommandId = cid, cmd_Payload = p\<rparr> (Done r) tr" and "cr_CommandId r = cid"
  shows "\<exists>n'. (network_step quote answers)\<^sup>*\<^sup>* n n' \<and>
    calls (nw_server n') i = Some (Returned (Some cid) (Inr r))"
proof -
  let ?steps = "(network_step quote answers)\<^sup>*\<^sup>*"
  obtain n1 where n1: "?steps n n1" "same_calls n n1" "nw_agents n1 = nw_agents n"
    "sessions (nw_server n1) k = Some (a\<lparr>ss_send := []\<rparr>)" using drain_queue [OF assms(3,4)] by blast
  obtain n2 where n2: "?steps n1 n2" "nw_server n2 = nw_server n1" "nw_down n2 k = []"
    "as_status (nw_agents n2 k) = Live" using drain_down [of n1 k quote answers] n1(3) assms(5) by auto
  have "network_reachable quote answers n2" using assms(1) n1(1) n2(1) by (auto simp: network_reachable_def)
  then obtain n3 b where n3: "?steps n2 n3" "same_calls n2 n3" "nw_agents n3 = nw_agents n2"
    "nw_down n3 = nw_down n2" "nw_up n3 k = []" "sessions (nw_server n3) k = Some b" "ss_pc b = Looping"
    "ss_send b = []" using drain_up [of quote answers n2 k "a\<lparr>ss_send := []\<rparr>"] n1(4) n2(2) assms(4) by auto
  have "agents (nw_server n3) sid = Some k" "calls (nw_server n3) i = None" "cid \<notin> used_ids (nw_server n3)"
    using assms(2,6,7) n1(2) n2(2) n3(2) by (simp_all add: same_calls_def)
  from call_is_sent [OF this(1) n3(6) this(2,3) n3(8), of quote answers p]
  obtain n4 where n4: "?steps n3 n4" "calls (nw_server n4) i = Some (Waiting cid)"
    "pending (nw_server n4) cid = Some i" "chans (nw_server n4) i = []" "sessions (nw_server n4) k =
      Some (b\<lparr>ss_send := [Some (ServerMessage_Command \<lparr>cmd_CommandId = cid, cmd_Payload = p\<rparr>)]\<rparr>)"
    "nw_agents n4 = nw_agents n3" "nw_down n4 = nw_down n3" "nw_up n4 = nw_up n3" by blast
  obtain n5 where n5: "?steps n4 n5" "nw_server n5 = set_session k (b\<lparr>ss_send := []\<rparr>) (nw_server n4)"
    "nw_up n5 k = [Some (AgentMessage_CommandResult r)]"
    using command_is_answered [OF n4(5), of "\<lparr>cmd_CommandId = cid, cmd_Payload = p\<rparr>" answers r tr quote]
      n2(3,4) n3 n4(6,7,8) assms(8) by auto
  obtain n6 where "?steps n5 n6" "calls (nw_server n6) i = Some (Returned (Some cid) (Inr r))"
    using result_is_returned [of n5 k "b\<lparr>ss_send := []\<rparr>" i cid r quote answers] n3(7) n4 n5 assms(9) by auto
  moreover have "?steps n n5" using n1(1) n2(1) n3(1) n4(1) n5(1) by (meson rtranclp_trans)
  ultimately show ?thesis by (meson rtranclp_trans)
qed

text \<open>The witness: a second command after the run of theory \<open>Network\<close>.\<close>

definition second_refusal :: CommandResult where
  "second_refusal = demo_refusal\<lparr>cr_CommandId := ''8''\<rparr>"

theorem commands_get_through_witness:
  "let n = demo_end (cmd_Payload demo_command) demo_refusal [];
       answers = \<lambda>_. dispatch_answers quiet_host (NewDispatcher False None False)
   in \<exists>n'. (network_step id answers)\<^sup>*\<^sup>* n n' \<and>
    calls (nw_server n') 1 = Some (Returned (Some ''8'') (Inr second_refusal))"
  unfolding Let_def
proof (rule commands_get_through [where sid = "''srv_1''" and k = 0 and a = "new_session ''srv_1'' ''web1''"])
  show "network_reachable id (\<lambda>_. dispatch_answers quiet_host (NewDispatcher False None False))
      (demo_end (cmd_Payload demo_command) demo_refusal [])"
    by (rule demo_network_reachable)
  show "dispatch_answers quiet_host (NewDispatcher False None False)
      \<lparr>cmd_CommandId = ''8'', cmd_Payload = cmd_Payload demo_command\<rparr> (Done second_refusal) []"
    by (auto simp: dispatch_answers_def Dispatch_def demo_command_def demo_refusal_def second_refusal_def
        handleRestartService_def allowed_services_def result_of_def quiet_host_def id_def)
qed (simp_all add: demo_end_def demo_network_def demo_server_def demo_agent_def new_session_def
    second_refusal_def)

end
