(* ===== verification/NetworkOnce.thy ===== *)
theory NetworkOnce
  imports NetworkLive
begin

text \<open>
  Commands on their way. A command that \<open>SendCommand\<close> puts into the queue of a session passes
  the queue, the stream and the agent's main loop. Nothing on this way repeats a command or
  changes the order, so every command is run at most once, by one agent.
\<close>

section \<open>The passage of a session\<close>

lemma commands_take: "subseq (commands (take i ms)) (commands ms)"
  by (metis append_take_drop_id commands_append list_emb_append2 subseq_order.refl
      subseq_rev_drop_many append_Nil2 prefixI prefix_imp_subseq)

text \<open>What was received, what is in the stream, what is in the queue: first in, first out.\<close>

definition passage :: "network \<Rightarrow> nat \<Rightarrow> Command list" where
  "passage n k = as_received (nw_agents n k) @ commands (nw_down n k) @ commands (queue (nw_server n) k)"

text \<open>A step loses commands of the passage, or adds the one that a call sends now at its end.\<close>

lemma passage_step:
  assumes "network_step quote answers n n'"
  shows "subseq (passage n' k) (passage n k) \<or>
    (\<exists>c i. passage n' k = passage n k @ [c] \<and>
      calls (nw_server n) i = Some (Sending k (cmd_CommandId c) (cmd_Payload c)) \<and> logged n' k c)"
  using assms
proof (cases rule: network_step.cases)
  case (send i j cid p a)
  then show ?thesis
    by (cases "j = k") (auto simp: passage_def logged_def queue_set_session queue_def
        intro!: exI [of _ "\<lparr>cmd_CommandId = cid, cmd_Payload = p\<rparr>"] exI [of _ i])
next
  case (broken j i1 i2)
  then have "subseq (commands (nw_down n' k)) (commands (nw_down n k))"
    by (simp add: commands_take)
  moreover have "as_received (nw_agents n' k) = as_received (nw_agents n k)"
    "queue (nw_server n') k = queue (nw_server n) k" using broken by simp_all
  ultimately show ?thesis by (simp add: passage_def list_emb_append_mono)
next
  case (no_command j msg ms)
  then show ?thesis by (simp add: passage_def commands_other)
next
  case (transmit j a msg rest)
  then have "commands (queue (nw_server n) j) = commands [msg] @ commands rest"
    by (simp add: queue_def flip: commands_append)
  then show ?thesis using transmit by (simp add: passage_def queue_set_session)
qed (auto simp: passage_def queue_set_session queue_receive quiet_queue)

section \<open>What was sent is fresh\<close>

text \<open>A command of the log has the identifier of its call, and no other call has it.\<close>

lemma log_issued:
  assumes "log_inv n" and "(c, i, k, p) \<in> nw_log n"
  shows "issued (nw_server n) i = Some c"
proof -
  obtain pc where "calls (nw_server n) i = Some pc" "sent_id pc = Some c"
    using log_inv_call [OF assms] by blast
  then show ?thesis by (cases pc) (auto simp: issued_def)
qed

lemma logged_unique:
  assumes "log_inv n" and "ids_ok (nw_server n)"
    and "logged n k c" and "logged n k' c'" and "cmd_CommandId c = cmd_CommandId c'"
  shows "k = k' \<and> c = c'"
proof -
  obtain i i' where log: "(cmd_CommandId c, i, k, cmd_Payload c) \<in> nw_log n"
    "(cmd_CommandId c', i', k', cmd_Payload c') \<in> nw_log n"
    using assms(3,4) by (auto simp: logged_def)
  have "issued (nw_server n) i = issued (nw_server n) i'"
    "issued (nw_server n) i = Some (cmd_CommandId c)"
    using log_issued [OF assms(1) log(1)] log_issued [OF assms(1) log(2)] assms(5) by simp_all
  then have "i' = i" using assms(2) unfolding ids_ok_def by metis
  then have "k' = k \<and> cmd_Payload c' = cmd_Payload c"
    using log_inv_unique [OF assms(1) log(1), of "cmd_CommandId c'" k' "cmd_Payload c'"] log(2) by simp
  then show ?thesis using assms(5) by simp
qed

lemma sending_fresh:
  assumes "log_inv n" and "ids_ok (nw_server n)"
    and "calls (nw_server n) i = Some (Sending k cid p)" and "logged n k' c"
  shows "cmd_CommandId c \<noteq> cid"
proof
  assume id: "cmd_CommandId c = cid"
  obtain j where log: "(cid, j, k', cmd_Payload c) \<in> nw_log n" using assms(4) id by (auto simp: logged_def)
  have "issued (nw_server n) i = Some cid" using assms(3) by (simp add: issued_def)
  then have "j = i" using log_issued [OF assms(1) log] assms(2) unfolding ids_ok_def by blast
  then show False using log_inv_call [OF assms(1) log] assms(3) by auto
qed

lemma reachable_parts:
  assumes "(network_step quote answers)\<^sup>*\<^sup>* new_network n"
  shows "log_inv n" and "ids_ok (nw_server n)" and "travelling n k c \<Longrightarrow> logged n k c"
  using network_inv_reachable [OF assms] reachable_inv [OF network_server_reachable [OF assms]]
  by (auto simp: network_inv_def server_inv_def)

section \<open>The invariant\<close>

definition once_inv :: "network \<Rightarrow> bool" where
  "once_inv n \<longleftrightarrow> (\<forall>k. distinct (map cmd_CommandId (passage n k)) \<and> (\<forall>c\<in>set (passage n k). logged n k c))"

lemma once_inv_step:
  assumes step: "network_step quote answers n n'" and inv: "once_inv n"
    and ok: "log_inv n" "ids_ok (nw_server n)"
  shows "once_inv n'"
  unfolding once_inv_def
proof (intro allI conjI)
  fix k
  have old: "distinct (map cmd_CommandId (passage n k))" "\<forall>c\<in>set (passage n k). logged n' k c"
    using inv logged_step [OF step] by (simp_all add: once_inv_def)
  consider (lost) "subseq (passage n' k) (passage n k)"
    | (sent) c i where "passage n' k = passage n k @ [c]" "logged n' k c"
      "calls (nw_server n) i = Some (Sending k (cmd_CommandId c) (cmd_Payload c))"
    using passage_step [OF step, of k] by blast
  then have "distinct (map cmd_CommandId (passage n' k)) \<and> (\<forall>c\<in>set (passage n' k). logged n' k c)"
  proof cases
    case lost
    then have "subseq (map cmd_CommandId (passage n' k)) (map cmd_CommandId (passage n k))"
      by (rule subseq_map)
    then show ?thesis using old subseq_distinct subseq_set [OF lost] by blast
  next
    case sent
    then have "cmd_CommandId c \<noteq> cmd_CommandId c'" if "c' \<in> set (passage n k)" for c'
      using sending_fresh [OF ok sent(3)] inv that unfolding once_inv_def by metis
    then show ?thesis using old sent(1,2) by auto
  qed
  then show "distinct (map cmd_CommandId (passage n' k))" "\<forall>c\<in>set (passage n' k). logged n' k c"
    by blast+
qed

lemma once_inv_reachable: "(network_step quote answers)\<^sup>*\<^sup>* new_network n \<Longrightarrow> once_inv n"
proof (induction rule: rtranclp_induct)
  case base
  then show ?case
    by (simp add: once_inv_def passage_def new_network_def NewServer_def new_agent_session_def queue_def)
next
  case (step n n')
  then show ?case using once_inv_step reachable_parts by blast
qed

section \<open>Properties\<close>

text \<open>An agent of the network takes the steps of its session, so it answers once.\<close>

lemma network_agent_reachable:
  "(network_step quote answers)\<^sup>*\<^sup>* new_network n \<Longrightarrow> (agent_step (answers k))\<^sup>*\<^sup>* new_agent_session (nw_agents n k)"
proof (induction rule: rtranclp_induct)
  case base
  then show ?case by (simp add: new_network_def)
next
  case (step n n')
  then show ?case using network_agent [OF step.hyps(2), of k] by auto
qed

lemma agent_answered_once:
  assumes "network_reachable quote (\<lambda>k. dispatch_answers (hs k) (ds k)) n"
    and "distinct (map cmd_CommandId (as_received (nw_agents n k)))"
  shows "distinct (map cr_CommandId (as_answered (nw_agents n k)))"
proof -
  let ?a = "nw_agents n k"
  obtain ids where "mset ids = image_mset cmd_CommandId (as_running ?a)" using ex_mset by blast
  then have "mset (map cmd_CommandId (as_received ?a)) = mset (ids @ map cr_CommandId (as_answered ?a))"
    using dispatch.answered_once [OF network_agent_reachable [OF assms(1) [unfolded network_reachable_def]]]
    by simp
  then show ?thesis using mset_eq_imp_distinct_iff assms(2) by fastforce
qed

text \<open>
  C3: every command is run at most once. No agent receives two commands with one identifier,
  none answers one twice, and no two agents receive the same one; and a command that an agent
  received is the one that a call was asked to send to the server of this agent.
\<close>

theorem commands_run_at_most_once:
  assumes "network_reachable quote (\<lambda>k. dispatch_answers (hs k) (ds k)) n"
  shows "distinct (map cmd_CommandId (as_received (nw_agents n k))) \<and>
    distinct (map cr_CommandId (as_answered (nw_agents n k))) \<and>
    (\<forall>c\<in>set (as_received (nw_agents n k)). \<exists>i. asks n i k (cmd_Payload c) \<and>
       issued (nw_server n) i = Some (cmd_CommandId c) \<and>
       (\<forall>k' c'. c' \<in> set (as_received (nw_agents n k')) \<longrightarrow> cmd_CommandId c' = cmd_CommandId c \<longrightarrow>
          k' = k \<and> c' = c))"
proof -
  note reach = assms [unfolded network_reachable_def]
  have received: "logged n k' c" if "c \<in> set (as_received (nw_agents n k'))" for k' c
    using once_inv_reachable [OF reach] that by (simp add: once_inv_def passage_def)
  have once: "distinct (map cmd_CommandId (as_received (nw_agents n k)))"
    using once_inv_reachable [OF reach] by (simp add: once_inv_def passage_def)
  moreover have "distinct (map cr_CommandId (as_answered (nw_agents n k)))"
    using agent_answered_once [OF assms] once by blast
  moreover have "\<exists>i. asks n i k (cmd_Payload c) \<and> issued (nw_server n) i = Some (cmd_CommandId c) \<and>
      (\<forall>k' c'. c' \<in> set (as_received (nw_agents n k')) \<longrightarrow> cmd_CommandId c' = cmd_CommandId c \<longrightarrow>
         k' = k \<and> c' = c)" if c: "c \<in> set (as_received (nw_agents n k))" for c
  proof -
    obtain i where "(cmd_CommandId c, i, k, cmd_Payload c) \<in> nw_log n"
      using received [OF c] by (auto simp: logged_def)
    then have "asks n i k (cmd_Payload c)" "issued (nw_server n) i = Some (cmd_CommandId c)"
      using asked_inv_reachable [OF reach] log_issued [OF reachable_parts(1) [OF reach]]
      by (auto simp: asked_inv_def)
    then show ?thesis using logged_unique [OF reachable_parts(1,2) [OF reach]] received c by metis
  qed
  ultimately show ?thesis by blast
qed

text \<open>The witness: the run of theory \<open>Network\<close>.\<close>

theorem commands_run_at_most_once_witness:
  "let n = demo_end (cmd_Payload demo_command) demo_refusal [] in
   distinct (map cmd_CommandId (as_received (nw_agents n 0))) \<and>
    distinct (map cr_CommandId (as_answered (nw_agents n 0))) \<and>
    (\<forall>c\<in>set (as_received (nw_agents n 0)). \<exists>i. asks n i 0 (cmd_Payload c) \<and>
       issued (nw_server n) i = Some (cmd_CommandId c) \<and>
       (\<forall>k' c'. c' \<in> set (as_received (nw_agents n k')) \<longrightarrow> cmd_CommandId c' = cmd_CommandId c \<longrightarrow>
          k' = 0 \<and> c' = c))"
  unfolding Let_def by (rule commands_run_at_most_once [OF demo_network_reachable])

text \<open>
  C18: the queue, the stream and the agent keep the order. Of two commands for one session, the one
  that was put into its queue first never arrives after the other, whatever is lost in between.
\<close>

theorem commands_arrive_in_order:
  assumes "network_reachable quote answers n" and "(network_step quote answers)\<^sup>*\<^sup>* n n'"
    and "logged n k c1" and "\<not> logged n k c2"
  shows "\<not> subseq [c2, c1] (as_received (nw_agents n' k))"
proof -
  note reach = assms(1) [unfolded network_reachable_def]
  have "\<not> subseq [c2, c1] (passage n' k) \<and> logged n' k c1 \<and> (network_step quote answers)\<^sup>*\<^sup>* new_network n'"
    using assms(2)
  proof (induction rule: rtranclp_induct)
    case base
    have "c2 \<notin> set (passage n k)" using once_inv_reachable [OF reach] assms(4) by (auto simp: once_inv_def)
    then have "\<not> subseq [c2, c1] (passage n k)" using subseq_set by fastforce
    then show ?case using assms(3) reach by blast
  next
    case (step m m')
    then have new: "cmd_CommandId c1 \<noteq> cid" if "calls (nw_server m) i = Some (Sending k cid p)" for i cid p
      using sending_fresh [OF reachable_parts(1,2) that] by blast
    have "\<not> subseq [c2, c1] (passage m' k)"
      using passage_step [OF step.hyps(2), of k]
    proof (elim disjE exE conjE)
      assume "subseq (passage m' k) (passage m k)"
      then show ?thesis using step.IH subseq_order.trans by blast
    next
      fix c i assume "passage m' k = passage m k @ [c]"
        and "calls (nw_server m) i = Some (Sending k (cmd_CommandId c) (cmd_Payload c))"
      then show ?thesis using subseq_pair_snoc [of c2 c1 "passage m k" c] new step.IH by auto
    qed
    moreover have "logged m' k c1" using logged_step [OF step.hyps(2)] step.IH by blast
    ultimately show ?case using step.hyps(2) step.IH by auto
  qed
  then show ?thesis using subseq_rev_drop_many unfolding passage_def by blast
qed

text \<open>The witness: the run of theory \<open>Network\<close>, and then a second command.\<close>

definition second_command :: Command where
  "second_command = demo_command\<lparr>cmd_CommandId := ''8''\<rparr>"

lemma second_arrives:
  "\<exists>n'. (network_step id (\<lambda>_. dispatch_answers quiet_host (NewDispatcher False None False)))\<^sup>*\<^sup>*
      (demo_end (cmd_Payload demo_command) demo_refusal []) n' \<and>
    as_received (nw_agents n' 0) = [demo_command, second_command]"
proof -
  let ?n = "demo_end (cmd_Payload demo_command) demo_refusal []"
  let ?answers = "\<lambda>_::nat. dispatch_answers quiet_host (NewDispatcher False None False)"
  note defs = demo_end_def demo_network_def demo_server_def demo_agent_def new_session_def
  have cmd: "\<lparr>cmd_CommandId = ''8'', cmd_Payload = cmd_Payload demo_command\<rparr> = second_command"
    by (simp add: second_command_def demo_command_def)
  obtain n1 where n1: "(network_step id ?answers)\<^sup>*\<^sup>* ?n n1" "sessions (nw_server n1) 0 =
      Some ((new_session ''srv_1'' ''web1'')\<lparr>ss_send := [Some (ServerMessage_Command second_command)]\<rparr>)"
    "nw_agents n1 = nw_agents ?n" "nw_down n1 = nw_down ?n" "nw_up n1 = nw_up ?n"
    using call_is_sent [of ?n "''srv_1''" 0 "new_session ''srv_1'' ''web1''" 1 "''8''" id ?answers
        "cmd_Payload demo_command"] unfolding cmd by (auto simp: defs)
  have ans: "?answers 0 second_command (Done second_refusal) []"
    by (auto simp: dispatch_answers_def Dispatch_def demo_command_def second_command_def demo_refusal_def
        second_refusal_def handleRestartService_def allowed_services_def result_of_def quiet_host_def id_def)
  from command_is_answered [of n1 0 "(new_session ''srv_1'' ''web1'')
      \<lparr>ss_send := [Some (ServerMessage_Command second_command)]\<rparr>" second_command ?answers second_refusal "[]" id]
  obtain n2 where "(network_step id ?answers)\<^sup>*\<^sup>* n1 n2"
    "as_received (nw_agents n2 0) = as_received (nw_agents n1 0) @ [second_command]"
    using n1 ans by (auto simp: defs)
  moreover have "as_received (nw_agents ?n 0) = [demo_command]" by (simp add: defs demo_command_def)
  ultimately show ?thesis using n1(1,3) by (intro exI [of _ n2]) auto
qed

theorem commands_arrive_in_order_witness:
  "\<exists>n'. (network_step id (\<lambda>_. dispatch_answers quiet_host (NewDispatcher False None False)))\<^sup>*\<^sup>*
      (demo_end (cmd_Payload demo_command) demo_refusal []) n' \<and>
    as_received (nw_agents n' 0) = [demo_command, second_command] \<and>
    \<not> subseq [second_command, demo_command] (as_received (nw_agents n' 0))"
proof -
  obtain n' where n': "(network_step id (\<lambda>_. dispatch_answers quiet_host (NewDispatcher False None False)))\<^sup>*\<^sup>*
      (demo_end (cmd_Payload demo_command) demo_refusal []) n'"
    "as_received (nw_agents n' 0) = [demo_command, second_command]"
    using second_arrives by blast
  have "\<not> subseq [second_command, demo_command] (as_received (nw_agents n' 0))"
    by (rule commands_arrive_in_order [OF demo_network_reachable n'(1)])
      (simp_all add: logged_def demo_end_def demo_network_def demo_command_def second_command_def)
  with n' show ?thesis by blast
qed

section \<open>Timeouts\<close>

lemma call_times_out:
  assumes "calls (nw_server n) i = Some (Waiting cid)"
  shows "\<exists>n'. (network_step quote answers)\<^sup>*\<^sup>* n n' \<and> nw_agents n' = nw_agents n \<and> nw_down n' = nw_down n \<and>
    sessions (nw_server n') = sessions (nw_server n) \<and>
    calls (nw_server n') i = Some (Returned (Some cid) (Inl timeout_error))"
proof -
  let ?s1 = "set_call i (Expired cid) (nw_server n)"
  let ?s2 = "(set_call i (Returned (Some cid) (Inl timeout_error)) ?s1)\<lparr>pending := (pending ?s1)(cid := None)\<rparr>"
  have "server_step quote (nw_server n) ?s1" using assms by (rule server_step.call_timeout)
  then have "quiet_step quote (nw_server n) ?s1" by (rule quiet_call) (auto simp: assms)
  then have 1: "network_step quote answers n (n\<lparr>nw_server := ?s1\<rparr>)" by (rule network_step.server)
  have "server_step quote ?s1 ?s2" by (rule server_step.call_cleanup) simp
  then have "quiet_step quote ?s1 ?s2" by (rule quiet_call) auto
  then have 2: "network_step quote answers (n\<lparr>nw_server := ?s1\<rparr>) (n\<lparr>nw_server := ?s2\<rparr>)"
    using network_step.server [of quote "n\<lparr>nw_server := ?s1\<rparr>" ?s2 answers] by simp
  show ?thesis using 1 2 by (intro exI [of _ "n\<lparr>nw_server := ?s2\<rparr>"]) auto
qed


text \<open>The witness: a command that its call waits for, in the queue of the session.\<close>

definition restart_nginx :: Command where
  "restart_nginx = \<lparr>cmd_CommandId = ''7'', cmd_Payload = Some (Command_RestartService \<lparr>rs_Service = ''nginx''\<rparr>)\<rparr>"

definition waiting_network :: network where
  "waiting_network = demo_network (cmd_Payload restart_nginx)
     (demo_server [Some (ServerMessage_Command restart_nginx)] Looping [''7'' \<mapsto> 0] [] (Some (Waiting ''7'')) {''7''})
     new_agent_session [] [] {(''7'', 0, 0, cmd_Payload restart_nginx)}"

lemma restart_nginx_answer:
  "dispatch_answers quiet_host (NewDispatcher False None False) restart_nginx
     (Done (result_of ''7'' None)) [CExec ''systemctl'' [''restart'', ''nginx'']]"
  by (auto simp: dispatch_answers_def Dispatch_def restart_nginx_def handleRestartService_def allowed_services_def
      RestartService_def run_checked_def host_ops)


end
