(* ===== verification/NetworkRpc.thy ===== *)
theory NetworkRpc
  imports NetworkOnce
begin

text \<open>
  What all of this is for: a remote procedure call. \<open>rpc_step\<close> is an abstract specification of
  \<open>SendCommand\<close> without queues, streams, identifiers, sessions and goroutines: servers join,
  a call asks a server, an agent of that server carries the call out at most once, and the
  call returns the result, if there is one by then, or an error. The network of theory
  \<open>Network\<close> refines it.
\<close>

section \<open>The specification\<close>

text \<open>
  \<open>rp_servers\<close>: the agents that have joined, and as which server; \<open>rp_asked\<close>: what each call asked of
  which server; \<open>rp_runs\<close>: which agent carried it out, and with what result;
  \<open>rp_returned\<close>: what it returned.
\<close>

record rpc =
  rp_servers :: "nat \<rightharpoonup> string"
  rp_asked :: "nat \<rightharpoonup> string \<times> CommandPayload option"
  rp_runs :: "nat \<rightharpoonup> nat \<times> CommandResult"
  rp_returned :: "nat \<rightharpoonup> goerr + CommandResult"

definition new_rpc :: rpc where
  "new_rpc = \<lparr>rp_servers = Map.empty, rp_asked = Map.empty, rp_runs = Map.empty, rp_returned = Map.empty\<rparr>"

text \<open>A call may fail at any time, also after it was carried out, and be carried out after it failed.\<close>

inductive rpc_step :: "(nat \<Rightarrow> Command \<Rightarrow> CommandResult outcome \<Rightarrow> call list \<Rightarrow> bool) \<Rightarrow> rpc \<Rightarrow> rpc \<Rightarrow> bool"
  for answers where
  join: "rp_servers s k = None \<Longrightarrow>
     rpc_step answers s (s\<lparr>rp_servers := (rp_servers s)(k \<mapsto> serverID)\<rparr>)"
| ask: "rp_asked s i = None \<Longrightarrow>
     rpc_step answers s (s\<lparr>rp_asked := (rp_asked s)(i \<mapsto> (serverID, p))\<rparr>)"
| run: "rp_asked s i = Some (serverID, cmd_Payload cmd) \<Longrightarrow> rp_servers s k = Some serverID \<Longrightarrow>
     rp_runs s i = None \<Longrightarrow> answers k cmd (Done r) tr \<Longrightarrow>
     rpc_step answers s (s\<lparr>rp_runs := (rp_runs s)(i \<mapsto> (k, r))\<rparr>)"
| return: "rp_runs s i = Some (k, r) \<Longrightarrow> rp_returned s i = None \<Longrightarrow>
     rpc_step answers s (s\<lparr>rp_returned := (rp_returned s)(i \<mapsto> Inr r)\<rparr>)"
| fail: "rp_asked s i \<noteq> None \<Longrightarrow> rp_returned s i = None \<Longrightarrow>
     rpc_step answers s (s\<lparr>rp_returned := (rp_returned s)(i \<mapsto> Inl e)\<rparr>)"

section \<open>The abstraction\<close>

definition server_names :: "server \<Rightarrow> nat \<rightharpoonup> string" where
  "server_names s k = map_option ss_serverID (sessions s k)"

definition returned_of :: "server \<Rightarrow> nat \<rightharpoonup> goerr + CommandResult" where
  "returned_of s i = (case calls s i of Some (Returned c res) \<Rightarrow> Some res | _ \<Rightarrow> None)"

text \<open>The agent of session \<open>k\<close> has carried out call \<open>i\<close>.\<close>

definition carried_out :: "network \<Rightarrow> nat \<Rightarrow> nat \<Rightarrow> CommandResult \<Rightarrow> bool" where
  "carried_out n i k r \<longleftrightarrow> r \<in> set (as_answered (nw_agents n k)) \<and> (\<exists>p. (cr_CommandId r, i, k, p) \<in> nw_log n)"

definition implements :: "network \<Rightarrow> rpc \<Rightarrow> bool" where
  "implements n s \<longleftrightarrow> rp_servers s = server_names (nw_server n) \<and> rp_asked s = nw_asked n \<and>
     rp_returned s = returned_of (nw_server n) \<and> (\<forall>i k r. rp_runs s i = Some (k, r) \<longleftrightarrow> carried_out n i k r)"

section \<open>What a step of the server shows\<close>

lemma server_effect:
  assumes "server_step quote s t"
  shows "server_names t = server_names s \<and> returned_of t = returned_of s \<or>
    (\<exists>k sid. server_names s k = None \<and> server_names t = (server_names s)(k \<mapsto> sid) \<and> returned_of t = returned_of s) \<or>
    (\<exists>i e. server_names t = server_names s \<and> calls s i \<noteq> None \<and> returned_of s i = None \<and>
       returned_of t = (returned_of s)(i \<mapsto> Inl e)) \<or>
    (\<exists>i r. server_names t = server_names s \<and> r \<in> set (chans s i) \<and> returned_of s i = None \<and>
       returned_of t = (returned_of s)(i \<mapsto> Inr r))"
  using assms
proof (cases rule: server_step.cases)
  case (register k sid host)
  then show ?thesis
    by (intro disjI2 disjI1 exI [of _ k] exI [of _ sid])
      (auto simp: server_names_def returned_of_def registerAgent_def new_session_def fun_eq_iff)
next
  case (receive k a now msg)
  then show ?thesis using handleAgentMessage_cases [of k a now msg s]
    by (intro disjI1) (auto simp: server_names_def returned_of_def fun_eq_iff)
next
  case (call_refused i sid p)
  then show ?thesis
    by (intro disjI2 disjI1 exI [of _ i] exI) (auto simp: server_names_def returned_of_def fun_eq_iff)
next
  case (call_cleanup i cid)
  then show ?thesis
    by (intro disjI2 disjI1 exI [of _ i] exI) (auto simp: server_names_def returned_of_def fun_eq_iff)
next
  case (call_result i cid r rest)
  then show ?thesis
    by (intro disjI2 exI [of _ i] exI [of _ r]) (auto simp: server_names_def returned_of_def fun_eq_iff)
qed (auto simp: server_names_def returned_of_def unregisterAgent_def fun_eq_iff)

section \<open>What the agents have answered\<close>

lemma running_received:
  "(agent_step ans)\<^sup>*\<^sup>* new_agent_session a \<Longrightarrow> set_mset (as_running a) \<subseteq> set (as_received a)"
proof (induction rule: rtranclp_induct)
  case base
  then show ?case by (simp add: new_agent_session_def)
next
  case (step a b)
  from step.hyps(2) step.IH show ?case by (elim agent_stepE) (auto dest: in_diffD)
qed

lemma sent_results_set: "Some (AgentMessage_CommandResult r) \<in> set ms \<Longrightarrow> r \<in> set (sent_results ms)"
  by (induction ms rule: sent_results.induct) auto

lemma distinct_parts:
  assumes "distinct xs" and "mset xs = A + B" and "x \<in># A"
  shows "x \<notin># B"
proof -
  have "count (A + B) x \<le> 1" using assms(1) unfolding assms(2) [symmetric] by (simp add: distinct_count_atmost_1)
  moreover have "0 < count A x" using assms(3) by (simp only: count_greater_zero_iff)
  ultimately have "count B x = 0" unfolding plus_multiset.rep_eq by linarith
  then show ?thesis by (simp only: not_in_iff)
qed

lemma calls_receive: "calls (handleAgentMessage k a now msg s) = calls s"
  using handleAgentMessage_cases [of k a now msg s] by auto

lemma calls_stay:
  assumes "server_step quote s t" and "calls t i = None"
  shows "calls s i = None"
  using assms
  by (cases rule: server_step.cases)
    (auto simp: calls_receive registerAgent_def unregisterAgent_def split: if_splits)

text \<open>A call is in the history exactly when it has begun.\<close>

lemma quiet_calls: "quiet_step quote s t \<Longrightarrow> calls t i = None \<longleftrightarrow> calls s i = None"
  using calls_stay by (auto simp: quiet_step_def dom_def)

lemma asked_begun:
  "(network_step quote answers)\<^sup>*\<^sup>* new_network n \<Longrightarrow> nw_asked n i = None \<longleftrightarrow> calls (nw_server n) i = None"
proof (induction rule: rtranclp_induct)
  case base
  then show ?case by (simp add: new_network_def NewServer_def)
next
  case (step n n')
  from step.hyps(2) step.IH show ?case by (elim network_stepE) (auto simp: quiet_calls calls_receive)
qed

text \<open>
  A network whose dispatchers answer under the identifier of the command: what is proved here holds
  for every such network, and the dispatchers of the agents are one.
\<close>

locale command_network =
  fixes answers :: "nat \<Rightarrow> Command \<Rightarrow> CommandResult outcome \<Rightarrow> call list \<Rightarrow> bool"
  assumes services: "command_service (answers k) (\<lambda>c. True)"
begin

lemma answer_ids: "answers k cmd (Done r) tr \<Longrightarrow> cr_CommandId r = cmd_CommandId cmd"
  using services command_service.answer_id by blast

lemma agent_facts:
  assumes "network_reachable quote answers n"
  shows "mset (map cmd_CommandId (as_received (nw_agents n k))) = image_mset cmd_CommandId (as_running (nw_agents n k)) +
      mset (map cr_CommandId (as_answered (nw_agents n k)))"
    and "set (sent_results (as_sent (nw_agents n k))) \<subseteq> set (as_answered (nw_agents n k))"
    and "set_mset (as_running (nw_agents n k)) \<subseteq> set (as_received (nw_agents n k))"
proof -
  note reach = network_agent_reachable [OF assms [unfolded network_reachable_def], of k]
  note once = command_service.answered_once [OF services reach]
  show "mset (map cmd_CommandId (as_received (nw_agents n k))) = image_mset cmd_CommandId (as_running (nw_agents n k)) +
      mset (map cr_CommandId (as_answered (nw_agents n k)))" using once by blast
  show "set (sent_results (as_sent (nw_agents n k))) \<subseteq> set (as_answered (nw_agents n k))"
    using once set_mset_mono by fastforce
  show "set_mset (as_running (nw_agents n k)) \<subseteq> set (as_received (nw_agents n k))"
    by (rule running_received [OF reach])
qed

lemma received_logged:
  assumes "network_reachable quote answers n" and "c \<in> set (as_received (nw_agents n k))"
  shows "logged n k c"
  using once_inv_reachable [OF assms(1) [unfolded network_reachable_def]] assms(2)
  by (simp add: once_inv_def passage_def)

lemma answered_logged:
  assumes "network_reachable quote answers n" and "r \<in> set (as_answered (nw_agents n k))"
  obtains i p where "(cr_CommandId r, i, k, p) \<in> nw_log n"
proof -
  have "cr_CommandId r \<in># mset (map cmd_CommandId (as_received (nw_agents n k)))"
    unfolding agent_facts(1) [OF assms(1)] using assms(2) by auto
  then obtain c where c: "c \<in> set (as_received (nw_agents n k))" "cmd_CommandId c = cr_CommandId r" by auto
  from received_logged [OF assms(1) c(1)] show thesis using that c(2) by (auto simp: logged_def)
qed

text \<open>A command that is running has no answer.\<close>

lemma running_unanswered:
  assumes "network_reachable quote answers n" and "c \<in># as_running (nw_agents n k)"
    and "r \<in> set (as_answered (nw_agents n k))"
  shows "cr_CommandId r \<noteq> cmd_CommandId c"
proof -
  have "distinct (map cmd_CommandId (as_received (nw_agents n k)))"
    using once_inv_reachable [OF assms(1) [unfolded network_reachable_def]] by (simp add: once_inv_def passage_def)
  from distinct_parts [OF this agent_facts(1) [OF assms(1)], of "cmd_CommandId c"]
  have "cmd_CommandId c \<notin># mset (map cr_CommandId (as_answered (nw_agents n k)))" using assms(2) by simp
  then show ?thesis using assms(3) by (metis imageI set_map set_mset_mset)
qed

text \<open>A result on its way back was computed by an agent for the call it goes to.\<close>

lemma result_answered:
  "network_reachable quote answers n \<Longrightarrow> r \<in> server_results (nw_server n) \<Longrightarrow>
     \<exists>k. r \<in> set (as_answered (nw_agents n k))"
  unfolding network_reachable_def
proof (induction rule: rtranclp_induct)
  case base
  then show ?case by (simp add: new_network_def NewServer_def server_results_def delivering_def)
next
  case (step n n')
  have reach: "network_reachable quote answers n" using step.hyps(1) by (simp add: network_reachable_def)
  have "\<exists>k. r \<in> set (as_answered (nw_agents n k))"
    using returning_server [OF step.hyps(2) step.prems] unfolding returning_def
  proof
    assume "\<exists>k. Some (AgentMessage_CommandResult r) \<in> set (nw_up n k)"
    then obtain k where "Some (AgentMessage_CommandResult r) \<in> set (as_sent (nw_agents n k))"
      using beats_invD(1) [OF beats_inv_reachable [OF reach]] by blast
    then show ?thesis using sent_results_set agent_facts(2) [OF reach] by blast
  qed (rule step.IH)
  then obtain k where "r \<in> set (as_answered (nw_agents n k))" by blast
  moreover have "set (as_answered (nw_agents n k)) \<subseteq> set (as_answered (nw_agents n' k))"
    using network_agent [OF step.hyps(2), of k] by (auto elim: agent_stepE)
  ultimately show ?case by blast
qed

lemma returned_was_carried_out:
  assumes "network_reachable quote answers n" and "r \<in> set (chans (nw_server n) i)"
  obtains k where "carried_out n i k r"
proof -
  note reach = assms(1) [unfolded network_reachable_def]
  have srv: "chans_ok (nw_server n)" "ids_ok (nw_server n)"
    using reachable_inv [OF network_server_reachable [OF reach]] by (simp_all add: server_inv_def)
  obtain k where k: "r \<in> set (as_answered (nw_agents n k))"
    using result_answered [OF assms(1) server_resultsI(2) [OF assms(2)]] by blast
  obtain j p where log: "(cr_CommandId r, j, k, p) \<in> nw_log n" by (rule answered_logged [OF assms(1) k])
  have "issued (nw_server n) i = Some (cr_CommandId r)" using srv(1) assms(2) by (simp add: chans_ok_def)
  moreover have "issued (nw_server n) j = Some (cr_CommandId r)"
    by (rule log_issued [OF reachable_parts(1) [OF reach] log])
  ultimately have "j = i" using srv(2) unfolding ids_ok_def by blast
  then show thesis using that k log by (auto simp: carried_out_def)
qed

section \<open>The simulation\<close>

text \<open>A step that changes nothing that an agent has answered and sends nothing.\<close>

lemma implements_server:
  assumes reach: "network_reachable quote answers n" and impl: "implements n s"
    and step: "server_step quote (nw_server n) t"
    and n': "nw_server n' = t" "nw_asked n' = nw_asked n" "\<And>i k r. carried_out n' i k r = carried_out n i k r"
  shows "\<exists>s'. (s' = s \<or> rpc_step answers s s') \<and> implements n' s'"
proof -
  note s = impl [unfolded implements_def]
  note begun = asked_begun [OF reach [unfolded network_reachable_def]]
  from server_effect [OF step] show ?thesis
  proof (elim disjE exE conjE)
    fix k sid assume "server_names (nw_server n) k = None"
      and eq: "server_names t = (server_names (nw_server n))(k \<mapsto> sid)" "returned_of t = returned_of (nw_server n)"
    then have "rpc_step answers s (s\<lparr>rp_servers := (rp_servers s)(k \<mapsto> sid)\<rparr>)" using s by (intro rpc_step.join) simp
    moreover have "implements n' (s\<lparr>rp_servers := (rp_servers s)(k \<mapsto> sid)\<rparr>)"
      using s eq n' by (simp add: implements_def)
    ultimately show ?thesis by blast
  next
    fix i e assume i: "calls (nw_server n) i \<noteq> None" "returned_of (nw_server n) i = None"
      and eq: "server_names t = server_names (nw_server n)" "returned_of t = (returned_of (nw_server n))(i \<mapsto> Inl e)"
    have "rp_asked s i \<noteq> None" using i(1) s begun by simp
    then have "rpc_step answers s (s\<lparr>rp_returned := (rp_returned s)(i \<mapsto> Inl e)\<rparr>)"
      using s i(2) by (intro rpc_step.fail) simp_all
    moreover have "implements n' (s\<lparr>rp_returned := (rp_returned s)(i \<mapsto> Inl e)\<rparr>)"
      using s eq n' by (simp add: implements_def)
    ultimately show ?thesis by blast
  next
    fix i r assume i: "r \<in> set (chans (nw_server n) i)" "returned_of (nw_server n) i = None"
      and eq: "server_names t = server_names (nw_server n)" "returned_of t = (returned_of (nw_server n))(i \<mapsto> Inr r)"
    obtain k where "carried_out n i k r" by (rule returned_was_carried_out [OF reach i(1)])
    then have "rpc_step answers s (s\<lparr>rp_returned := (rp_returned s)(i \<mapsto> Inr r)\<rparr>)"
      using s i(2) by (intro rpc_step.return) simp_all
    moreover have "implements n' (s\<lparr>rp_returned := (rp_returned s)(i \<mapsto> Inr r)\<rparr>)"
      using s eq n' by (simp add: implements_def)
    ultimately show ?thesis by blast
  qed (use s n' in \<open>auto simp: implements_def\<close>)
qed

text \<open>An agent that answers a command: the call of the command is carried out.\<close>

lemma carried_out_step:
  assumes reach: "network_reachable quote answers n"
    and c: "c \<in># as_running (nw_agents n k)" and r: "answers k c (Done r) tr" and log: "(cmd_CommandId c, i, k, p) \<in> nw_log n"
    and n': "nw_log n' = nw_log n" "\<And>j. as_answered (nw_agents n' j) =
      (if j = k then as_answered (nw_agents n k) @ [r] else as_answered (nw_agents n j))"
  shows "\<not> carried_out n i k' r'" and "carried_out n' j k' r' \<longleftrightarrow> (j, k', r') = (i, k, r) \<or> carried_out n j k' r'"
proof -
  note parts = reachable_parts [OF reach [unfolded network_reachable_def]]
  have id: "cr_CommandId r = cmd_CommandId c" by (rule answer_ids [OF r])
  show none: "\<not> carried_out n i k' r'" for k' r'
  proof
    assume "carried_out n i k' r'"
    then obtain q where r': "r' \<in> set (as_answered (nw_agents n k'))" "(cr_CommandId r', i, k', q) \<in> nw_log n"
      by (auto simp: carried_out_def)
    then have "cr_CommandId r' = cmd_CommandId c" "k' = k" using log_inv_unique [OF parts(1) log r'(2)] by simp_all
    then show False using running_unanswered [OF reach c] r'(1) by simp
  qed
  have only: "j = i" if "(cr_CommandId r, j, k, q) \<in> nw_log n" for j q
  proof -
    have "issued (nw_server n) j = issued (nw_server n) i" "issued (nw_server n) i = Some (cr_CommandId r)"
      using log_issued [OF parts(1) that] log_issued [OF parts(1) log] id by simp_all
    then show ?thesis using parts(2) unfolding ids_ok_def by metis
  qed
  then have "(\<exists>q. (cr_CommandId r, j, k, q) \<in> nw_log n) \<longleftrightarrow> j = i" using log id by metis
  moreover have "r' \<in> set (as_answered (nw_agents n' k')) \<longleftrightarrow>
      k' = k \<and> r' = r \<or> r' \<in> set (as_answered (nw_agents n k'))" by (auto simp: n'(2))
  ultimately show "carried_out n' j k' r' \<longleftrightarrow> (j, k', r') = (i, k, r) \<or> carried_out n j k' r'"
    unfolding carried_out_def n'(1) by blast
qed

lemma implements_answer:
  assumes reach: "network_reachable quote answers n" and impl: "implements n s"
    and c: "c \<in># as_running (nw_agents n k)" and r: "answers k c (Done r) tr"
    and n': "nw_server n' = nw_server n" "nw_asked n' = nw_asked n" "nw_log n' = nw_log n"
      "\<And>j. as_answered (nw_agents n' j) =
        (if j = k then as_answered (nw_agents n k) @ [r] else as_answered (nw_agents n j))"
  shows "\<exists>s'. (s' = s \<or> rpc_step answers s s') \<and> implements n' s'"
proof -
  note s = impl [unfolded implements_def]
  have "logged n k c" using received_logged [OF reach] agent_facts(3) [OF reach] c by blast
  then obtain i where log: "(cmd_CommandId c, i, k, cmd_Payload c) \<in> nw_log n" by (auto simp: logged_def)
  then have "asks n i k (cmd_Payload c)"
    using asked_inv_reachable [OF reach [unfolded network_reachable_def]] unfolding asked_inv_def by blast
  then obtain sid where "rp_asked s i = Some (sid, cmd_Payload c)" "rp_servers s k = Some sid"
    using s by (auto simp: asks_def server_names_def)
  moreover have "rp_runs s i = None"
    using carried_out_step(1) [OF reach c r log n'(3,4)] s by (metis not_None_eq surj_pair)
  ultimately have "rpc_step answers s (s\<lparr>rp_runs := (rp_runs s)(i \<mapsto> (k, r))\<rparr>)" using r by (rule rpc_step.run)
  moreover have "implements n' (s\<lparr>rp_runs := (rp_runs s)(i \<mapsto> (k, r))\<rparr>)"
    using s carried_out_step [OF reach c r log n'(3,4)] n'(1,2) by (auto simp: implements_def)
  ultimately show ?thesis by blast
qed

lemma implements_same:
  assumes "implements n s" and "nw_server n' = nw_server n" and "nw_asked n' = nw_asked n" and "nw_log n' = nw_log n"
    and "\<And>k. as_answered (nw_agents n' k) = as_answered (nw_agents n k)"
  shows "\<exists>s'. (s' = s \<or> rpc_step answers s s') \<and> implements n' s'"
  using assms by (intro exI [of _ s]) (simp add: implements_def carried_out_def)

text \<open>Sending writes the log, but of a command that nobody can have answered yet.\<close>

lemma carried_out_send:
  assumes "network_reachable quote answers n" and "calls (nw_server n) i = Some (Sending k cid p)"
    and "nw_log n' = insert (cid, i, k, p) (nw_log n)" and "nw_agents n' = nw_agents n"
  shows "carried_out n' j k' r = carried_out n j k' r"
proof -
  have "cr_CommandId r \<noteq> cid" if r: "r \<in> set (as_answered (nw_agents n k'))"
  proof -
    obtain j p' where "(cr_CommandId r, j, k', p') \<in> nw_log n" by (rule answered_logged [OF assms(1) r])
    then have "logged n k' \<lparr>cmd_CommandId = cr_CommandId r, cmd_Payload = p'\<rparr>" by (auto simp: logged_def)
    from sending_fresh [OF reachable_parts(1,2) [OF assms(1) [unfolded network_reachable_def]] assms(2) this]
    show ?thesis by simp
  qed
  then show ?thesis unfolding carried_out_def assms(3,4) by auto
qed

lemma agent_effect:
  assumes "agent_step (answers k) a b"
  obtains "as_answered b = as_answered a"
  | c r tr where "c \<in># as_running a" and "answers k c (Done r) tr" and "as_answered b = as_answered a @ [r]"
  using assms by (elim agent_stepE) auto

lemma implements_call:
  assumes reach: "network_reachable quote answers n" and impl: "implements n s" and new: "calls (nw_server n) i = None"
  shows "\<exists>s'. rpc_step answers s s' \<and> implements (n\<lparr>nw_server := set_call i (Start sid p) (nw_server n),
    nw_asked := (nw_asked n)(i \<mapsto> (sid, p))\<rparr>) s'"
proof (intro exI conjI)
  show "rpc_step answers s (s\<lparr>rp_asked := (rp_asked s)(i \<mapsto> (sid, p))\<rparr>)"
    using impl asked_begun [OF reach [unfolded network_reachable_def], of i] new
    by (intro rpc_step.ask) (simp add: implements_def)
  show "implements (n\<lparr>nw_server := set_call i (Start sid p) (nw_server n),
      nw_asked := (nw_asked n)(i \<mapsto> (sid, p))\<rparr>) (s\<lparr>rp_asked := (rp_asked s)(i \<mapsto> (sid, p))\<rparr>)"
    using impl new by (auto simp: implements_def carried_out_def server_names_def returned_of_def fun_eq_iff)
qed

lemma network_simulation:
  assumes reach: "network_reachable quote answers n" and impl: "implements n s" and step: "network_step quote answers n n'"
  shows "\<exists>s'. (s' = s \<or> rpc_step answers s s') \<and> implements n' s'"
  using step
proof (cases rule: network_step.cases)
  case (server t)
  then have "server_step quote (nw_server n) t" by (simp add: quiet_step_def)
  then show ?thesis by (rule implements_server [OF reach impl]) (simp_all add: server carried_out_def)
next
  case (call i sid p)
  then show ?thesis using implements_call [OF reach impl call(2)] by blast
next
  case (send i k cid p a)
  show ?thesis
    by (rule implements_server [OF reach impl server_step.call_send [OF send(2-4)]])
      (use send carried_out_send [OF reach send(2)] in simp_all)
next
  case (transmit k a msg rest)
  show ?thesis
    by (rule implements_server [OF reach impl server_step.transmit [OF transmit(2-4)]])
      (simp_all add: transmit(1) carried_out_def)
next
  case (receive k a msg ms now)
  show ?thesis
    by (rule implements_server [OF reach impl server_step.receive [OF receive(2,3)]])
      (simp_all add: receive(1) carried_out_def)
next
  case (agent k b)
  from agent(2) show ?thesis
  proof (cases rule: agent_effect)
    case 1
    then show ?thesis by (intro implements_same [OF impl]) (simp_all add: agent(1))
  next
    case (2 c r tr)
    then show ?thesis by (intro implements_answer [OF reach impl 2(1,2)]) (simp_all add: agent(1))
  qed
qed (intro implements_same [OF impl]; simp)+

lemma network_refines:
  "(network_step quote answers)\<^sup>*\<^sup>* new_network n \<Longrightarrow> \<exists>s. (rpc_step answers)\<^sup>*\<^sup>* new_rpc s \<and> implements n s"
proof (induction rule: rtranclp_induct)
  case base
  have "implements new_network new_rpc"
    by (simp add: implements_def carried_out_def new_network_def new_rpc_def NewServer_def server_names_def
        returned_of_def new_agent_session_def fun_eq_iff)
  then show ?case by blast
next
  case (step n n')
  then obtain s where s: "(rpc_step answers)\<^sup>*\<^sup>* new_rpc s" "implements n s" by blast
  then show ?case using network_simulation [OF _ s(2) step.hyps(2)] step.hyps(1)
    by (auto simp: network_reachable_def intro: rtranclp.rtrancl_into_rtrancl)
qed

end

text \<open>The specification promises what its name says.\<close>

lemma rpc_promises:
  assumes "(rpc_step answers)\<^sup>*\<^sup>* new_rpc s"
  shows "(rp_runs s i = Some (k, r) \<longrightarrow> (\<exists>sid cmd tr. rp_servers s k = Some sid \<and>
      rp_asked s i = Some (sid, cmd_Payload cmd) \<and> answers k cmd (Done r) tr)) \<and>
    (rp_returned s i = Some (Inr r') \<longrightarrow> (\<exists>k. rp_runs s i = Some (k, r')))"
  using assms
proof (induction rule: rtranclp_induct)
  case base
  then show ?case by (simp add: new_rpc_def)
next
  case (step s t)
  from step.hyps(2) step.IH show ?case by (cases rule: rpc_step.cases) auto
qed

section \<open>Properties\<close>

interpretation dispatchers: command_network "\<lambda>k. dispatch_answers (hs k) (ds k)" for hs ds
  by unfold_locales (auto simp: list_all_iff intro: dispatch.answer_id)

text \<open>
  C2: server, streams and agents together implement a remote procedure call. Every state that
  the network can reach implements a state that the specification can reach, and every
  step of the network from there is one step of the specification, or none: a call is carried out
  at most once, by an agent of the server it asked, with what it asked; a result that is
  returned is the one of this run; and an error may be returned at any time.
\<close>

theorem network_refines_rpc:
  assumes "network_reachable quote (\<lambda>k. dispatch_answers (hs k) (ds k)) n"
  shows "(\<exists>s. (rpc_step (\<lambda>k. dispatch_answers (hs k) (ds k)))\<^sup>*\<^sup>* new_rpc s \<and> implements n s) \<and>
    (\<forall>s n'. implements n s \<longrightarrow> network_step quote (\<lambda>k. dispatch_answers (hs k) (ds k)) n n' \<longrightarrow>
       (\<exists>s'. (s' = s \<or> rpc_step (\<lambda>k. dispatch_answers (hs k) (ds k)) s s') \<and> implements n' s'))"
  using dispatchers.network_refines [OF assms [unfolded network_reachable_def]]
    dispatchers.network_simulation [OF assms] by blast

text \<open>The witness: the run of theory \<open>Network\<close>, whose call was carried out and has returned.\<close>

theorem network_refines_rpc_witness:
  "let n = demo_end (cmd_Payload demo_command) demo_refusal [];
       answers = \<lambda>_. dispatch_answers quiet_host (NewDispatcher False None False)
   in (\<exists>s. (rpc_step answers)\<^sup>*\<^sup>* new_rpc s \<and> implements n s) \<and>
    (\<forall>s n'. implements n s \<longrightarrow> network_step id answers n n' \<longrightarrow>
       (\<exists>s'. (s' = s \<or> rpc_step answers s s') \<and> implements n' s')) \<and>
    carried_out n 0 0 demo_refusal"
  unfolding Let_def
  using network_refines_rpc [OF demo_network_reachable]
  by (simp add: carried_out_def demo_end_def demo_network_def demo_agent_def demo_refusal_def)

end
