(* ===== verification/Deployment.thy ===== *)
theory Deployment
  imports ControlPlane NetworkRpc
begin

text \<open>
  All parts together: the control plane with its store (theory \<open>ControlPlane\<close>) and the agents at
  the other end of its sessions (theory \<open>Network\<close>). A deployment takes the steps of both, so
  what is known of each holds of it: that sessions begin with a token, and that
  commands are carried out as the specification of theory \<open>NetworkRpc\<close> says.
\<close>

section \<open>State and steps\<close>

record 'p deployment =
  dp_net :: network
  dp_accepted :: "(string \<times> string) set"
  dp_store :: 'p

definition deployed :: "'p \<Rightarrow> 'p deployment" where
  "deployed p = \<lparr>dp_net = new_network, dp_accepted = {}, dp_store = p\<rparr>"

text \<open>A deployment as a control plane: the agents are left out.\<close>

definition control :: "'p deployment \<Rightarrow> 'p control_plane" where
  "control d = \<lparr>cp_server = nw_server (dp_net d), cp_accepted = dp_accepted d, cp_store = dp_store d\<rparr>"

text \<open>
  The store's steps are those of the control plane that leave the server alone. An agent that was
  accepted is registered; otherwise the network goes on, and begins no session of its own. A
  restart of the API ends all streams.
\<close>

inductive deployment_step :: "(string \<Rightarrow> string) \<Rightarrow> (string \<Rightarrow> string) \<Rightarrow> 'p pgpool
    \<Rightarrow> (nat \<Rightarrow> Command \<Rightarrow> CommandResult outcome \<Rightarrow> call list \<Rightarrow> bool) \<Rightarrow> 'p deployment \<Rightarrow> 'p deployment \<Rightarrow> bool"
  for quote sha pool answers where
  store: "cp_step quote sha pool (control d) (control d\<lparr>cp_accepted := A, cp_store := p\<rparr>) \<Longrightarrow>
     deployment_step quote sha pool answers d (d\<lparr>dp_accepted := A, dp_store := p\<rparr>)"
| register: "(sid, host) \<in> dp_accepted d \<Longrightarrow> sessions (nw_server (dp_net d)) k = None \<Longrightarrow>
     deployment_step quote sha pool answers d (d\<lparr>dp_net := (dp_net d)
       \<lparr>nw_server := registerAgent k (new_session sid host) (nw_server (dp_net d))\<rparr>\<rparr>)"
| network: "network_step quote answers (dp_net d) n \<Longrightarrow>
     dom (sessions (nw_server n)) \<subseteq> dom (sessions (nw_server (dp_net d))) \<Longrightarrow>
     deployment_step quote sha pool answers d (d\<lparr>dp_net := n\<rparr>)"
| restart: "deployment_step quote sha pool answers d (deployed (snd (NewStore (Inr pool) ping (dp_store d))))"

section \<open>The parts take their own steps\<close>

lemma deployment_control:
  assumes "deployment_step quote sha pool answers d d'"
  shows "control d' = control d \<or> cp_step quote sha pool (control d) (control d')"
  using assms
proof (cases rule: deployment_step.cases)
  case (store A p)
  then show ?thesis by (simp add: control_def)
next
  case (register sid host k)
  then show ?thesis using cp_step.register [of sid host "control d" k quote sha pool] by (simp add: control_def)
next
  case (network n)
  then show ?thesis using network_server [OF network(2)] cp_step.server [of quote "control d" "nw_server n" sha pool]
    by (auto simp: control_def)
next
  case (restart ping)
  then show ?thesis using cp_step.restart [of quote sha pool "control d" ping]
    by (simp add: control_def deployed_def started_def new_network_def)
qed

lemma registration_step:
  assumes "sessions (nw_server n) k = None"
  shows "network_step quote answers n (n\<lparr>nw_server := registerAgent k (new_session sid host) (nw_server n)\<rparr>)"
proof (rule network_step.server)
  show "quiet_step quote (nw_server n) (registerAgent k (new_session sid host) (nw_server n))"
    using server_step.register [OF assms, of quote sid host] assms
    by (auto simp: quiet_step_def registerAgent_def new_session_def queue_def shown_def delivering_def fun_eq_iff
        split: if_splits)
qed

lemma deployment_network:
  assumes "deployment_step quote sha pool answers d d'" and "network_reachable quote answers (dp_net d)"
  shows "network_reachable quote answers (dp_net d')"
  using assms(1)
proof (cases rule: deployment_step.cases)
  case (register sid host k)
  then show ?thesis using registration_step [OF register(3), of quote answers sid host] assms(2)
    by (simp add: network_reachable_def rtranclp.rtrancl_into_rtrancl)
next
  case (network n)
  then show ?thesis using assms(2) by (simp add: network_reachable_def rtranclp.rtrancl_into_rtrancl)
qed (use assms(2) in \<open>simp_all add: deployed_def network_reachable_def\<close>)

lemma deployment_parts:
  assumes "(deployment_step quote sha pool answers)\<^sup>*\<^sup>* (deployed p) d"
  shows "(cp_step quote sha pool)\<^sup>*\<^sup>* (started p) (control d) \<and> network_reachable quote answers (dp_net d)"
  using assms
proof (induction rule: rtranclp_induct)
  case base
  then show ?case by (simp add: control_def deployed_def started_def new_network_def network_reachable_def)
next
  case (step d d')
  then show ?case using deployment_control [OF step.hyps(2)] deployment_network [OF step.hyps(2)]
    by (auto intro: rtranclp.rtrancl_into_rtrancl)
qed

text \<open>Sessions never vanish, so a run of the network that ends with those it began with is one of the deployment.\<close>

lemma sessions_grow:
  "network_step quote answers n n' \<Longrightarrow> dom (sessions (nw_server n)) \<subseteq> dom (sessions (nw_server n'))"
  using network_server [of quote answers n n'] serverID_step by (metis domIff not_None_eq order_refl subsetI)

lemma network_run:
  assumes "(network_step quote answers)\<^sup>*\<^sup>* (dp_net d) n"
    and "dom (sessions (nw_server n)) \<subseteq> dom (sessions (nw_server (dp_net d)))"
  shows "(deployment_step quote sha pool answers)\<^sup>*\<^sup>* d (d\<lparr>dp_net := n\<rparr>)"
  using assms
proof (induction rule: rtranclp_induct)
  case base
  then show ?case by simp
next
  case (step n n')
  have "dom (sessions (nw_server (dp_net d))) \<subseteq> dom (sessions (nw_server n))"
    using step.hyps(1) by (induction rule: rtranclp_induct) (use sessions_grow in blast)+
  then have "deployment_step quote sha pool answers (d\<lparr>dp_net := n\<rparr>) (d\<lparr>dp_net := n'\<rparr>)"
    using deployment_step.network [of quote answers "d\<lparr>dp_net := n\<rparr>" n' sha pool] step.hyps(2) step.prems by auto
  moreover have "dom (sessions (nw_server n)) \<subseteq> dom (sessions (nw_server (dp_net d)))"
    using sessions_grow [OF step.hyps(2)] step.prems by blast
  ultimately show ?case using step.IH by (blast intro: rtranclp.rtrancl_into_rtrancl)
qed

section \<open>Properties\<close>

text \<open>
  C15: commands reach provisioned servers only. In a deployment, an agent receives a command
  only in a session of a server that a provisioning token is bound to and that has a row in
  the table of servers, and the command is what a call was asked to send to this server.
\<close>

theorem commands_reach_provisioned_servers:
  assumes "pg_tables pool tabs" and "schema_ok (tabs p)"
    and "(deployment_step quote sha pool answers)\<^sup>*\<^sup>* (deployed p) d"
    and "c \<in> set (as_received (nw_agents (dp_net d) k))"
  shows "\<exists>a i. sessions (nw_server (dp_net d)) k = Some a \<and>
    ss_serverID a \<in> bound_ids (tabs (dp_store d)) \<inter> server_ids (tabs (dp_store d)) \<and>
    nw_asked (dp_net d) i = Some (ss_serverID a, cmd_Payload c)"
proof -
  have cp: "(cp_step quote sha pool)\<^sup>*\<^sup>* (started p) (control d)"
    and net: "(network_step quote answers)\<^sup>*\<^sup>* new_network (dp_net d)"
    using deployment_parts [OF assms(3)] by (simp_all add: network_reachable_def)
  have "logged (dp_net d) k c"
    using once_inv_reachable [OF net] assms(4) by (simp add: once_inv_def passage_def)
  then obtain i a where "sessions (nw_server (dp_net d)) k = Some a"
    "nw_asked (dp_net d) i = Some (ss_serverID a, cmd_Payload c)"
    using asked_inv_reachable [OF net] unfolding asked_inv_def logged_def asks_def by blast
  moreover have "ss_serverID a \<in> bound_ids (tabs (dp_store d)) \<inter> server_ids (tabs (dp_store d))"
    if "sessions (nw_server (dp_net d)) k = Some a" for a
    using pg_tables.sessions_bound(1) [OF assms(1,2) cp] that by (auto simp: control_def ran_def)
  ultimately show ?thesis by blast
qed

text \<open>The witness: the agent of a server that is in the tables registers, and gets a command.\<close>

definition provisioned_db :: reldb where
  "provisioned_db = \<lparr>db_tables = \<lparr>tokens = [\<lparr>tk_id = ''0'', tk_hash = hashToken (\<lambda>s. s) ''tok'',
       tk_created_at = 0, tk_used_at = Some 1, tk_server_id = Some ''srv_1''\<rparr>],
     servers = [(''srv_1'', ''web1'')]\<rparr>, db_next = 1\<rparr>"

definition provisioned_prologue :: "(ServerMessage list \<times> (goerr + string \<times> string)) \<times> reldb" where
  "provisioned_prologue = connect_prologue (\<lambda>s. s) (Some rel_pool) ''x'' 5 (\<lambda>_. None)
     (Inr (Some (AgentMessage_Register web1_request))) provisioned_db"

definition demo_deployment :: "reldb deployment" where
  "demo_deployment = \<lparr>dp_net = demo_end (cmd_Payload demo_command) demo_refusal [],
     dp_accepted = {(''srv_1'', ''web1'')}, dp_store = snd provisioned_prologue\<rparr>"

lemma provisioned_accepted:
  "connect_prologue (\<lambda>s. s) (Some rel_pool) ''x'' 5 (\<lambda>_. None)
     (Inr (Some (AgentMessage_Register web1_request))) provisioned_db =
   ((fst (fst provisioned_prologue), Inr (''srv_1'', ''web1'')), snd provisioned_prologue)"
proof -
  have "snd (fst provisioned_prologue) = Inr (''srv_1'', ''web1'')"
    by (simp add: provisioned_prologue_def connect_prologue_def authenticate_def web1_request_def ValidateToken_def
        UpsertServer_def rel_pool_def rel_query_def rel_exec_def find_token_def provisioned_db_def
        Let_def split: prod.split)
  then show ?thesis by (simp add: prod_eq_iff flip: provisioned_prologue_def)
qed

lemma demo_deployment_reachable:
  "(deployment_step id (\<lambda>s. s) rel_pool (\<lambda>_. dispatch_answers quiet_host (NewDispatcher False None False)))\<^sup>*\<^sup>*
     (deployed provisioned_db) demo_deployment"
proof -
  let ?step = "deployment_step id (\<lambda>s. s) rel_pool (\<lambda>_. dispatch_answers quiet_host (NewDispatcher False None False))"
  let ?d1 = "\<lparr>dp_net = new_network, dp_accepted = {(''srv_1'', ''web1'')}, dp_store = snd provisioned_prologue\<rparr>"
  let ?d2 = "?d1\<lparr>dp_net := demo_joined\<rparr>"
  have "cp_step id (\<lambda>s. s) rel_pool (control (deployed provisioned_db)) (control (deployed provisioned_db)
      \<lparr>cp_accepted := {(''srv_1'', ''web1'')}, cp_store := snd provisioned_prologue\<rparr>)"
    using cp_step.accept [of "\<lambda>s. s" rel_pool "''x''" 5 "\<lambda>_. None" "Inr (Some (AgentMessage_Register web1_request))"
        "control (deployed provisioned_db)"] provisioned_accepted by (simp add: control_def deployed_def)
  then have 1: "?step (deployed provisioned_db) ?d1"
    using deployment_step.store [of id "\<lambda>s. s" rel_pool "deployed provisioned_db"] by (simp add: deployed_def)
  have 2: "?step ?d1 ?d2"
    using deployment_step.register [of "''srv_1''" "''web1''" ?d1 0 id "\<lambda>s. s" rel_pool]
    by (simp add: new_network_def NewServer_def demo_joined_def demo_connected_def)
  have "\<lparr>cmd_CommandId = ''7'', cmd_Payload = cmd_Payload demo_command\<rparr> = demo_command"
    by (simp add: demo_command_def)
  with demo_answer have "(network_step id (\<lambda>_. dispatch_answers quiet_host (NewDispatcher False None False)))\<^sup>*\<^sup>*
      (dp_net ?d2) (demo_end (cmd_Payload demo_command) demo_refusal [])"
    by (simp, intro demo_run) (simp_all add: demo_refusal_def)
  then have "?step\<^sup>*\<^sup>* ?d2 (?d2\<lparr>dp_net := demo_end (cmd_Payload demo_command) demo_refusal []\<rparr>)"
    by (rule network_run) (simp add: demo_end_def demo_network_def demo_server_def demo_joined_def demo_simps)
  then show ?thesis using 1 2 by (simp add: demo_deployment_def converse_rtranclp_into_rtranclp)
qed

theorem commands_reach_provisioned_servers_witness:
  "\<exists>a i. sessions (nw_server (dp_net demo_deployment)) 0 = Some a \<and>
    ss_serverID a \<in> bound_ids (db_tables (dp_store demo_deployment)) \<inter> server_ids (db_tables (dp_store demo_deployment)) \<and>
    nw_asked (dp_net demo_deployment) i = Some (ss_serverID a, cmd_Payload demo_command)"
proof (rule commands_reach_provisioned_servers [OF rel.pg_tables_axioms _ demo_deployment_reachable])
  show "schema_ok (db_tables provisioned_db)" by (simp add: schema_ok_def provisioned_db_def server_ids_def)
  show "demo_command \<in> set (as_received (nw_agents (dp_net demo_deployment) 0))"
    by (simp add: demo_deployment_def demo_end_def demo_network_def demo_agent_def demo_command_def)
qed

end
