(* ===== verification/AgentRun.thy ===== *)
theory AgentRun
  imports AgentRpc
begin

text \<open>
  One attempt of the agent, \<open>connect\<close> and \<open>session\<close> of
  \<open>agent/internal/rpc/agent.go\<close>, as a function of what happens to it: it registers,
  then its loop takes one branch of the \<open>select\<close> after the other. The loop is shown to
  take steps of theory \<open>AgentRpc\<close>, and its heartbeats to report what was measured.
\<close>

section \<open>The loop of a session\<close>

text \<open>
  The branches of the \<open>select\<close>: the context is done, the reader got an error, the
  ticker fired at this time and the heartbeat was sent with this outcome, a message arrived.
\<close>

datatype agent_event =
    Context_Done
  | Recv_Error goerr
  | Ticked int "goerr option"
  | Received ServerMessage

text \<open>
  What the loop has done: the error it returned with, if it returned, the heartbeats it
  sent, and the commands it started a goroutine for. The agent changes with it, because
  \<open>buildHeartbeat\<close> stores the last CPU sample.
\<close>

record session_run =
  run_result :: "goerr option option"
  run_beats :: "Heartbeat list"
  run_commands :: "Command list"

definition stopped :: "goerr option option \<Rightarrow> session_run" where
  "stopped res = \<lparr>run_result = res, run_beats = [], run_commands = []\<rparr>"

fun session_loop :: "(string \<Rightarrow> float64) \<Rightarrow> 'w host \<Rightarrow> agent_event list \<Rightarrow> Agent
    \<Rightarrow> ('w, session_run \<times> Agent) io" where
  "session_loop parse_float h [] a = State_Monad.return (stopped None, a)"
| "session_loop parse_float h (Context_Done # evs) a = State_Monad.return (stopped (Some None), a)"
| "session_loop parse_float h (Recv_Error e # evs) a =
     State_Monad.return (stopped (Some (Some (''stream recv: '' @ e))), a)"
| "session_loop parse_float h (Ticked now err # evs) a = do {
     (hb, cpu) \<leftarrow> buildHeartbeat parse_float h now (ag_lastCPU a);
     case err of
       Some e \<Rightarrow> State_Monad.return
         (stopped (Some (Some (''send heartbeat: '' @ e))), a\<lparr>ag_lastCPU := cpu\<rparr>)
     | None \<Rightarrow> do {
         (r, a') \<leftarrow> session_loop parse_float h evs (a\<lparr>ag_lastCPU := cpu\<rparr>);
         State_Monad.return (r\<lparr>run_beats := hb # run_beats r\<rparr>, a')
       }
   }"
| "session_loop parse_float h (Received msg # evs) a =
     (case msg of
        Some (ServerMessage_Command cmd) \<Rightarrow> do {
          (r, a') \<leftarrow> session_loop parse_float h evs a;
          State_Monad.return (r\<lparr>run_commands := cmd # run_commands r\<rparr>, a')
        }
      | _ \<Rightarrow> session_loop parse_float h evs a)"

text \<open>
  \<open>connect\<close>: the registration, then the session. The connection is a parameter, as in
  \<open>agent_register\<close>. The value is what was sent before the session, and the session.
\<close>

definition agent_connect :: "(string \<Rightarrow> float64) \<Rightarrow> 'w host \<Rightarrow> string \<Rightarrow> string \<Rightarrow> goerr option
    \<Rightarrow> goerr option \<Rightarrow> (AgentMessage \<Rightarrow> goerr option) \<Rightarrow> goerr + ServerMessage
    \<Rightarrow> agent_event list \<Rightarrow> Agent \<Rightarrow> ('w, AgentMessage list \<times> session_run \<times> Agent) io" where
  "agent_connect parse_float h hostname goarch dial opened send recv evs a =
     (case agent_register (ag_apiAddr a) (ag_token a) hostname goarch dial opened send recv of
        (sent, Inl e) \<Rightarrow> State_Monad.return (sent, stopped (Some (Some e)), a)
      | (sent, Inr serverID) \<Rightarrow> do {
          (r, a') \<leftarrow> session_loop parse_float h evs a;
          State_Monad.return (sent, r, a')
        })"

section \<open>It takes the steps of a session\<close>

text \<open>The state of theory \<open>AgentRpc\<close> that a run leads to, while no command finishes.\<close>

definition after_run :: "agent_session \<Rightarrow> session_run \<Rightarrow> agent_session" where
  "after_run s r = s\<lparr>
     as_status := (case run_result r of None \<Rightarrow> Live | Some err \<Rightarrow> Ended err),
     as_received := as_received s @ run_commands r,
     as_running := as_running s + mset (run_commands r),
     as_sent := as_sent s @ map (\<lambda>hb. Some (AgentMessage_Heartbeat hb)) (run_beats r)\<rparr>"

lemma after_run_stopped [simp]:
  "after_run s (stopped res) = s\<lparr>as_status := (case res of None \<Rightarrow> Live | Some err \<Rightarrow> Ended err)\<rparr>"
  by (simp add: after_run_def stopped_def)

lemma after_run_beat:
  "after_run s (r\<lparr>run_beats := hb # run_beats r\<rparr>) =
     after_run (s\<lparr>as_sent := as_sent s @ [Some (AgentMessage_Heartbeat hb)]\<rparr>) r"
  by (simp add: after_run_def)

lemma after_run_command:
  "after_run s (r\<lparr>run_commands := cmd # run_commands r\<rparr>) =
     after_run (s\<lparr>as_received := as_received s @ [cmd], as_running := add_mset cmd (as_running s)\<rparr>) r"
  by (simp add: after_run_def)

lemma stopped_steps:
  assumes "as_status s = Live"
  shows "(agent_step answers)\<^sup>*\<^sup>* s (after_run s (stopped None))"
    and "(agent_step answers)\<^sup>*\<^sup>* s (after_run s (stopped (Some None)))"
    and "(agent_step answers)\<^sup>*\<^sup>* s (after_run s (stopped (Some (Some (''stream recv: '' @ e)))))"
    and "(agent_step answers)\<^sup>*\<^sup>* s (after_run s (stopped (Some (Some (''send heartbeat: '' @ e)))))"
proof -
  have "s\<lparr>as_status := Live\<rparr> = s" using assms by (cases s) simp
  then show "(agent_step answers)\<^sup>*\<^sup>* s (after_run s (stopped None))" by simp
qed (use agent_step.cancelled [OF assms] agent_step.stream_ends [OF assms, of answers e]
    agent_step.heartbeat_fails [OF assms, of answers e] in \<open>simp_all add: r_into_rtranclp\<close>)

lemma session_loop_steps:
  assumes "as_status s = Live"
  shows "(agent_step answers)\<^sup>*\<^sup>* s (after_run s (fst (fst (run_state (session_loop parse_float h evs a) m))))"
  using assms
proof (induction parse_float h evs a arbitrary: s m rule: session_loop.induct)
  case (4 pf h now err evs a)
  obtain hb cpu m1 where b: "run_state (buildHeartbeat pf h now (ag_lastCPU a)) m = ((hb, cpu), m1)"
    by (metis prod.exhaust)
  show ?case
  proof (cases err)
    case (Some e)
    then show ?thesis using b stopped_steps(4) [OF "4.prems", of answers e] by (simp add: case_prod_beta)
  next
    case None
    let ?s = "s\<lparr>as_sent := as_sent s @ [Some (AgentMessage_Heartbeat hb)]\<rparr>"
    have "agent_step answers s ?s" using "4.prems" by (rule agent_step.heartbeat)
    then show ?thesis using "4.IH" [of ?s cpu m1] None "4.prems" b
      by (simp add: case_prod_beta after_run_beat converse_rtranclp_into_rtranclp)
  qed
next
  case (5 pf h msg evs a)
  show ?case
  proof (cases "\<exists>cmd. msg = Some (ServerMessage_Command cmd)")
    case True
    then obtain cmd where cmd: "msg = Some (ServerMessage_Command cmd)" by blast
    let ?s = "s\<lparr>as_received := as_received s @ [cmd], as_running := add_mset cmd (as_running s)\<rparr>"
    have "agent_step answers s ?s" using "5.prems" by (rule agent_step.command)
    then show ?thesis using "5.IH"(3) [of "ServerMessage_Command cmd" cmd ?s m] cmd "5.prems"
      by (simp add: case_prod_beta after_run_command converse_rtranclp_into_rtranclp)
  next
    case False
    then show ?thesis using "5.IH" "5.prems" by (auto split: option.split ServerPayload.split)
  qed
next
  case (3 pf h e evs a)
  then show ?case using stopped_steps(3) [of s answers e] by simp
qed (use stopped_steps(1,2) in simp_all)

section \<open>What the heartbeats report\<close>

text \<open>
  The reference: one usage per CPU sample, measured from the last sample that could be taken;
  a failed sample reports zero and is skipped.
\<close>

fun usage_since :: "CPUSample \<Rightarrow> (goerr + CPUSample) list \<Rightarrow> float64 list" where
  "usage_since prev [] = []"
| "usage_since prev (Inl e # ss) = Finite 0 # usage_since prev ss"
| "usage_since prev (Inr c # ss) = Finite (CPUPercent prev c) # usage_since c ss"

fun last_sample :: "CPUSample \<Rightarrow> (goerr + CPUSample) list \<Rightarrow> CPUSample" where
  "last_sample prev [] = prev"
| "last_sample prev (Inl e # ss) = last_sample prev ss"
| "last_sample prev (Inr c # ss) = last_sample c ss"

text \<open>The samples that a run of the loop takes, one per tick that is reached.\<close>

fun samples_of :: "(string \<Rightarrow> float64) \<Rightarrow> 'w host \<Rightarrow> agent_event list \<Rightarrow> 'w machine
    \<Rightarrow> (goerr + CPUSample) list" where
  "samples_of parse_float h [] m = []"
| "samples_of parse_float h (Context_Done # evs) m = []"
| "samples_of parse_float h (Recv_Error e # evs) m = []"
| "samples_of parse_float h (Ticked now err # evs) m =
     fst (run_state (SampleCPU h) m) #
       (if err = None
        then samples_of parse_float h evs
          (snd (run_state (buildHeartbeat parse_float h now \<lparr>total = 0, idle = 0\<rparr>) m))
        else [])"
| "samples_of parse_float h (Received msg # evs) m = samples_of parse_float h evs m"

definition cpu_of :: "Heartbeat \<Rightarrow> float64" where
  "cpu_of hb = GetCpuPercent (hb_Metrics hb)"

text \<open>The machine does not depend on the last sample, and the beat only through the usage.\<close>

lemma other_metrics [simp]:
  "CpuPercent (with_load l x) = CpuPercent x" "CpuPercent (with_disk d x) = CpuPercent x"
  "CpuPercent (with_mem i x) = CpuPercent x"
  by (simp_all add: with_load_def with_disk_def with_mem_def split: sum.split)

lemma buildHeartbeat_machine:
  "snd (run_state (buildHeartbeat pf h now prev) m) = snd (run_state (buildHeartbeat pf h now prev') m)"
  by (simp add: buildHeartbeat_def split: prod.split)

lemma buildHeartbeat_cpu:
  assumes "run_state (buildHeartbeat pf h now prev) m = ((hb, cpu), m1)"
  shows "[cpu_of hb] = usage_since prev [fst (run_state (SampleCPU h) m)]"
    and "cpu = last_sample prev [fst (run_state (SampleCPU h) m)]"
  using assms by (auto simp: buildHeartbeat_def cpu_of_def GetCpuPercent_def with_cpu_def zero_metrics_def
      split: prod.splits sum.splits)

lemma usage_since_Cons:
  "usage_since prev (x # ss) = usage_since prev [x] @ usage_since (last_sample prev [x]) ss"
  "last_sample prev (x # ss) = last_sample (last_sample prev [x]) ss"
  by (cases x; simp)+

lemma session_loop_usage:
  "let ((r, a'), m') = run_state (session_loop pf h evs a) m; ss = samples_of pf h evs m in
     map cpu_of (run_beats r) = usage_since (ag_lastCPU a) (take (length (run_beats r)) ss) \<and>
     ag_lastCPU a' = last_sample (ag_lastCPU a) ss"
proof (induction pf h evs a arbitrary: m rule: session_loop.induct)
  case (4 pf h now err evs a)
  obtain hb cpu m1 where b: "run_state (buildHeartbeat pf h now (ag_lastCPU a)) m = ((hb, cpu), m1)"
    by (metis prod.exhaust)
  have m1: "snd (run_state (buildHeartbeat pf h now \<lparr>total = 0, idle = 0\<rparr>) m) = m1"
    using b buildHeartbeat_machine [of pf h now "ag_lastCPU a" m] by simp
  note beat = buildHeartbeat_cpu [OF b]
  show ?case
  proof (cases err)
    case (Some e)
    then show ?thesis using b beat by (simp add: case_prod_beta Let_def stopped_def)
  next
    case None
    obtain r a' m2 where r: "run_state (session_loop pf h evs (a\<lparr>ag_lastCPU := cpu\<rparr>)) m1 = ((r, a'), m2)"
      by (metis prod.exhaust)
    have "map cpu_of (run_beats r) = usage_since cpu (take (length (run_beats r)) (samples_of pf h evs m1)) \<and>
        ag_lastCPU a' = last_sample cpu (samples_of pf h evs m1)"
      using "4.IH" [of cpu m1] None r by (simp add: Let_def)
    then show ?thesis
      using b r m1 None beat usage_since_Cons [where ss = "samples_of pf h evs m1"]
        usage_since_Cons(1) [where ss = "take (length (run_beats r)) (samples_of pf h evs m1)"]
      by (simp add: case_prod_beta Let_def)
  qed
next
  case (5 pf h msg evs a)
  then show ?case
    by (cases msg) (auto simp: Let_def case_prod_beta split: ServerPayload.split)
qed (simp_all add: stopped_def Let_def)

section \<open>Properties\<close>


text \<open>
  C38: the CPU usage in the heartbeats is exact: the \<open>i\<close>-th heartbeat of a session reports
  the usage between the \<open>i\<close>-th sample and the last one that could be taken before it, in
  this session or an earlier one (the first after the start: since boot), and zero if the
  sample fails; the next session goes on from the last sample.
\<close>

theorem heartbeats_report_usage:
  "let ((r, a'), m') = run_state (session_loop parse_float h evs a) m; ss = samples_of parse_float h evs m in
     map cpu_of (run_beats r) = usage_since (ag_lastCPU a) (take (length (run_beats r)) ss) \<and>
     ag_lastCPU a' = last_sample (ag_lastCPU a) ss"
  by (rule session_loop_usage)

end
