(* ===== verification/Hostfs.thy ===== *)
theory Hostfs
  imports Machine
begin

text \<open>
  The files of a host. What the agent relies on when it edits configuration files is the
  locale \<open>file_host\<close>: an abstraction of the world to the contents of regular files, and
  the documented effect of each operation of package \<open>os\<close> on them. \<open>managed\<close> are
  the files that programs the agent runs leave alone unless they are named on the command
  line. Paths in use are not links to each other. \<open>mem_host\<close> is a host with these laws.
\<close>

section \<open>The contract\<close>

definition contents :: "('w \<Rightarrow> string \<Rightarrow> string option) \<Rightarrow> 'w \<Rightarrow> string \<Rightarrow> string" where
  "contents files w p = (case files w p of None \<Rightarrow> [] | Some c \<Rightarrow> c)"

lemma contents_Some [simp]: "files w p = Some c \<Longrightarrow> contents files w p = c"
  by (simp add: contents_def)

text \<open>
  A read returns the whole file or an error, with what was read up to it; \<open>NotExist\<close>
  errors tell that there is no file. A successful write replaces the file, opening for
  append creates it, and writing to it appends. Directories, modes and links are no regular
  files.
\<close>

locale file_host =
  fixes h :: "'w host" and files :: "'w \<Rightarrow> string \<Rightarrow> string option" and managed :: "string \<Rightarrow> bool"
  assumes read_same: "h_read_file h p w = (r, w') \<Longrightarrow> files w' = files w"
    and read_ok: "h_read_file h p w = ((d, None), w') \<Longrightarrow> files w p = Some d"
    and read_error: "h_read_file h p w = ((d, Some err), w') \<Longrightarrow> prefix d (contents files w p)"
    and read_absent: "h_read_file h p w = ((d, Some (NotExist e)), w') \<Longrightarrow> files w p = None"
    and write_ok: "h_write_file h p d perm w = (None, w') \<Longrightarrow> files w' = (files w)(p \<mapsto> d)"
    and append_ok: "h_open_append h p perm w = (None, w') \<Longrightarrow> files w' = (files w)(p \<mapsto> contents files w p)"
    and write_string_ok: "h_write_string h p d w = (None, w') \<Longrightarrow>
      files w' = (files w)(p \<mapsto> contents files w p @ d)"
    and remove_ok: "h_remove h p w = (None, w') \<Longrightarrow> files w' = (files w)(p := None)"
    and remove_absent: "h_remove h p w = (Some (NotExist e), w') \<Longrightarrow> files w' = files w \<and> files w p = None"
    and remove_error: "h_remove h p w = (Some (FsErr e), w') \<Longrightarrow> files w' = files w"
    and remove_all_other: "h_remove_all h p w = (r3, w') \<Longrightarrow> q \<noteq> p \<Longrightarrow> \<not> below p q \<Longrightarrow>
      files w' q = files w q"
    and mkdir_same: "h_mkdir_all h p perm w = (r4, w') \<Longrightarrow> files w' = files w"
    and chmod_same: "h_chmod h p perm w = (r5, w') \<Longrightarrow> files w' = files w"
    and symlink_same: "h_symlink h p q w = (r6, w') \<Longrightarrow> files w' = files w"
    and exec_managed: "h_exec h prog args w = (r7, w') \<Longrightarrow> managed q \<Longrightarrow> q \<notin> set args \<Longrightarrow>
      files w' q = files w q"
begin

text \<open>The laws on machines, for the operations of theory \<open>Machine\<close>.\<close>

lemma same_files [simp]:
  "files (snd (h_read_file h p w)) = files w"
  "files (snd (h_mkdir_all h p perm w)) = files w"
  "files (snd (h_chmod h p perm w)) = files w"
  "files (snd (h_symlink h p q w)) = files w"
  using read_same mkdir_same chmod_same symlink_same by (metis prod.collapse)+

lemma keeps_read [keeps_intros]: "keeps (\<lambda>w. files w q) (os_ReadFile h p)"
  by (simp add: keeps_def os_ReadFile_def)

lemma keeps_mkdir [keeps_intros]: "keeps (\<lambda>w. files w q) (os_MkdirAll h p perm)"
  by (simp add: keeps_def os_MkdirAll_def)

lemma keeps_chmod [keeps_intros]: "keeps (\<lambda>w. files w q) (os_Chmod h p perm)"
  by (simp add: keeps_def os_Chmod_def)

lemma keeps_symlink [keeps_intros]: "keeps (\<lambda>w. files w q) (os_Symlink h p p')"
  by (simp add: keeps_def os_Symlink_def)

lemma keeps_exec [keeps_intros]:
  "managed q \<Longrightarrow> q \<notin> set args \<Longrightarrow> keeps (\<lambda>w. files w q) (exec_command h prog args)"
  using exec_managed by (simp add: keeps_def exec_command_def) (metis prod.collapse)

lemma keeps_run_checked [keeps_intros]:
  "managed q \<Longrightarrow> q \<notin> set args \<Longrightarrow> keeps (\<lambda>w. files w q) (run_checked h prog args)"
  unfolding run_checked_def by (intro keeps_intros)

lemma keeps_remove_all [keeps_intros]:
  "q \<noteq> p \<Longrightarrow> \<not> below p q \<Longrightarrow> keeps (\<lambda>w. files w q) (os_RemoveAll h p)"
  using remove_all_other by (simp add: keeps_def os_RemoveAll_def) (metis prod.collapse)

lemma run_write:
  "run_state (os_WriteFile h p d perm) m = (None, m') \<Longrightarrow>
     files (world m') = (files (world m))(p \<mapsto> d)"
  by (auto simp: os_WriteFile_def intro!: write_ok [of _ _ perm] simp: prod_eq_iff)

lemma run_remove:
  assumes "run_state (os_Remove h p) m = (r, m')"
  shows "files (world m') = (files (world m))(p := None) \<or>
    (\<exists>e. r = Some (FsErr e) \<and> files (world m') = files (world m))"
proof -
  have e: "h_remove h p (world m) = (r, world m')"
    using assms by (auto simp: os_Remove_def prod_eq_iff)
  show ?thesis
  proof (cases r rule: option.exhaust [case_names None Some])
    case None
    then show ?thesis using remove_ok e by blast
  next
    case (Some x)
    then show ?thesis
      using e remove_error [of p "world m" _ "world m'"] remove_absent [of p "world m" _ "world m'"]
      by (cases x) (auto simp: fun_upd_idem)
  qed
qed

end

section \<open>A host in memory\<close>

text \<open>Its world is the files; programs run and change nothing, everything else succeeds.\<close>

type_synonym mem = "string \<Rightarrow> string option"

definition mem_read :: "string \<Rightarrow> mem \<Rightarrow> (string \<times> fs_err option) \<times> mem" where
  "mem_read p w = (case w p of
     None \<Rightarrow> (([], Some (NotExist ''no such file or directory'')), w)
   | Some d \<Rightarrow> ((d, None), w))"

definition mem_get :: "mem \<Rightarrow> string \<Rightarrow> string" where
  "mem_get w p = (case w p of None \<Rightarrow> [] | Some d \<Rightarrow> d)"

definition mem_remove :: "string \<Rightarrow> mem \<Rightarrow> fs_err option \<times> mem" where
  "mem_remove p w = (case w p of
     None \<Rightarrow> (Some (NotExist ''no such file or directory''), w)
   | Some d \<Rightarrow> (None, w(p := None)))"

definition mem_remove_all :: "string \<Rightarrow> mem \<Rightarrow> mem" where
  "mem_remove_all p w = (\<lambda>q. if q = p \<or> below p q then None else w q)"

definition mem_host :: "mem host" where
  "mem_host = idle_host\<lparr>h_read_file := mem_read, h_open_read := (\<lambda>p w. (Inr (mem_get w p), w)),
     h_write_file := (\<lambda>p d _ w. (None, w(p \<mapsto> d))),
     h_open_append := (\<lambda>p _ w. (None, w(p \<mapsto> mem_get w p))),
     h_write_string := (\<lambda>p d w. (None, w(p \<mapsto> mem_get w p @ d))),
     h_remove := mem_remove, h_remove_all := (\<lambda>p w. (None, mem_remove_all p w))\<rparr>"

lemma mem_host_simps [simp]:
  "h_exec mem_host prog args w = (([], None), w)"
  "h_mkdir_all mem_host p perm w = (None, w)"
  "h_read_file mem_host p w = mem_read p w"
  "h_write_file mem_host p d perm w = (None, w(p \<mapsto> d))"
  "h_open_append mem_host p perm w = (None, w(p \<mapsto> mem_get w p))"
  "h_write_string mem_host p d w = (None, w(p \<mapsto> mem_get w p @ d))"
  "h_remove mem_host p w = mem_remove p w"
  "h_remove_all mem_host p w = (None, mem_remove_all p w)"
  "h_symlink mem_host p q w = (None, w)"
  "h_chmod mem_host p perm w = (None, w)"
  by (simp_all add: mem_host_def)

lemma contents_id: "contents id w p = mem_get w p"
  by (simp add: contents_def mem_get_def)

interpretation mem: file_host mem_host id "\<lambda>_. True"
  by unfold_locales
    (auto simp: contents_id mem_read_def mem_get_def mem_remove_def mem_remove_all_def
      split: option.splits)

end
