(* ===== verification/DkimFiles.thy ===== *)
theory DkimFiles
  imports Dkim Hostfs
begin

text \<open>
  What \<open>agent/internal/email/dkim.go\<close> does to the tables of OpenDKIM as files: the
  functions of theory \<open>Dkim\<close> on a host with the laws of \<open>file_host\<close>.
\<close>

section \<open>Appending and removing an entry\<close>

lemma unlines_snoc: "unlines (ls @ [l]) = unlines ls @ l @ [nl]"
  by (simp add: unlines_def)

lemma text_is_unlines:
  assumes "c = [] \<or> HasSuffix c [nl]"
  shows "\<exists>ls. c = unlines ls \<and> (\<forall>l\<in>set ls. nl \<notin> set l)"
proof (cases "c = []")
  case True
  then show ?thesis by (intro exI [of _ "[]"]) (simp add: unlines_def)
next
  case False
  then obtain b where c: "c = b @ [nl]" using assms by (auto simp: HasSuffix_suffix suffix_def)
  have "unlines (split_on nl b) = join [nl] (split_on nl b @ [[]])" by (simp only: join_snoc_Nil)
  also have "\<dots> = c" by (simp add: join_snoc join_split_on c)
  finally show ?thesis using split_on_no_sep by (intro exI [of _ "split_on nl b"]) auto
qed

lemma Contains_unlines:
  assumes "l \<in> set ls" and "Contains l m"
  shows "Contains (unlines ls) m"
proof -
  obtain xs ys where "ls = xs @ l # ys" using assms(1) by (meson split_list)
  then have "unlines ls = unlines xs @ l @ nl # unlines ys" by (simp add: unlines_def)
  then have "sublist l (unlines ls)" by simp
  with assms(2) show ?thesis
    unfolding Contains_sublist by (rule sublist_order.order_trans)
qed

lemma remove_appended:
  assumes "c = [] \<or> HasSuffix c [nl]" and "\<not> Contains c m" and "m \<noteq> []"
    and "nl \<notin> set e" and "Contains e m"
  shows "remove_lines (c @ e @ [nl]) m = c"
proof -
  obtain ls where ls: "c = unlines ls" "\<forall>l\<in>set ls. nl \<notin> set l"
    using text_is_unlines [OF assms(1)] by blast
  have "filter (\<lambda>l. \<not> Contains l m) ls = ls"
    using assms(2) Contains_unlines ls(1) by (auto intro!: filter_True)
  then show ?thesis
    using remove_lines_unlines [of "ls @ [e]" m] ls assms(3-5) by (simp add: unlines_snoc)
qed

lemma remove_lines_Nil: "remove_lines [] m = []"
  by (simp add: remove_lines_def)

section \<open>On a host\<close>

context file_host
begin

lemma run_appendUnique:
  assumes "run_state (appendUnique h p line) m = (None, m')"
    and "\<not> Contains (contents files (world m) p) line"
  shows "contents files (world m') p = contents files (world m) p @ line"
    and "q \<noteq> p \<Longrightarrow> files (world m') q = files (world m) q"
proof -
  obtain d err w1 where r: "h_read_file h p (world m) = ((d, err), w1)" by (metis prod.exhaust)
  have same: "files w1 = files (world m)" using r by (rule read_same)
  have "prefix d (contents files (world m) p)"
    using r read_ok [of p "world m" d w1] read_error [of p "world m" d _ w1] by (cases err) auto
  then have "needs_append d line"
    using assms(2) unfolding needs_append_def Contains_sublist
    by (meson prefix_imp_sublist sublist_order.order_trans)
  then obtain w2 where w2: "h_open_append h p 420 w1 = (None, w2)"
    "h_write_string h p line w2 = (None, world m')"
    using assms(1) r
    by (auto simp: appendUnique_def host_ops prod_eq_iff split: option.splits prod.splits)
  have "files w2 = (files (world m))(p \<mapsto> contents files (world m) p)"
    using append_ok [OF w2(1)] same by (simp add: contents_def)
  then have "files (world m') = (files (world m))(p \<mapsto> contents files (world m) p @ line)"
    using write_string_ok [OF w2(2)] by (simp add: contents_def)
  then show "contents files (world m') p = contents files (world m) p @ line"
    and "q \<noteq> p \<Longrightarrow> files (world m') q = files (world m) q" by (simp_all add: contents_def)
qed

lemma run_removeLines:
  assumes "run_state (removeLines h p mk) m = (None, m')"
  shows "contents files (world m') p = remove_lines (contents files (world m) p) mk"
    and "q \<noteq> p \<Longrightarrow> files (world m') q = files (world m) q"
proof -
  obtain d err w1 where r: "h_read_file h p (world m) = ((d, err), w1)" by (metis prod.exhaust)
  have same: "files w1 = files (world m)" using r by (rule read_same)
  have "contents files (world m') p = remove_lines (contents files (world m) p) mk \<and>
    (q \<noteq> p \<longrightarrow> files (world m') q = files (world m) q)"
  proof (cases err)
    case None
    then have d: "files (world m) p = Some d" using r read_ok by blast
    have "h_write_file h p (remove_lines d mk) 420 w1 = (None, world m')"
      using assms r None by (auto simp: removeLines_def host_ops prod_eq_iff)
    from write_ok [OF this] same d show ?thesis by (simp add: contents_def)
  next
    case (Some e)
    then obtain msg where e: "e = NotExist msg" and m': "world m' = w1"
      using assms r by (cases e) (auto simp: removeLines_def host_ops)
    have "files (world m) p = None" using r read_absent Some e by blast
    then show ?thesis using m' same by (simp add: contents_def remove_lines_Nil)
  qed
  then show "contents files (world m') p = remove_lines (contents files (world m) p) mk"
    and "q \<noteq> p \<Longrightarrow> files (world m') q = files (world m) q" by simp_all
qed

end

section \<open>The entries of a domain\<close>

text \<open>A table of whole lines none of which is about the domain.\<close>

definition table_without :: "string \<Rightarrow> string \<Rightarrow> bool" where
  "table_without d c \<longleftrightarrow> (c = [] \<or> HasSuffix c [nl]) \<and> \<not> Contains c (dkim_marker d)"

lemma entries_contain_marker:
  "Contains (key_table_entry d) (dkim_marker d)" "Contains (signing_entry d) (dkim_marker d)"
proof -
  have "key_table_entry d = ''mail'' @ dkim_marker d @
      ('' '' @ d @ '':'' @ dkimSelector @ '':'' @ priv_key d @ [nl])"
    "signing_entry d = (''*@'' @ d @ '' mail'') @ dkim_marker d @ [nl]"
    by (simp_all add: key_table_entry_def signing_entry_def dkim_marker_def dkimSelector_def)
  then show "Contains (key_table_entry d) (dkim_marker d)" "Contains (signing_entry d) (dkim_marker d)"
    using Contains_append_middle by metis+
qed

lemma table_without_append:
  assumes "table_without d c" and "nl \<notin> set e" and "Contains (e @ [nl]) (dkim_marker d)"
    and "nl \<notin> set d"
  shows "\<not> Contains c (e @ [nl])" and "remove_lines (c @ e @ [nl]) (dkim_marker d) = c"
proof -
  show "\<not> Contains c (e @ [nl])"
    using assms(1,3) unfolding table_without_def Contains_sublist
    by (meson sublist_order.order_trans)
  have "\<exists>l\<in>set (split_on nl (e @ [nl])). Contains l (dkim_marker d)"
    using Contains_trans_lines [OF nl_not_in_marker [OF assms(4)] assms(3)] .
  then have "Contains e (dkim_marker d)"
    using split_on_append_sep [OF assms(2), of "[]"] by auto
  then show "remove_lines (c @ e @ [nl]) (dkim_marker d) = c"
    using remove_appended [of c "dkim_marker d" e] assms(1,2) by (simp add: table_without_def)
qed

text \<open>For a plain domain the keys are below the key directory, beside the tables.\<close>

lemma key_paths_plain:
  assumes "plain_name d"
  shows "key_dir d = ''/etc/opendkim/keys/'' @ d"
    and "priv_key d = ''/etc/opendkim/keys/'' @ d @ ''/mail.private''"
    and "pub_key d = ''/etc/opendkim/keys/'' @ d @ ''/mail.txt''"
proof -
  have base: "clean_dir dkimKeyDir" by code_simp
  show k: "key_dir d = ''/etc/opendkim/keys/'' @ d"
    using clean_dir_join [OF base assms] by (simp add: key_dir_def dkimKeyDir_def)
  have "clean_dir (key_dir d)"
    using clean_dir_append [OF base assms] k by (simp add: dkimKeyDir_def)
  moreover have "plain_name (dkimSelector @ ''.private'')" "plain_name (dkimSelector @ ''.txt'')"
    by code_simp+
  ultimately show "priv_key d = ''/etc/opendkim/keys/'' @ d @ ''/mail.private''"
    "pub_key d = ''/etc/opendkim/keys/'' @ d @ ''/mail.txt''"
    using clean_dir_join [of "key_dir d"] k
    by (simp_all add: priv_key_def pub_key_def dkimSelector_def)
qed

lemma tables_outside_keys:
  assumes "plain_name d" and "q \<in> {key_table_path, signing_table_path}"
  shows "q \<notin> {key_dir d, priv_key d, pub_key d}" and "\<not> below (key_dir d) q"
  using assms(2) key_paths_plain [OF assms(1)]
  by (auto simp: key_table_path_def signing_table_path_def below_def HasPrefix_def)

section \<open>Setting up and removing a domain\<close>

definition dkim_tables :: "string set" where
  "dkim_tables = {key_table_path, signing_table_path}"

definition table_entry :: "string \<Rightarrow> string \<Rightarrow> string" where
  "table_entry t d = (if t = key_table_path then key_table_entry d else signing_entry d)"

lemma table_paths_differ: "key_table_path \<noteq> signing_table_path"
  by (simp add: key_table_path_def signing_table_path_def)

lemma table_entry_lines:
  assumes "nl \<notin> set d" and "plain_name d"
  shows "\<exists>e. table_entry t d = e @ [nl] \<and> nl \<notin> set e"
  using assms key_paths_plain(2) [OF assms(2)]
  by (auto simp: table_entry_def key_table_entry_def signing_entry_def dkimSelector_def)

lemma table_entry_marker: "Contains (table_entry t d) (dkim_marker d)"
  by (simp add: table_entry_def entries_contain_marker)

context file_host
begin

lemma keeps_generate_key:
  assumes "plain_name d" and "q \<in> dkim_tables" and "managed q"
  shows "keeps (\<lambda>w. files w q) (generate_key h d)"
  unfolding generate_key_def
  using tables_outside_keys(1) [OF assms(1)] assms(2,3)
  by (intro keeps_intros) (auto simp: dkim_tables_def key_table_path_def signing_table_path_def)

lemma run_write_tables:
  assumes "run_state (write_tables h d) m = (None, m')"
    and "\<And>t. t \<in> dkim_tables \<Longrightarrow> managed t \<and> \<not> Contains (contents files (world m) t) (table_entry t d)"
    and "t \<in> dkim_tables"
  shows "contents files (world m') t = contents files (world m) t @ table_entry t d"
proof -
  obtain m1 m2 where 1: "run_state (appendUnique h key_table_path (key_table_entry d)) m = (None, m1)"
    and 2: "run_state (appendUnique h signing_table_path (signing_entry d)) m1 = (None, m2)"
    and 3: "m' = snd (run_state (exec_command h ''systemctl'' [''reload'', ''opendkim'']) m2)"
    using assms(1) by (auto simp: write_tables_def split: prod.splits option.splits)
  have kept: "keeps (\<lambda>w. files w q) (exec_command h ''systemctl'' [''reload'', ''opendkim''])"
    if "q \<in> dkim_tables" for q
    using assms(2) that
    by (intro keeps_exec) (auto simp: dkim_tables_def key_table_path_def signing_table_path_def)
  have last: "files (world m') q = files (world m2) q" if "q \<in> dkim_tables" for q
    using kept [OF that] 3 by (simp add: keeps_def)
  have k: "\<not> Contains (contents files (world m) key_table_path) (key_table_entry d)"
    and s: "\<not> Contains (contents files (world m) signing_table_path) (signing_entry d)"
    using assms(2) [of key_table_path] assms(2) [of signing_table_path] table_paths_differ
    by (auto simp: dkim_tables_def table_entry_def)
  note a1 = run_appendUnique [OF 1 k]
  have "\<not> Contains (contents files (world m1) signing_table_path) (signing_entry d)"
    using s a1(2) [of signing_table_path] table_paths_differ by (simp add: contents_def)
  note a2 = run_appendUnique [OF 2 this]
  have "contents files (world m2) key_table_path = contents files (world m1) key_table_path"
    using a2(2) table_paths_differ by (simp add: contents_def)
  moreover have "contents files (world m1) signing_table_path = contents files (world m) signing_table_path"
    using a1(2) table_paths_differ by (simp add: contents_def)
  ultimately show ?thesis
    using assms(3) a1(1) a2(1) last [OF assms(3)] table_paths_differ
    by (auto simp: dkim_tables_def table_entry_def contents_def)
qed

lemma run_SetupDKIM:
  assumes "run_state (SetupDKIM h d) m = (Inr txt, m')" and "plain_name d"
    and "\<And>t. t \<in> dkim_tables \<Longrightarrow> managed t \<and> \<not> Contains (contents files (world m) t) (table_entry t d)"
    and "t \<in> dkim_tables"
  shows "contents files (world m') t = contents files (world m) t @ table_entry t d"
proof -
  obtain m1 pub m2 where 1: "run_state (generate_key h d) m = (None, m1)"
    and 2: "run_state (os_ReadFile h (pub_key d)) m1 = (pub, m2)"
    and 3: "run_state (write_tables h d) m2 = (None, m')"
    using assms(1) by (auto simp: SetupDKIM_def split: prod.splits option.splits)
  have same: "contents files (world m2) q = contents files (world m) q" if "q \<in> dkim_tables" for q
    using keepsD [OF keeps_generate_key [OF assms(2) that] 1] keepsD [OF keeps_read 2] assms(3) that
    by (simp add: contents_def)
  have "contents files (world m') t = contents files (world m2) t @ table_entry t d"
    using run_write_tables [OF 3 _ assms(4)] assms(3) same by simp
  then show ?thesis using same [OF assms(4)] by simp
qed

lemma run_RemoveDKIM:
  assumes "run_state (RemoveDKIM h d) m = (None, m')" and "plain_name d"
    and "\<And>t. t \<in> dkim_tables \<Longrightarrow> managed t" and "t \<in> dkim_tables"
  shows "contents files (world m') t = remove_lines (contents files (world m) t) (dkim_marker d)"
proof -
  obtain r m1 m2 m3 where 1: "run_state (os_RemoveAll h (key_dir d)) m = (r, m1)"
    and 2: "run_state (removeLines h key_table_path (dkim_marker d)) m1 = (None, m2)"
    and 3: "run_state (removeLines h signing_table_path (dkim_marker d)) m2 = (None, m3)"
    and 4: "m' = snd (run_state (exec_command h ''systemctl'' [''reload'', ''opendkim'']) m3)"
    using assms(1)
    by (auto simp: RemoveDKIM_def split: prod.splits option.splits fs_err.splits)
  have "keeps (\<lambda>w. files w q) (exec_command h ''systemctl'' [''reload'', ''opendkim''])"
    if "q \<in> dkim_tables" for q
    using assms(3) that
    by (intro keeps_exec) (auto simp: dkim_tables_def key_table_path_def signing_table_path_def)
  then have last: "files (world m') q = files (world m3) q" if "q \<in> dkim_tables" for q
    using that 4 by (simp add: keeps_def)
  have "files (world m1) q = files (world m) q" if "q \<in> dkim_tables" for q
    using keepsD [OF keeps_remove_all 1] tables_outside_keys [OF assms(2), of q] that
    by (auto simp: dkim_tables_def)
  then show ?thesis
    using assms(4) run_removeLines [OF 2] run_removeLines [OF 3] last [OF assms(4)] table_paths_differ
    by (auto simp: dkim_tables_def contents_def)
qed

lemma setup_remove_tables:
  assumes "run_state (SetupDKIM h d) m = (Inr txt, m1)" and "run_state (RemoveDKIM h d) m1 = (None, m2)"
    and "plain_name d" and "nl \<notin> set d"
    and "\<And>t. t \<in> dkim_tables \<Longrightarrow> managed t \<and> table_without d (contents files (world m) t)"
    and "t \<in> dkim_tables"
  shows "contents files (world m1) t = contents files (world m) t @ table_entry t d \<and>
    contents files (world m2) t = contents files (world m) t"
proof -
  obtain e where e: "\<And>t. table_entry t d = e t @ [nl] \<and> nl \<notin> set (e t)"
    using table_entry_lines [OF assms(4,3)] by metis
  have no: "\<not> Contains (contents files (world m) t) (table_entry t d)"
    and undo: "remove_lines (contents files (world m) t @ table_entry t d) (dkim_marker d) =
      contents files (world m) t" if "t \<in> dkim_tables" for t
    using table_without_append [of d "contents files (world m) t" "e t"] table_entry_marker [of t d]
      e [of t] assms(4,5) that by auto
  have "contents files (world m1) t = contents files (world m) t @ table_entry t d"
    using run_SetupDKIM [OF assms(1,3) _ assms(6)] assms(5) no by blast
  then show ?thesis
    using run_RemoveDKIM [OF assms(2,3) _ assms(6)] assms(5) undo [OF assms(6)] by simp
qed

end


text \<open>The witness: the host in memory, with a public key where \<open>openssl\<close> leaves it.\<close>

definition keyed :: "mem machine" where
  "keyed = \<lparr>world = [pub_key ''a.org'' \<mapsto> ''PEM''], trace = []\<rparr>"

definition keyed_setup :: "mem machine" where
  "keyed_setup = snd (run_state (SetupDKIM mem_host ''a.org'') keyed)"

definition keyed_removed :: "mem machine" where
  "keyed_removed = snd (run_state (RemoveDKIM mem_host ''a.org'') keyed_setup)"


end
