(* ===== verification/VhostFiles.thy ===== *)
theory VhostFiles
  imports Nginx Hostfs
begin

text \<open>
  What \<open>agent/internal/webserver/nginx.go\<close> does to the site files: the functions of
  theory \<open>Nginx\<close> on a host with the laws of \<open>file_host\<close>.
\<close>

text \<open>The files of plain domains are no words of the programs' command lines, and differ.\<close>

lemma conf_path_word:
  assumes "CHR ''/'' \<notin> set d"
  shows "conf_path d \<notin> {''-t'', ''reload'', ''nginx''}"
  using conf_paths_plain(1) [OF assms] by (simp add: sitesAvailable_def)

lemma conf_path_inj:
  assumes "CHR ''/'' \<notin> set d" and "CHR ''/'' \<notin> set d'"
  shows "conf_path d = conf_path d' \<longleftrightarrow> d = d'"
  using conf_paths_plain(1) [OF assms(1)] conf_paths_plain(1) [OF assms(2)] by simp

lemma conf_not_link:
  assumes "CHR ''/'' \<notin> set d" and "CHR ''/'' \<notin> set d'"
  shows "conf_path d \<noteq> link_path d'"
  using conf_paths_plain(1) [OF assms(1)] conf_paths_plain(2) [OF assms(2)]
  by (simp add: sitesAvailable_def sitesEnabled_def)

context file_host
begin

lemma keeps_remove_other: "q \<noteq> p \<Longrightarrow> keeps (\<lambda>w. files w q) (os_Remove h p)"
  unfolding keeps_def
proof
  fix m assume "q \<noteq> p"
  then show "files (world (snd (run_state (os_Remove h p) m))) q = files (world m) q"
    using run_remove [of p m "fst (run_state (os_Remove h p) m)" "snd (run_state (os_Remove h p) m)"]
    by auto
qed

lemma keeps_reload: "managed q \<Longrightarrow> q \<notin> {''-t'', ''reload'', ''nginx''} \<Longrightarrow> keeps (\<lambda>w. files w q) (reloadNginx h)"
  unfolding reloadNginx_def by (intro keeps_intros) auto

lemma keeps_test: "managed q \<Longrightarrow> q \<notin> {''-t'', ''reload'', ''nginx''} \<Longrightarrow> keeps (\<lambda>w. files w q) (testConfig h)"
  unfolding testConfig_def by (intro keeps_intros) auto

lemma run_CreateVhost:
  assumes "run_state (CreateVhost h cfg) m = (None, m')"
    and "CHR ''/'' \<notin> set (Domain cfg)" and "CHR ''/'' \<notin> set d" and "managed (conf_path d)"
  shows "files (world m') (conf_path d) =
    (if d = Domain cfg then Some (render_vhost (with_docroot cfg)) else files (world m) (conf_path d))"
proof -
  let ?q = "conf_path d"
  obtain m1 m2 m4 m5 where
    1: "run_state (os_MkdirAll h (Docroot (with_docroot cfg)) 493) m = (None, m1)" and
    2: "run_state (os_WriteFile h (conf_path (Domain cfg)) (render_vhost (with_docroot cfg)) 420) m1 = (None, m2)" and
    4: "run_state (os_Symlink h (conf_path (Domain cfg)) (link_path (Domain cfg)))
      (snd (run_state (os_Remove h (link_path (Domain cfg))) m2)) = (None, m4)" and
    5: "run_state (testConfig h) m4 = (None, m5)" and
    6: "run_state (reloadNginx h) m5 = (None, m')"
    using assms(1) by (auto simp: CreateVhost_def Let_def split: prod.splits option.splits)
  note word = conf_path_word [OF assms(3)]
  have "files (world m') ?q = files (world m2) ?q"
    using keeps_remove_other [OF conf_not_link [OF assms(3,2)]] keepsD [OF keeps_symlink 4]
      keepsD [OF keeps_test 5] keepsD [OF keeps_reload 6] assms(4) word by (simp add: keeps_def)
  also have "\<dots> = ((files (world m1))(conf_path (Domain cfg) \<mapsto> render_vhost (with_docroot cfg))) ?q"
    by (simp only: run_write [OF 2])
  finally show ?thesis
    using keepsD [OF keeps_mkdir 1] conf_path_inj [OF assms(3,2)] by simp
qed

lemma run_DeleteVhost:
  assumes "run_state (DeleteVhost h d0) m = (None, m')"
    and "CHR ''/'' \<notin> set d0" and "CHR ''/'' \<notin> set d" and "managed (conf_path d)"
  shows "files (world m') (conf_path d) = (if d = d0 then None else files (world m) (conf_path d))"
proof -
  let ?m1 = "snd (run_state (os_Remove h (link_path d0)) m)"
  obtain r2 m2 where
    2: "run_state (os_Remove h (conf_path d0)) ?m1 = (r2, m2)" and
    ok: "\<And>e. r2 \<noteq> Some (FsErr e)" and
    3: "run_state (reloadNginx h) m2 = (None, m')"
    using assms(1)
    by (auto simp: DeleteVhost_def Let_def split: prod.splits option.splits if_splits elim!: IsNotExistE)
  have "files (world m2) = (files (world ?m1))(conf_path d0 := None)"
    using run_remove [OF 2] ok by blast
  then show ?thesis
    using keeps_remove_other [OF conf_not_link [OF assms(3,2)]] keepsD [OF keeps_reload 3]
      conf_path_word [OF assms(3)] conf_path_inj [OF assms(3,2)] assms(4)
    by (simp add: keeps_def)
qed

end

text \<open>
  C25: a site that was created is on disk and one that was deleted is not, and no other site
  is touched. For every domain \<open>d\<close> without slashes, after a successful creation of
  the site of \<open>cfg\<close> the file of \<open>d\<close> is the rendered template if it is that site
  and what it was before otherwise, and after a successful deletion it is absent if it is
  that site and what it was before otherwise.
\<close>

theorem vhost_create_delete_files:
  assumes "file_host h files managed" and "managed (conf_path d)"
    and "CHR ''/'' \<notin> set (Domain cfg)" and "CHR ''/'' \<notin> set d"
    and "run_state (CreateVhost h cfg) m = (None, m1)"
    and "run_state (DeleteVhost h (Domain cfg)) m1 = (None, m2)"
  shows "files (world m1) (conf_path d) =
      (if d = Domain cfg then Some (render_vhost (with_docroot cfg)) else files (world m) (conf_path d)) \<and>
    files (world m2) (conf_path d) = (if d = Domain cfg then None else files (world m) (conf_path d))"
  using file_host.run_CreateVhost [OF assms(1,5,3,4,2)] file_host.run_DeleteVhost [OF assms(1,6,3,4,2)]
  by simp

definition demo_site :: VhostConfig where
  "demo_site = \<lparr>Domain = ''a.org'', Aliases = [''www.a.org''], Docroot = [], PHPVersion = ''8.2''\<rparr>"

definition other_site :: "mem machine" where
  "other_site = \<lparr>world = [conf_path ''b.org'' \<mapsto> ''server {}''], trace = []\<rparr>"

definition site_created :: "mem machine" where
  "site_created = snd (run_state (CreateVhost mem_host demo_site) other_site)"

definition site_deleted :: "mem machine" where
  "site_deleted = snd (run_state (DeleteVhost mem_host (Domain demo_site)) site_created)"

theorem vhost_create_delete_files_witness:
  "id (world site_created) (conf_path ''a.org'') = (if ''a.org'' = Domain demo_site
      then Some (render_vhost (with_docroot demo_site)) else id (world other_site) (conf_path ''a.org'')) \<and>
   id (world site_deleted) (conf_path ''a.org'') = (if ''a.org'' = Domain demo_site then None
      else id (world other_site) (conf_path ''a.org''))"
proof (rule vhost_create_delete_files [OF mem.file_host_axioms])
  have "fst (run_state (CreateVhost mem_host demo_site) other_site) = None"
    by (simp add: CreateVhost_def testConfig_def reloadNginx_def run_checked_def host_ops Let_def
        split: prod.splits option.splits)
  then show "run_state (CreateVhost mem_host demo_site) other_site = (None, site_created)"
    by (simp add: site_created_def prod_eq_iff)
  have "fst (run_state (DeleteVhost mem_host (Domain demo_site)) site_created) = None"
    by (auto simp: DeleteVhost_def reloadNginx_def run_checked_def host_ops Let_def mem_remove_def
        split: prod.splits option.splits)
  then show "run_state (DeleteVhost mem_host (Domain demo_site)) site_created = (None, site_deleted)"
    by (simp add: site_deleted_def prod_eq_iff)
qed (simp_all add: demo_site_def)

end
