(* ===== verification/MailDb.thy ===== *)
theory MailDb
  imports Mail
begin

text \<open>
  The mail tables that \<open>agent/internal/email/manager.go\<close> keeps, and what its operations
  mean. \<open>mail_tables\<close> are the three tables of \<open>SetupSchema\<close>; the locale
  \<open>mail_db\<close> is what MariaDB documents about the manager's statements under that schema;
  \<open>mail_dir\<close> is the abstract directory of domains, mailboxes and forwarders, and
  \<open>mail_spec\<close> says what each operation does to it. The manager refines the
  specification, whatever fails on the way. \<open>sql_host\<close> is a host with these laws.
\<close>

section \<open>The tables\<close>

record mail_user =
  mu_domain :: int
  mu_email :: string
  mu_password :: string
  mu_quota :: u64

record mail_alias =
  ma_domain :: int
  ma_source :: string
  ma_destination :: string

record mail_tables =
  mt_domains :: "(int \<times> string) list"
  mt_users :: "mail_user list"
  mt_aliases :: "mail_alias list"

text \<open>
  Text is compared under the collation of its column, so by a sort key: \<open>key\<close>. The
  identifiers of a domain name, and the effect of deleting a domain, which cascades.
\<close>

definition domain_ids :: "(string \<Rightarrow> string) \<Rightarrow> string \<Rightarrow> mail_tables \<Rightarrow> int set" where
  "domain_ids key d t = fst ` set (filter (\<lambda>r. key (snd r) = key d) (mt_domains t))"

lemma mem_domain_ids: "i \<in> domain_ids key d t \<longleftrightarrow> (\<exists>n. (i, n) \<in> set (mt_domains t) \<and> key n = key d)"
  by (force simp: domain_ids_def)

definition drop_domain :: "(string \<Rightarrow> string) \<Rightarrow> string \<Rightarrow> mail_tables \<Rightarrow> mail_tables" where
  "drop_domain key d t =
     \<lparr>mt_domains = filter (\<lambda>r. key (snd r) \<noteq> key d) (mt_domains t),
      mt_users = filter (\<lambda>u. mu_domain u \<notin> domain_ids key d t) (mt_users t),
      mt_aliases = filter (\<lambda>a. ma_domain a \<notin> domain_ids key d t) (mt_aliases t)\<rparr>"

definition put_user :: "(string \<Rightarrow> string) \<Rightarrow> mail_user \<Rightarrow> mail_user list \<Rightarrow> mail_user list" where
  "put_user key u us =
     (if key (mu_email u) \<in> key ` mu_email ` set us
      then map (\<lambda>v. if key (mu_email v) = key (mu_email u)
                     then v\<lparr>mu_password := mu_password u, mu_quota := mu_quota u\<rparr> else v) us
      else us @ [u])"

text \<open>Text that every \<open>VARCHAR(255)\<close> column stores as it is.\<close>

definition fits_column :: "string \<Rightarrow> bool" where
  "fits_column s \<longleftrightarrow> length s \<le> 255 \<and> list_all (\<lambda>c. of_char c < (128 :: nat)) s"

text \<open>Unique keys and foreign keys.\<close>

definition mail_ok :: "(string \<Rightarrow> string) \<Rightarrow> mail_tables \<Rightarrow> bool" where
  "mail_ok key t \<longleftrightarrow>
     distinct (map fst (mt_domains t)) \<and> distinct (map (\<lambda>r. key (snd r)) (mt_domains t)) \<and>
     distinct (map (\<lambda>u. key (mu_email u)) (mt_users t)) \<and>
     mu_domain ` set (mt_users t) \<subseteq> fst ` set (mt_domains t) \<and>
     ma_domain ` set (mt_aliases t) \<subseteq> fst ` set (mt_domains t)"

section \<open>What MariaDB promises\<close>

text \<open>
  A statement that fails changes nothing. \<open>INSERT IGNORE\<close> keeps a name that is there
  already and stores a new one under a fresh identifier, exactly if it fits its column. The
  other statements fail rather than store something else (strict mode). Programs and
  directories have nothing to do with the tables.
\<close>

locale mail_db =
  fixes h :: "'w host" and tabs :: "'w \<Rightarrow> mail_tables" and key :: "string \<Rightarrow> string"
  assumes exec_fail: "h_sql_exec h stmt args w = (Some e, w') \<Longrightarrow> tabs w' = tabs w"
    and add_domain: "h_sql_exec h insert_domain_sql [SqlStr d] w = (None, w') \<Longrightarrow> fits_column d \<Longrightarrow>
      (if key d \<in> key ` snd ` set (mt_domains (tabs w)) then tabs w' = tabs w
       else \<exists>i. i \<notin> fst ` set (mt_domains (tabs w)) \<and>
         tabs w' = (tabs w)\<lparr>mt_domains := mt_domains (tabs w) @ [(i, d)]\<rparr>)"
    and delete_domain: "h_sql_exec h delete_domain_sql [SqlStr d] w = (None, w') \<Longrightarrow>
      tabs w' = drop_domain key d (tabs w)"
    and select_same: "h_sql_query_id h select_domain_sql [SqlStr d] w = (res, w') \<Longrightarrow> tabs w' = tabs w"
    and select_id: "h_sql_query_id h select_domain_sql [SqlStr d] w = (Inr i, w') \<Longrightarrow>
      i \<in> domain_ids key d (tabs w)"
    and put_mailbox: "h_sql_exec h insert_user_sql [SqlInt i, SqlStr a, SqlStr p, SqlU64 q] w = (None, w') \<Longrightarrow>
      tabs w' = (tabs w)\<lparr>mt_users := put_user key
        \<lparr>mu_domain = i, mu_email = a, mu_password = p, mu_quota = q\<rparr> (mt_users (tabs w))\<rparr>"
    and delete_mailbox: "h_sql_exec h delete_user_sql [SqlStr a] w = (None, w') \<Longrightarrow>
      tabs w' = (tabs w)\<lparr>mt_users := filter (\<lambda>u. key (mu_email u) \<noteq> key a) (mt_users (tabs w))\<rparr>"
    and add_alias: "h_sql_exec h insert_alias_sql [SqlInt i, SqlStr s, SqlStr d] w = (None, w') \<Longrightarrow>
      fits_column s \<Longrightarrow> fits_column d \<Longrightarrow> i \<in> fst ` set (mt_domains (tabs w)) \<Longrightarrow>
      tabs w' = (tabs w)\<lparr>mt_aliases := mt_aliases (tabs w) @
        [\<lparr>ma_domain = i, ma_source = s, ma_destination = d\<rparr>]\<rparr>"
    and delete_alias: "h_sql_exec h delete_alias_sql [SqlStr s] w = (None, w') \<Longrightarrow>
      tabs w' = (tabs w)\<lparr>mt_aliases := filter (\<lambda>a. key (ma_source a) \<noteq> key s) (mt_aliases (tabs w))\<rparr>"
    and mkdir_tabs: "h_mkdir_all h p perm w = (r1, w') \<Longrightarrow> tabs w' = tabs w"
    and remove_all_tabs: "h_remove_all h p w = (r2, w') \<Longrightarrow> tabs w' = tabs w"
    and exec_tabs: "h_exec h prog pargs w = (r3, w') \<Longrightarrow> tabs w' = tabs w"
begin

lemma keeps_mkdir [keeps_intros]: "keeps tabs (os_MkdirAll h p perm)"
  unfolding os_MkdirAll_def by (rule keeps_perform) (metis mkdir_tabs prod.collapse)

lemma keeps_remove_all [keeps_intros]: "keeps tabs (os_RemoveAll h p)"
  unfolding os_RemoveAll_def by (rule keeps_perform) (metis remove_all_tabs prod.collapse)

lemma keeps_exec [keeps_intros]: "keeps tabs (exec_command h prog args)"
  unfolding exec_command_def by (rule keeps_perform) (metis exec_tabs prod.collapse)

lemma keeps_select [keeps_intros]: "keeps tabs (db_QueryRowId h select_domain_sql [SqlStr d])"
  unfolding db_QueryRowId_def by (rule keeps_perform) (metis select_same prod.collapse)

lemma keeps_purge_dir [keeps_intros]: "keeps tabs (purge_dir h dir wrap)"
  unfolding purge_dir_def by (intro keeps_intros)

lemma keeps_make_subdirs [keeps_intros]: "keeps tabs (make_subdirs h dir subs)"
  by (induction subs) (simp_all only: make_subdirs.simps keeps_return keeps_try_io keeps_mkdir)

end

section \<open>The abstract directory\<close>

text \<open>
  Mailboxes and forwarders by the keys of their addresses; a mailbox has the key of its
  domain, its password hash and its quota.
\<close>

record mail_dir =
  md_domains :: "string set"
  md_boxes :: "string \<Rightarrow> (string \<times> string \<times> u64) option"
  md_forwards :: "(string \<times> string \<times> string) list"

definition domain_key :: "(string \<Rightarrow> string) \<Rightarrow> mail_tables \<Rightarrow> int \<Rightarrow> string" where
  "domain_key key t i = (case map_of (mt_domains t) i of None \<Rightarrow> [] | Some n \<Rightarrow> key n)"

definition box_row :: "(string \<Rightarrow> string) \<Rightarrow> (int \<Rightarrow> string) \<Rightarrow> mail_user
    \<Rightarrow> string \<times> string \<times> string \<times> u64" where
  "box_row key f u = (key (mu_email u), (f (mu_domain u), mu_password u, mu_quota u))"

definition mail_abs :: "(string \<Rightarrow> string) \<Rightarrow> mail_tables \<Rightarrow> mail_dir" where
  "mail_abs key t =
     \<lparr>md_domains = key ` snd ` set (mt_domains t),
      md_boxes = map_of (map (box_row key (domain_key key t)) (mt_users t)),
      md_forwards = map (\<lambda>a. (domain_key key t (ma_domain a), ma_source a, ma_destination a))
        (mt_aliases t)\<rparr>"

datatype mail_op =
    Add_Domain string
  | Remove_Domain string bool
  | Create_Mailbox string string u64
  | Delete_Mailbox string bool
  | Create_Alias string string
  | Delete_Alias string

definition run_mail :: "'w host \<Rightarrow> mail_op \<Rightarrow> ('w, goerr option) io" where
  "run_mail h x = (case x of
     Add_Domain d \<Rightarrow> AddDomain h d
   | Remove_Domain d purge \<Rightarrow> RemoveDomain h d purge
   | Create_Mailbox a p q \<Rightarrow> CreateMailbox h a p q
   | Delete_Mailbox a purge \<Rightarrow> DeleteMailbox h a purge
   | Create_Alias s d \<Rightarrow> CreateAlias h s d
   | Delete_Alias s \<Rightarrow> DeleteAlias h s)"

text \<open>The part of an address after the first at sign.\<close>

definition address_domain :: "string \<Rightarrow> string" where
  "address_domain a = drop 1 (dropWhile (\<lambda>c. c \<noteq> CHR ''@'') a)"

text \<open>
  The specification: \<open>pw\<close> is the password hash. Removing a domain removes what belongs to
  it. A mailbox that exists keeps its domain.
\<close>

definition mail_spec :: "(string \<Rightarrow> string) \<Rightarrow> mail_op \<Rightarrow> string \<Rightarrow> mail_dir \<Rightarrow> mail_dir" where
  "mail_spec key x pw D = (case x of
     Add_Domain d \<Rightarrow> D\<lparr>md_domains := insert (key d) (md_domains D)\<rparr>
   | Remove_Domain d purge \<Rightarrow>
       \<lparr>md_domains = md_domains D - {key d},
        md_boxes = (\<lambda>a. case md_boxes D a of
           Some (d', box) \<Rightarrow> if d' = key d then None else Some (d', box) | None \<Rightarrow> None),
        md_forwards = filter (\<lambda>f. fst f \<noteq> key d) (md_forwards D)\<rparr>
   | Create_Mailbox a p q \<Rightarrow>
       D\<lparr>md_boxes := (md_boxes D)(key a \<mapsto>
          (case md_boxes D (key a) of
             Some (d, old) \<Rightarrow> (d, pw, q)
           | None \<Rightarrow> (key (address_domain a), pw, q)))\<rparr>
   | Delete_Mailbox a purge \<Rightarrow> D\<lparr>md_boxes := (md_boxes D)(key a := None)\<rparr>
   | Create_Alias s d \<Rightarrow>
       D\<lparr>md_forwards := md_forwards D @ [(key (address_domain s), s, d)]\<rparr>
   | Delete_Alias s \<Rightarrow>
       D\<lparr>md_forwards := filter (\<lambda>f. key (fst (snd f)) \<noteq> key s) (md_forwards D)\<rparr>)"

text \<open>Names that fit the columns of the statements with \<open>IGNORE\<close>.\<close>

definition op_fits :: "mail_op \<Rightarrow> bool" where
  "op_fits x = (case x of
     Add_Domain d \<Rightarrow> fits_column d
   | Create_Alias s d \<Rightarrow> fits_column s \<and> fits_column d
   | _ \<Rightarrow> True)"

section \<open>Effects on the tables\<close>

text \<open>What an operation that gets through does to the tables.\<close>

inductive mail_effect :: "(string \<Rightarrow> string) \<Rightarrow> mail_op \<Rightarrow> string \<Rightarrow> mail_tables \<Rightarrow> mail_tables \<Rightarrow> bool"
  for key where
  known: "key d \<in> key ` snd ` set (mt_domains t) \<Longrightarrow> mail_effect key (Add_Domain d) pw t t"
| fresh: "key d \<notin> key ` snd ` set (mt_domains t) \<Longrightarrow> i \<notin> fst ` set (mt_domains t) \<Longrightarrow>
    mail_effect key (Add_Domain d) pw t (t\<lparr>mt_domains := mt_domains t @ [(i, d)]\<rparr>)"
| drop: "mail_effect key (Remove_Domain d purge) pw t (drop_domain key d t)"
| mailbox: "i \<in> domain_ids key (address_domain a) t \<Longrightarrow>
    mail_effect key (Create_Mailbox a p q) pw t (t\<lparr>mt_users := put_user key
      \<lparr>mu_domain = i, mu_email = a, mu_password = pw, mu_quota = q\<rparr> (mt_users t)\<rparr>)"
| unbox: "mail_effect key (Delete_Mailbox a purge) pw t
    (t\<lparr>mt_users := filter (\<lambda>u. key (mu_email u) \<noteq> key a) (mt_users t)\<rparr>)"
| forward: "i \<in> domain_ids key (address_domain s) t \<Longrightarrow>
    mail_effect key (Create_Alias s d) pw t (t\<lparr>mt_aliases := mt_aliases t @
      [\<lparr>ma_domain = i, ma_source = s, ma_destination = d\<rparr>]\<rparr>)"
| unforward: "mail_effect key (Delete_Alias s) pw t
    (t\<lparr>mt_aliases := filter (\<lambda>a. key (ma_source a) \<noteq> key s) (mt_aliases t)\<rparr>)"

lemma domain_ids_known: "i \<in> domain_ids key d t \<Longrightarrow> i \<in> fst ` set (mt_domains t)"
  by (force simp: mem_domain_ids)

lemma domain_key_eq: "mail_ok key t \<Longrightarrow> (i, n) \<in> set (mt_domains t) \<Longrightarrow> domain_key key t i = key n"
  by (simp add: mail_ok_def domain_key_def)

lemma domain_key_iff:
  assumes "mail_ok key t" and "i \<in> fst ` set (mt_domains t)"
  shows "domain_key key t i = key d \<longleftrightarrow> i \<in> domain_ids key d t"
proof -
  obtain n where n: "(i, n) \<in> set (mt_domains t)" using assms(2) by auto
  have unique: "m = n" if "(i, m) \<in> set (mt_domains t)" for m
    using assms(1) that n by (auto simp: mail_ok_def dest: eq_key_imp_eq_value)
  show ?thesis unfolding domain_key_eq [OF assms(1) n] mem_domain_ids
    using n unique by blast
qed

lemma put_user_keys:
  "map (\<lambda>v. key (mu_email v)) (put_user key u us) =
     (let ks = map (\<lambda>v. key (mu_email v)) us
      in if key (mu_email u) \<in> set ks then ks else ks @ [key (mu_email u)])"
  by (auto simp: put_user_def Let_def)

lemma put_user_domains:
  "mu_domain ` set (put_user key u us) \<subseteq> insert (mu_domain u) (mu_domain ` set us)"
  by (auto simp: put_user_def)

text \<open>What a lookup finds after the two ways of writing a row.\<close>

lemma map_of_update_rows:
  "map_of (map (\<lambda>v. (k v, f v)) (map (\<lambda>v. if k v = x then g v else v) vs)) y =
     (if y = x then map_of (map (\<lambda>v. (k v, f (g v))) vs) x else map_of (map (\<lambda>v. (k v, f v)) vs) y)"
  if "\<And>v. k (g v) = k v"
  by (induction vs) (auto simp: that)

lemma map_of_filter_rows:
  assumes "distinct (map k vs)" and "\<And>v. v \<in> set vs \<Longrightarrow> P v \<longleftrightarrow> Q (f v)"
    and "\<And>v. v \<in> set vs \<Longrightarrow> P v \<Longrightarrow> f' v = f v"
  shows "map_of (map (\<lambda>v. (k v, f' v)) (filter P vs)) =
    (\<lambda>y. case map_of (map (\<lambda>v. (k v, f v)) vs) y of
       Some r \<Rightarrow> if Q r then Some r else None | None \<Rightarrow> None)"
  using assms
proof (induction vs)
  case (Cons v vs)
  have none: "map_of (map (\<lambda>v. (k v, f v)) vs) (k v) = None"
    using Cons.prems(1) by (auto simp: map_of_eq_None_iff)
  have "P v \<longleftrightarrow> Q (f v)" "P v \<Longrightarrow> f' v = f v" using Cons.prems by auto
  then show ?case using Cons none by (auto simp: fun_eq_iff)
qed simp

text \<open>A lookup by the key of a row that is there.\<close>

lemma map_of_rows:
  "distinct (map k vs) \<Longrightarrow> v \<in> set vs \<Longrightarrow> map_of (map (\<lambda>v. (k v, f v)) vs) (k v) = Some (f v)"
  by (simp add: map_of_eq_Some_iff comp_def)

lemma map_of_rows_None:
  "y \<notin> k ` set vs \<Longrightarrow> map_of (map (\<lambda>v. (k v, f v)) vs) y = None"
  by (auto simp: map_of_eq_None_iff image_iff)

lemma map_of_delete_rows:
  "map_of (map (\<lambda>v. (k v, f v)) (filter (\<lambda>v. k v \<noteq> x) vs)) =
     (map_of (map (\<lambda>v. (k v, f v)) vs))(x := None)"
  by (induction vs) (auto simp: fun_eq_iff)

lemma map_of_put_user:
  assumes "distinct (map (\<lambda>v. key (mu_email v)) us)"
  shows "map_of (map (box_row key f) (put_user key u us)) =
     (map_of (map (box_row key f) us))(key (mu_email u) \<mapsto>
     (case map_of (map (box_row key f) us) (key (mu_email u)) of
        Some (d, box) \<Rightarrow> (d, mu_password u, mu_quota u)
      | None \<Rightarrow> (f (mu_domain u), mu_password u, mu_quota u)))"
proof (cases "key (mu_email u) \<in> key ` mu_email ` set us")
  case True
  then obtain v where v: "v \<in> set us" "key (mu_email v) = key (mu_email u)" by auto
  have found: "map_of (map (\<lambda>v. (key (mu_email v), g v)) us) (key (mu_email u)) = Some (g v)" for g
    using map_of_rows [OF assms v(1), of g] v(2) by simp
  have up: "map_of (map (box_row key f) (put_user key u us)) y =
    (if y = key (mu_email u) then Some (f (mu_domain v), mu_password u, mu_quota u)
     else map_of (map (box_row key f) us) y)" for y
    unfolding put_user_def box_row_def [abs_def] using True
    by (simp add: map_of_update_rows [where k = "\<lambda>v. key (mu_email v)"] found del: map_map)
  show ?thesis by (rule ext) (simp add: up, simp add: box_row_def [abs_def] found)
next
  case False
  then have none: "map_of (map (box_row key f) us) (key (mu_email u)) = None"
    unfolding box_row_def [abs_def] by (intro map_of_rows_None) auto
  have "map_of (map (box_row key f) (put_user key u us)) y =
    (map_of (map (box_row key f) us) ++
       [key (mu_email u) \<mapsto> (f (mu_domain u), mu_password u, mu_quota u)]) y" for y
    using False none by (simp add: put_user_def box_row_def map_add_def split: option.splits)
  then show ?thesis using none by (auto simp: fun_eq_iff)
qed

lemma mail_effect_ok: "mail_effect key x pw t t' \<Longrightarrow> mail_ok key t \<Longrightarrow> mail_ok key t'"
proof (induction rule: mail_effect.induct)
  case (fresh d t i pw)
  then show ?case by (auto simp: mail_ok_def)
next
  case (mailbox i a t p q pw)
  then show ?case
    using put_user_domains [of key "\<lparr>mu_domain = i, mu_email = a, mu_password = pw, mu_quota = q\<rparr>" "mt_users t"]
    by (auto simp: mail_ok_def put_user_keys Let_def dest: domain_ids_known)
next
  case (drop d purge pw t)
  then have kept: "i \<in> fst ` set (mt_domains (drop_domain key d t))"
    if "i \<in> fst ` set (mt_domains t)" "i \<notin> domain_ids key d t" for i
    using that by (force simp: drop_domain_def mem_domain_ids)
  from drop have "mu_domain ` set (mt_users (drop_domain key d t)) \<subseteq> fst ` set (mt_domains (drop_domain key d t))"
    by (auto simp: mail_ok_def drop_domain_def [of key d t, THEN arg_cong [of _ _ mt_users]] intro!: kept)
  moreover from drop have "ma_domain ` set (mt_aliases (drop_domain key d t)) \<subseteq> fst ` set (mt_domains (drop_domain key d t))"
    by (auto simp: mail_ok_def drop_domain_def [of key d t, THEN arg_cong [of _ _ mt_aliases]] intro!: kept)
  ultimately show ?case using drop
    by (simp add: mail_ok_def) (simp add: drop_domain_def distinct_map_filter)
next
  case (unbox a purge pw t)
  then show ?case by (auto simp: mail_ok_def distinct_map_filter)
next
  case (forward i s t d pw)
  then show ?case by (auto simp: mail_ok_def dest: domain_ids_known)
next
  case (unforward s pw t)
  then show ?case by (auto simp: mail_ok_def)
qed

text \<open>In a table that is in order, a row's domain keeps its key under every change to the others.\<close>

lemma domain_key_append:
  "i \<in> fst ` set (mt_domains t) \<Longrightarrow>
     domain_key key (t\<lparr>mt_domains := mt_domains t @ ds\<rparr>) i = domain_key key t i"
  by (auto simp: domain_key_def map_add_def split: option.splits dest: map_of_eq_None_iff [THEN iffD1])

lemma domain_key_drop:
  assumes "mail_ok key t" and "i \<in> fst ` set (mt_domains t)" and "i \<notin> domain_ids key d t"
  shows "domain_key key (drop_domain key d t) i = domain_key key t i"
proof -
  obtain n where n: "(i, n) \<in> set (mt_domains t)" using assms(2) by auto
  have "distinct (map fst (mt_domains t))" using assms(1) by (simp add: mail_ok_def)
  moreover have "(i, n) \<in> set (mt_domains (drop_domain key d t))"
    using n assms(3) by (auto simp: drop_domain_def mem_domain_ids)
  ultimately have "map_of (mt_domains (drop_domain key d t)) i = Some n"
    by (simp add: drop_domain_def distinct_map_filter)
  then show ?thesis by (simp add: domain_key_def [of key "drop_domain key d t"] domain_key_eq [OF assms(1) n])
qed

lemma domain_key_same [simp]:
  "domain_key key (t\<lparr>mt_users := us\<rparr>) = domain_key key t"
  "domain_key key (t\<lparr>mt_aliases := as\<rparr>) = domain_key key t"
  by (simp_all add: domain_key_def fun_eq_iff)

lemma mail_ok_refs:
  assumes "mail_ok key t"
  shows "u \<in> set (mt_users t) \<Longrightarrow> mu_domain u \<in> fst ` set (mt_domains t)"
    and "a \<in> set (mt_aliases t) \<Longrightarrow> ma_domain a \<in> fst ` set (mt_domains t)"
  using assms by (auto simp: mail_ok_def)

lemma mail_abs_drop:
  assumes ok: "mail_ok key t"
  shows "mail_abs key (drop_domain key d t) = mail_spec key (Remove_Domain d purge) pw (mail_abs key t)"
proof -
  have users: "mu_domain u \<notin> domain_ids key d t \<longleftrightarrow> domain_key key t (mu_domain u) \<noteq> key d"
    if "u \<in> set (mt_users t)" for u
    using domain_key_iff [OF ok mail_ok_refs(1) [OF ok that], of d] by simp
  have als: "ma_domain a \<notin> domain_ids key d t \<longleftrightarrow> domain_key key t (ma_domain a) \<noteq> key d"
    if "a \<in> set (mt_aliases t)" for a
    using domain_key_iff [OF ok mail_ok_refs(2) [OF ok that], of d] by simp
  have boxes: "map_of (map (box_row key (domain_key key (drop_domain key d t)))
      (filter (\<lambda>u. mu_domain u \<notin> domain_ids key d t) (mt_users t))) =
    (\<lambda>y. case map_of (map (box_row key (domain_key key t)) (mt_users t)) y of
       Some r \<Rightarrow> if fst r \<noteq> key d then Some r else None | None \<Rightarrow> None)"
    unfolding box_row_def [abs_def]
    by (rule map_of_filter_rows)
      (use ok mail_ok_refs(1) [OF ok] in \<open>auto simp: mail_ok_def users domain_key_drop [OF ok]\<close>)
  have forwards: "map (\<lambda>a. (domain_key key (drop_domain key d t) (ma_domain a), ma_source a, ma_destination a))
      (filter (\<lambda>a. ma_domain a \<notin> domain_ids key d t) (mt_aliases t)) =
    filter (\<lambda>f. fst f \<noteq> key d)
      (map (\<lambda>a. (domain_key key t (ma_domain a), ma_source a, ma_destination a)) (mt_aliases t))"
    using mail_ok_refs(2) [OF ok]
    by (auto simp: filter_map comp_def als domain_key_drop [OF ok] cong: filter_cong intro!: map_cong)
  have domains: "key ` snd ` {r \<in> set (mt_domains t). key (snd r) \<noteq> key d} =
      key ` snd ` set (mt_domains t) - {key d}" by auto
  show ?thesis
    unfolding mail_abs_def mail_spec_def
    by (simp add: drop_domain_def [of key d t, THEN arg_cong [of _ _ mt_users]]
      drop_domain_def [of key d t, THEN arg_cong [of _ _ mt_aliases]]
      drop_domain_def [of key d t, THEN arg_cong [of _ _ mt_domains]] boxes forwards domains)
      (auto simp: fun_eq_iff split: option.splits)
qed

lemma mail_effect_abs:
  "mail_effect key x pw t t' \<Longrightarrow> mail_ok key t \<Longrightarrow>
     mail_abs key t' = mail_spec key x pw (mail_abs key t)"
proof (induction rule: mail_effect.induct)
  case (known d t pw)
  then show ?case by (simp add: mail_spec_def mail_abs_def insert_absorb)
next
  case (fresh d t i pw)
  then show ?case
    by (simp add: mail_spec_def mail_abs_def box_row_def domain_key_append mail_ok_refs cong: map_cong)
next
  case (drop d purge pw t)
  then show ?case by (rule mail_abs_drop)
next
  case (mailbox i a t p q pw)
  have "domain_key key t i = key (address_domain a)"
    using mailbox domain_key_iff [OF mailbox(2) domain_ids_known [OF mailbox(1)]] by simp
  then show ?case using mailbox
    by (simp add: mail_spec_def mail_abs_def mail_ok_def map_of_put_user split: option.split)
next
  case (unbox a purge pw t)
  then show ?case by (simp add: mail_spec_def mail_abs_def box_row_def [abs_def] map_of_delete_rows)
next
  case (forward i s t d pw)
  have "domain_key key t i = key (address_domain s)"
    using forward domain_key_iff [OF forward(2) domain_ids_known [OF forward(1)]] by simp
  then show ?case by (simp add: mail_spec_def mail_abs_def)
next
  case (unforward s pw t)
  then show ?case by (simp add: mail_spec_def mail_abs_def filter_map comp_def)
qed

section \<open>The operations have these effects\<close>

lemma dropWhile_sep: "x \<notin> set l \<Longrightarrow> dropWhile (\<lambda>c. c \<noteq> x) (l @ x # d) = x # d"
  by (induction l) auto

lemma splitAddress_domain: "splitAddress h a = Inr (l, d) \<Longrightarrow> d = address_domain a"
  by (auto simp: splitAddress_iff address_domain_def dropWhile_sep)

text \<open>The outcome of a run: the effect, or the tables as they were; after nil the effect.\<close>

definition mail_outcome :: "(string \<Rightarrow> string) \<Rightarrow> mail_op \<Rightarrow> goerr option \<Rightarrow> mail_tables \<Rightarrow> mail_tables \<Rightarrow> bool" where
  "mail_outcome key x r t t' \<longleftrightarrow> (\<exists>pw. mail_effect key x pw t t') \<or> (r \<noteq> None \<and> t' = t)"

lemma outcome_effect: "mail_effect key x pw t t' \<Longrightarrow> mail_outcome key x r t t'"
  by (auto simp: mail_outcome_def)

lemma outcome_same [simp]: "mail_outcome key x (Some e) t t"
  by (simp add: mail_outcome_def)

context mail_db
begin

lemma exec_then:
  assumes run: "run_state (try_io (db_Exec h stmt args) wrap k) m = (r, m')" and k: "keeps tabs k"
    and ok: "\<And>w'. h_sql_exec h stmt args (world m) = (None, w') \<Longrightarrow>
      mail_effect key x pw (tabs (world m)) (tabs w')"
  shows "mail_outcome key x r (tabs (world m)) (tabs (world m'))"
proof -
  obtain e m1 where st: "run_state (db_Exec h stmt args) m = (e, m1)"
    and t: "tabs (world m') = tabs (world m1)" and nil: "r = None \<Longrightarrow> e = None"
    using try_io_obs [OF k run] by blast
  have ex: "h_sql_exec h stmt args (world m) = (e, world m1)"
    using st by (auto simp: db_Exec_def prod_eq_iff)
  show ?thesis
  proof (cases e)
    case None
    then show ?thesis using ok ex t by (auto intro: outcome_effect)
  next
    case (Some x)
    then show ?thesis using exec_fail ex t nil by (auto simp: mail_outcome_def)
  qed
qed

lemma AddDomain_outcome:
  assumes "run_state (AddDomain h d) m = (r, m')" and "fits_column d"
  shows "mail_outcome key (Add_Domain d) r (tabs (world m)) (tabs (world m'))"
  using assms(1) unfolding AddDomain_def
proof (rule exec_then)
  fix w' assume "h_sql_exec h insert_domain_sql [SqlStr d] (world m) = (None, w')"
  from add_domain [OF this assms(2)] show "mail_effect key (Add_Domain d) [] (tabs (world m)) (tabs w')"
    by (auto split: if_splits intro: mail_effect.intros)
qed (intro keeps_intros)

lemma RemoveDomain_outcome:
  assumes "run_state (RemoveDomain h d purge) m = (r, m')"
  shows "mail_outcome key (Remove_Domain d purge) r (tabs (world m)) (tabs (world m'))"
  using assms unfolding RemoveDomain_def
  by (rule exec_then) (intro keeps_intros, auto dest!: delete_domain intro: mail_effect.intros)

lemma DeleteMailbox_outcome:
  assumes "run_state (DeleteMailbox h a purge) m = (r, m')"
  shows "mail_outcome key (Delete_Mailbox a purge) r (tabs (world m)) (tabs (world m'))"
proof (cases "splitAddress h a")
  case (Inl e)
  with assms show ?thesis by (auto simp: DeleteMailbox_def intro: outcome_same)
next
  case (Inr ld)
  with assms show ?thesis unfolding DeleteMailbox_def
    by (auto split: prod.splits simp del: run_try_io elim!: exec_then intro!: keeps_intros
      dest!: delete_mailbox intro: mail_effect.intros)
qed

lemma DeleteAlias_outcome:
  assumes "run_state (DeleteAlias h s) m = (r, m')"
  shows "mail_outcome key (Delete_Alias s) r (tabs (world m)) (tabs (world m'))"
  using assms unfolding DeleteAlias_def
  by (rule exec_then) (intro keeps_intros, auto dest!: delete_alias intro: mail_effect.intros)

text \<open>The identifier that \<open>domainID\<close> returns is one of the domain's.\<close>

lemma domainID_outcome:
  assumes "run_state (domainID h d) m = (res, m')"
  shows "tabs (world m') = tabs (world m)"
    and "res = Inr i \<Longrightarrow> i \<in> domain_ids key d (tabs (world m))"
proof -
  obtain q w1 where q: "h_sql_query_id h select_domain_sql [SqlStr d] (world m) = (q, w1)" by fastforce
  have m': "world m' = w1" and res: "res = (case q of Inl ErrNoRows \<Rightarrow> Inl ''not found''
      | Inl (SqlErr e) \<Rightarrow> Inl e | Inr i \<Rightarrow> Inr i)"
    using assms q by (auto simp: domainID_def db_QueryRowId_def split: sum.splits sql_err.splits)
  show "tabs (world m') = tabs (world m)" using select_same q m' by simp
  show "i \<in> domain_ids key d (tabs (world m))" if "res = Inr i"
    using select_id q that res by (auto split: sum.splits sql_err.splits)
qed

lemma keeps_hashPassword: "keeps tabs (hashPassword h p)"
  unfolding hashPassword_def by (intro keeps_intros)

text \<open>The part of \<open>CreateMailbox\<close> and \<open>CreateAlias\<close> up to the identifier of the domain.\<close>

lemma domainID_then:
  assumes run: "run_state (domainID h d \<bind> (\<lambda>res. case res of
      Inl e \<Rightarrow> State_Monad.return (Some (wrap e)) | Inr i \<Rightarrow> k i)) m = (r, m')"
    and k: "\<And>i m1. run_state (k i) m1 = (r, m') \<Longrightarrow> i \<in> domain_ids key d (tabs (world m1)) \<Longrightarrow>
      mail_outcome key x r (tabs (world m1)) (tabs (world m'))"
  shows "mail_outcome key x r (tabs (world m)) (tabs (world m'))"
proof -
  obtain res m1 where id: "run_state (domainID h d) m = (res, m1)" by fastforce
  note same = domainID_outcome [OF id]
  show ?thesis
  proof (cases res)
    case (Inl e)
    then show ?thesis using run id same(1) by auto
  next
    case (Inr i)
    then show ?thesis using run id same k [of i m1] by simp
  qed
qed

lemma CreateAlias_outcome:
  assumes run: "run_state (CreateAlias h s d) m = (r, m')" and fits: "fits_column s" "fits_column d"
  shows "mail_outcome key (Create_Alias s d) r (tabs (world m)) (tabs (world m'))"
proof (cases "splitAddress h s")
  case (Inl e)
  with run show ?thesis by (auto simp: CreateAlias_def)
next
  case (Inr ld)
  then obtain l where ld: "splitAddress h s = Inr (l, address_domain s)"
    using splitAddress_domain by (metis prod.collapse)
  show ?thesis using run unfolding CreateAlias_def ld sum.case prod.case
  proof (rule domainID_then)
    fix i m1
    assume ins: "run_state (try_io (db_Exec h insert_alias_sql [SqlInt i, SqlStr s, SqlStr d])
        (\<lambda>e. ''create alias '' @ s @ '' -> '' @ d @ '': '' @ e) (State_Monad.return None)) m1 = (r, m')"
      and i: "i \<in> domain_ids key (address_domain s) (tabs (world m1))"
    show "mail_outcome key (Create_Alias s d) r (tabs (world m1)) (tabs (world m'))"
      using ins by (rule exec_then [where pw = "[]"])
        (intro keeps_intros, auto dest!: add_alias [OF _ fits domain_ids_known [OF i]] intro!: mail_effect.intros i)
  qed
qed

lemma CreateMailbox_outcome:
  assumes run: "run_state (CreateMailbox h a p q) m = (r, m')"
  shows "mail_outcome key (Create_Mailbox a p q) r (tabs (world m)) (tabs (world m'))"
proof (cases "splitAddress h a")
  case (Inl e)
  with run show ?thesis by (auto simp: CreateMailbox_def)
next
  case (Inr ld)
  then obtain l where ld: "splitAddress h a = Inr (l, address_domain a)"
    using splitAddress_domain by (metis prod.collapse)
  let ?dir = "path_join [mailRoot, address_domain a, l]"
  let ?ins = "\<lambda>i pw. try_io (db_Exec h insert_user_sql [SqlInt i, SqlStr a, SqlStr pw, SqlU64 q])
      (\<lambda>e. ''create account '' @ a @ '': '' @ e) (make_subdirs h ?dir [[], ''cur'', ''new'', ''tmp''])"
  show ?thesis using run unfolding CreateMailbox_def ld sum.case prod.case
  proof (rule domainID_then)
    fix i m1
    assume hash: "run_state (hashPassword h p \<bind> (\<lambda>hash. case hash of
        Inl e \<Rightarrow> State_Monad.return (Some e) | Inr hashed \<Rightarrow> ?ins i hashed)) m1 = (r, m')"
      and i: "i \<in> domain_ids key (address_domain a) (tabs (world m1))"
    obtain hres m2 where h: "run_state (hashPassword h p) m1 = (hres, m2)" by fastforce
    have same: "tabs (world m2) = tabs (world m1)" using keepsD [OF keeps_hashPassword h] .
    show "mail_outcome key (Create_Mailbox a p q) r (tabs (world m1)) (tabs (world m'))"
    proof (cases hres)
      case (Inl e)
      then show ?thesis using hash h same by auto
    next
      case (Inr pw)
      then have "run_state (?ins i pw) m2 = (r, m')" using hash h by simp
      then show ?thesis unfolding same [symmetric]
        by (rule exec_then) (intro keeps_intros, auto dest!: put_mailbox intro!: mail_effect.intros i [folded same])
    qed
  qed
qed

lemma run_mail_outcome:
  assumes "run_state (run_mail h x) m = (r, m')" and "op_fits x"
  shows "mail_outcome key x r (tabs (world m)) (tabs (world m'))"
  using assms
  by (cases x) (auto simp: run_mail_def op_fits_def AddDomain_outcome RemoveDomain_outcome
    CreateMailbox_outcome DeleteMailbox_outcome CreateAlias_outcome DeleteAlias_outcome)

end

section \<open>A host with these laws\<close>

text \<open>
  The world is the tables. Programs print a hash and directories are made; a new domain
  gets the identifier after the largest one, and a reference to no domain is an error.
\<close>

definition next_id :: "mail_tables \<Rightarrow> int" where
  "next_id t = 1 + foldr max (map fst (mt_domains t)) 0"

definition sql_insert_domain :: "(string \<Rightarrow> string) \<Rightarrow> string \<Rightarrow> mail_tables \<Rightarrow> mail_tables" where
  "sql_insert_domain key s t =
     (if key s \<in> key ` snd ` set (mt_domains t) then t
      else t\<lparr>mt_domains := mt_domains t @ [(next_id t, s)]\<rparr>)"

definition sql_exec1 :: "(string \<Rightarrow> string) \<Rightarrow> string \<Rightarrow> string \<Rightarrow> mail_tables \<Rightarrow> goerr option \<times> mail_tables" where
  "sql_exec1 key stmt s t =
     (if stmt = insert_domain_sql then (None, sql_insert_domain key s t)
      else if stmt = delete_domain_sql then (None, drop_domain key s t)
      else if stmt = delete_user_sql then
        (None, t\<lparr>mt_users := filter (\<lambda>u. key (mu_email u) \<noteq> key s) (mt_users t)\<rparr>)
      else if stmt = delete_alias_sql then
        (None, t\<lparr>mt_aliases := filter (\<lambda>a. key (ma_source a) \<noteq> key s) (mt_aliases t)\<rparr>)
      else (Some ''syntax error'', t))"

definition sql_exec :: "(string \<Rightarrow> string) \<Rightarrow> string \<Rightarrow> sqlval list \<Rightarrow> mail_tables \<Rightarrow> goerr option \<times> mail_tables" where
  "sql_exec key stmt args t =
     (case args of
        [SqlStr s] \<Rightarrow> sql_exec1 key stmt s t
      | [SqlInt i, SqlStr s, SqlStr d] \<Rightarrow>
          (None, if i \<in> fst ` set (mt_domains t)
                 then t\<lparr>mt_aliases := mt_aliases t @ [\<lparr>ma_domain = i, ma_source = s, ma_destination = d\<rparr>]\<rparr>
                 else t)
      | [SqlInt i, SqlStr a, SqlStr p, SqlU64 q] \<Rightarrow>
          if i \<in> fst ` set (mt_domains t)
          then (None, t\<lparr>mt_users := put_user key
                 \<lparr>mu_domain = i, mu_email = a, mu_password = p, mu_quota = q\<rparr> (mt_users t)\<rparr>)
          else (Some ''foreign key constraint fails'', t)
      | _ \<Rightarrow> (None, t))"

definition sql_query :: "(string \<Rightarrow> string) \<Rightarrow> string \<Rightarrow> sqlval list \<Rightarrow> mail_tables \<Rightarrow> (sql_err + int) \<times> mail_tables" where
  "sql_query key stmt args t =
     (case args of
        [SqlStr d] \<Rightarrow> (case filter (\<lambda>r. key (snd r) = key d) (mt_domains t) of
           [] \<Rightarrow> Inl ErrNoRows | r # rs \<Rightarrow> Inr (fst r))
      | _ \<Rightarrow> Inl ErrNoRows, t)"

definition sql_host :: "(string \<Rightarrow> string) \<Rightarrow> mail_tables host" where
  "sql_host key = idle_host\<lparr>h_exec := (\<lambda>_ _ w. ((''{SHA512-CRYPT}x'', None), w)),
     h_sql_exec := sql_exec key, h_sql_query_id := sql_query key\<rparr>"

lemma sql_host_simps [simp]:
  "h_exec (sql_host key) prog args w = ((''{SHA512-CRYPT}x'', None), w)"
  "h_mkdir_all (sql_host key) p perm w = (None, w)"
  "h_remove_all (sql_host key) p w = (None, w)"
  "h_sql_exec (sql_host key) = sql_exec key"
  "h_sql_query_id (sql_host key) = sql_query key"
  by (simp_all add: sql_host_def)

lemma foldr_max_ge: "(i :: int) \<in> set is \<Longrightarrow> i \<le> foldr max is 0"
  by (induction "is") auto

lemma next_id_fresh: "next_id t \<notin> fst ` set (mt_domains t)"
  using foldr_max_ge [of "next_id t" "map fst (mt_domains t)"] by (auto simp: next_id_def)

lemma sql_stmts_distinct [simp]:
  "delete_domain_sql \<noteq> insert_domain_sql" "delete_user_sql \<noteq> insert_domain_sql"
  "delete_alias_sql \<noteq> insert_domain_sql" "delete_user_sql \<noteq> delete_domain_sql"
  "delete_alias_sql \<noteq> delete_domain_sql" "delete_alias_sql \<noteq> delete_user_sql"
  by (simp_all add: insert_domain_sql_def delete_domain_sql_def delete_user_sql_def delete_alias_sql_def)

lemma sql_exec_fail: "sql_exec key stmt args w = (Some e, w') \<Longrightarrow> w' = w"
  by (auto simp: sql_exec_def sql_exec1_def split: list.splits sqlval.splits if_splits)

lemma sql_query_same: "sql_query key stmt args w = (res, w') \<Longrightarrow> w' = w"
  by (simp add: sql_query_def)

lemma sql_query_found:
  "sql_query key stmt [SqlStr d] w = (Inr i, w') \<Longrightarrow> i \<in> domain_ids key d w"
  by (force simp: sql_query_def mem_domain_ids split: list.splits dest: filter_eq_ConsD)

interpretation sql: mail_db "sql_host key" "\<lambda>t. t" key
proof unfold_locales
  show "t' = t" if "h_sql_exec (sql_host key) stmt args t = (Some e, t')" for stmt args t e t'
    using that by (auto dest: sql_exec_fail)
next
  fix d :: string and t t' :: mail_tables
  assume "h_sql_exec (sql_host key) insert_domain_sql [SqlStr d] t = (None, t')"
  then have t': "t' = sql_insert_domain key d t" by (simp add: sql_exec_def sql_exec1_def)
  show "if key d \<in> key ` snd ` set (mt_domains t) then t' = t
       else \<exists>i. i \<notin> fst ` set (mt_domains t) \<and> t' = t\<lparr>mt_domains := mt_domains t @ [(i, d)]\<rparr>"
    using next_id_fresh [of t] by (auto simp: t' sql_insert_domain_def)
qed (auto simp: sql_exec_def sql_exec1_def split: if_splits dest: sql_exec_fail sql_query_same sql_query_found)

section \<open>Properties\<close>


text \<open>A collation: letters without their case. A domain and a mailbox of it.\<close>

definition ci_key :: "string \<Rightarrow> string" where
  "ci_key = map (\<lambda>c. let n = of_char c :: nat in if 65 \<le> n \<and> n \<le> 90 then char_of (n + 32) else c)"

definition demo_tables :: mail_tables where
  "demo_tables = \<lparr>mt_domains = [(1, ''A.org'')],
     mt_users = [\<lparr>mu_domain = 1, mu_email = ''joe@a.org'', mu_password = ''old'', mu_quota = 5\<rparr>],
     mt_aliases = []\<rparr>"

definition demo_mail :: mail_op where
  "demo_mail = Create_Mailbox ''Joe@a.org'' ''secret'' 7"

lemma demo_tables_ok: "mail_ok ci_key demo_tables"
  by (simp add: mail_ok_def demo_tables_def)


text \<open>Operations one after the other, whatever they return.\<close>

fun run_mails :: "'w host \<Rightarrow> mail_op list \<Rightarrow> 'w machine \<Rightarrow> 'w machine" where
  "run_mails h [] m = m"
| "run_mails h (x # xs) m = run_mails h xs (snd (run_state (run_mail h x) m))"


definition demo_mails :: "mail_op list" where
  "demo_mails = [Add_Domain ''b.org'', demo_mail, Create_Alias ''x@b.org'' ''joe@a.org'',
     Remove_Domain ''a.ORG'' False]"


end
