(* ===== verification/DnsZone.thy ===== *)
theory DnsZone
  imports Powerdns
begin

text \<open>
  What the operations of \<open>agent/internal/dns/powerdns.go\<close> mean for the zones that
  PowerDNS serves. The locale \<open>dns_server\<close> is what the PowerDNS API documents about the
  requests of the client; \<open>dns_spec\<close> says what each operation does to the zones, and the
  client refines it. A request body can be read back, which \<open>pdns_host\<close>, a host with these
  laws, does.
\<close>

section \<open>Zones\<close>

text \<open>
  A zone maps a name and a type to the record set with its TTL. Names are compared under
  \<open>norm\<close>, since they are not case sensitive.
\<close>

type_synonym dns_zone = "string \<times> string \<Rightarrow> (u32 \<times> dns_record list) option"

type_synonym zones = "string \<Rightarrow> dns_zone option"

definition rr_key :: "(string \<Rightarrow> string) \<Rightarrow> rrset \<Rightarrow> string \<times> string" where
  "rr_key norm s = (norm (rr_Name s), rr_Type s)"

definition apply_rrset :: "(string \<Rightarrow> string) \<Rightarrow> rrset \<Rightarrow> dns_zone \<Rightarrow> dns_zone" where
  "apply_rrset norm s dz =
     (if rr_ChangeType s = ''REPLACE'' then
        dz(rr_key norm s := (if rr_Records s = [] then None else Some (rr_TTL s, rr_Records s)))
      else if rr_ChangeType s = ''DELETE'' then dz(rr_key norm s := None)
      else dz)"

definition patch_zone :: "(string \<Rightarrow> string) \<Rightarrow> rrset list \<Rightarrow> string \<Rightarrow> zones \<Rightarrow> zones" where
  "patch_zone norm sets z Z = (case Z z of None \<Rightarrow> Z | Some dz \<Rightarrow> Z(z \<mapsto> fold (apply_rrset norm) sets dz))"

section \<open>What PowerDNS promises\<close>

definition zone_url :: "Client \<Rightarrow> string \<Rightarrow> string" where
  "zone_url c z = baseURL c @ ''/api/v1'' @ zone_path z"

definition zones_url :: "Client \<Rightarrow> string" where
  "zones_url c = baseURL c @ ''/api/v1'' @ ''/servers/localhost/zones''"

text \<open>Zone names whose identifier in the API is the name itself.\<close>

definition plain_zone :: "string \<Rightarrow> bool" where
  "plain_zone z \<longleftrightarrow> list_all (\<lambda>ch. is_digit ch \<or> ch \<in> set ''-.'' \<or>
     (97 \<le> (of_char ch :: nat) \<and> (of_char ch :: nat) \<le> 122)) z \<and> z \<noteq> [] \<and> \<not> Contains z ''..''"

text \<open>
  A request is carried out, or has no effect and is not answered with success. A patch has at
  most one change per record set, of a zone that is there; a zone is created once, with
  some initial records. Without an answer both are possible.
\<close>

locale dns_server =
  fixes h :: "'w host" and c :: Client and zs :: "'w \<Rightarrow> zones" and norm :: "string \<Rightarrow> string"
  assumes patch: "h_http h ''PATCH'' (zone_url c z) hdrs (Some (json_of_patch sets)) w = (resp, w') \<Longrightarrow>
      plain_zone z \<Longrightarrow> distinct (map (rr_key norm) sets) \<Longrightarrow>
      zs w z \<noteq> None \<and> zs w' = patch_zone norm sets z (zs w) \<or> \<not> accepted resp \<and> zs w' = zs w"
    and post: "h_http h ''POST'' (zones_url c) hdrs (Some (json_of_zone z)) w = (resp, w') \<Longrightarrow>
      plain_zone z \<Longrightarrow>
      zs w z = None \<and> (\<exists>dz. zs w' = (zs w)(z \<mapsto> dz)) \<or> \<not> accepted resp \<and> zs w' = zs w"
    and delete: "h_http h ''DELETE'' (zone_url c z) hdrs None w = (resp, w') \<Longrightarrow> plain_zone z \<Longrightarrow>
      zs w z \<noteq> None \<and> zs w' = (zs w)(z := None) \<or> \<not> accepted resp \<and> zs w' = zs w"

section \<open>The specification\<close>

text \<open>
  The record set that a record of the caller becomes, by its key: the name is absolute, the
  TTL not zero, the priority in front of the content.
\<close>

definition record_key :: "(string \<Rightarrow> string) \<Rightarrow> (string \<Rightarrow> string) \<Rightarrow> string \<Rightarrow> string \<Rightarrow> string \<Rightarrow> string \<times> string" where
  "record_key norm uni z name typ =
     (norm (if name \<in> {''@'', []} then z else if HasSuffix name ''.'' then name else name @ ''.'' @ z),
      ToUpper uni typ)"

definition record_value :: "ZoneRecord \<Rightarrow> u32 \<times> dns_record list" where
  "record_value r = (if zr_TTL r = 0 then 300 else zr_TTL r,
     [\<lparr>Content = (if zr_Priority r = 0 then zr_Content r
         else show_nat (unat (zr_Priority r)) @ '' '' @ zr_Content r), Disabled = False\<rparr>])"

definition put_record :: "(string \<Rightarrow> string) \<Rightarrow> (string \<Rightarrow> string) \<Rightarrow> string \<Rightarrow> ZoneRecord \<Rightarrow> dns_zone \<Rightarrow> dns_zone" where
  "put_record norm uni z r dz = dz(record_key norm uni z (zr_Name r) (zr_Type r) \<mapsto> record_value r)"

datatype dns_op =
    Create_Zone string "ZoneRecord list"
  | Delete_Zone string
  | Upsert_Record string ZoneRecord
  | Delete_Record string string string

definition run_dns :: "'w host \<Rightarrow> Client \<Rightarrow> dns_op \<Rightarrow> ('w, goerr option) io" where
  "run_dns h c x = (case x of
     Create_Zone z rs \<Rightarrow> CreateZone h c z rs
   | Delete_Zone z \<Rightarrow> DeleteZone h c z
   | Upsert_Record z r \<Rightarrow> UpsertRecord h c z r
   | Delete_Record z n t \<Rightarrow> DeleteRecord h c z n t)"

definition op_zone :: "dns_op \<Rightarrow> string" where
  "op_zone x = fqdn (case x of
     Create_Zone z rs \<Rightarrow> z | Delete_Zone z \<Rightarrow> z | Upsert_Record z r \<Rightarrow> z | Delete_Record z n t \<Rightarrow> z)"

text \<open>What an operation does to its zone; \<open>dz\<close> are the records a new zone starts with.\<close>

definition dns_spec :: "(string \<Rightarrow> string) \<Rightarrow> (string \<Rightarrow> string) \<Rightarrow> dns_op \<Rightarrow> dns_zone \<Rightarrow> dns_zone option \<Rightarrow> dns_zone option" where
  "dns_spec norm uni x dz old = (let z = op_zone x in case x of
     Create_Zone n rs \<Rightarrow> (case old of None \<Rightarrow> Some (fold (put_record norm uni z) rs dz) | Some d \<Rightarrow> Some d)
   | Delete_Zone n \<Rightarrow> None
   | Upsert_Record n r \<Rightarrow> map_option (put_record norm uni z r) old
   | Delete_Record n name typ \<Rightarrow> map_option (\<lambda>d. d(record_key norm uni z name typ := None)) old)"

text \<open>Records that name different record sets.\<close>

definition one_per_set :: "(string \<Rightarrow> string) \<Rightarrow> (string \<Rightarrow> string) \<Rightarrow> dns_op \<Rightarrow> bool" where
  "one_per_set norm uni x = (case x of
     Create_Zone z rs \<Rightarrow>
       distinct (map (\<lambda>r. record_key norm uni (op_zone x) (zr_Name r) (zr_Type r)) rs)
   | _ \<Rightarrow> True)"

section \<open>Rewriting the requests\<close>

lemma fqdn_expand: "fqdn (expandName n (fqdn z)) =
    (if n \<in> {''@'', []} then fqdn z else if HasSuffix n ''.'' then n else n @ ''.'' @ fqdn z)"
  using expandName_dot [OF fqdn_dot, of n z] by (auto simp: fqdn_id expandName_def)

lemma upsert_key: "rr_key norm (upsert_rrset uni (fqdn z) r) =
    record_key norm uni (fqdn z) (zr_Name r) (zr_Type r)"
  by (simp add: rr_key_def upsert_rrset_def record_key_def Let_def fqdn_expand)

lemma apply_upsert: "apply_rrset norm (upsert_rrset uni (fqdn z) r) = put_record norm uni (fqdn z) r"
  by (simp add: fun_eq_iff apply_rrset_def upsert_key put_record_def record_value_def)
    (simp add: upsert_rrset_def Let_def word_gt_0)

lemma apply_delete: "apply_rrset norm (delete_rrset uni (fqdn z) n t) =
    (\<lambda>d. d(record_key norm uni (fqdn z) n t := None))"
  by (simp add: fun_eq_iff apply_rrset_def rr_key_def delete_rrset_def record_key_def fqdn_expand)

text \<open>A request that the client sends, and what it makes of the answer.\<close>

lemma dns_do_cases:
  assumes run: "run_state (dns_do h c meth path body) m = (r, m')"
  obtains "world m' = world m" and "r \<noteq> None"
  | resp hdrs where "h_http h meth (baseURL c @ ''/api/v1'' @ path) hdrs body (world m) = (resp, world m')"
      and "r = None \<longleftrightarrow> accepted resp"
proof -
  define url where "url = baseURL c @ ''/api/v1'' @ path"
  define hdrs where "hdrs = (''X-API-Key'', apiKey c) #
    (if body \<noteq> None then [(''Content-Type'', ''application/json'')] else [])"
  note run = run [unfolded dns_do_def, folded url_def hdrs_def, unfolded Let_def]
  show thesis
  proof (cases "url_error h meth url")
    case (Some e)
    with run have "(Some e, m) = (r, m')" by simp
    then show thesis by (intro that(1)) auto
  next
    case None
    obtain resp w1 where "h_http h meth url hdrs body (world m) = (resp, w1)" by fastforce
    with None run show thesis
      by (intro that(2) [folded url_def, of hdrs resp])
        (auto simp: host_ops accepted_def split: sum.splits prod.splits if_splits)
  qed
qed

lemma fold_upserts: "fold (apply_rrset norm) (map (upsert_rrset uni (fqdn z)) rs) =
    fold (put_record norm uni (fqdn z)) rs"
  by (simp add: fold_map comp_def apply_upsert)

section \<open>The client refines the specification\<close>

text \<open>
  The outcome for the zone of an operation: nil means that it is done; an error leaves the
  zones alone, or it is done all the same, or a new zone is left with its initial records.
\<close>

definition dns_outcome :: "(string \<Rightarrow> string) \<Rightarrow> (string \<Rightarrow> string) \<Rightarrow> dns_op \<Rightarrow> goerr option \<Rightarrow> zones \<Rightarrow> zones \<Rightarrow> bool" where
  "dns_outcome norm uni x r Z Z' \<longleftrightarrow>
     (\<exists>dz. Z' = Z(op_zone x := dns_spec norm uni x dz (Z (op_zone x))) \<and>
        (Z (op_zone x) = None \<longleftrightarrow> (\<exists>z rs. x = Create_Zone z rs))) \<or>
     (r \<noteq> None \<and> (Z' = Z \<or> (\<exists>z rs dz. x = Create_Zone z rs \<and> Z (op_zone x) = None \<and> Z' = Z(op_zone x \<mapsto> dz))))"

context dns_server
begin

lemma patch_run:
  assumes "run_state (dns_do h c ''PATCH'' (zone_path z) (Some (json_of_patch sets))) m = (r, m')"
    and "plain_zone z" and "distinct (map (rr_key norm) sets)"
  shows "zs (world m) z \<noteq> None \<and> zs (world m') = patch_zone norm sets z (zs (world m)) \<or>
    r \<noteq> None \<and> zs (world m') = zs (world m)"
  using assms(1)
proof (cases rule: dns_do_cases)
  case (2 resp hdrs)
  from patch [OF 2(1) [folded zone_url_def] assms(2,3)] 2(2) show ?thesis by auto
qed auto

lemma UpsertRecord_outcome:
  assumes "run_state (UpsertRecord h c z r) m = (res, m')" and "plain_zone (fqdn z)"
  shows "dns_outcome norm (uni_upper h) (Upsert_Record z r) res (zs (world m)) (zs (world m'))"
  using patch_run [OF assms(1) [unfolded UpsertRecord_def upsertRecords_def] assms(2)]
  by (auto simp: dns_outcome_def dns_spec_def op_zone_def patch_zone_def apply_upsert fun_upd_def)

lemma DeleteRecord_outcome:
  assumes "run_state (DeleteRecord h c z n t) m = (res, m')" and "plain_zone (fqdn z)"
  shows "dns_outcome norm (uni_upper h) (Delete_Record z n t) res (zs (world m)) (zs (world m'))"
  using patch_run [OF assms(1) [unfolded DeleteRecord_def Let_def] assms(2)]
  by (auto simp: dns_outcome_def dns_spec_def op_zone_def patch_zone_def apply_delete fun_upd_def)

lemma DeleteZone_outcome:
  assumes "run_state (DeleteZone h c z) m = (res, m')" and "plain_zone (fqdn z)"
  shows "dns_outcome norm (uni_upper h) (Delete_Zone z) res (zs (world m)) (zs (world m'))"
proof -
  obtain e m1 where d: "run_state (dns_do h c ''DELETE'' (zone_path (fqdn z)) None) m = (e, m1)"
    by fastforce
  have m1: "m' = m1" "res = None \<longleftrightarrow> e = None"
    using assms(1) d by (auto simp: DeleteZone_def Let_def split: option.splits)
  from d show ?thesis
  proof (cases rule: dns_do_cases)
    case (2 resp hdrs)
    from delete [OF 2(1) [folded zone_url_def] assms(2)] 2(2) m1 show ?thesis
      by (auto simp: dns_outcome_def dns_spec_def op_zone_def)
  qed (use m1 in \<open>auto simp: dns_outcome_def\<close>)
qed

lemma CreateZone_outcome:
  assumes run: "run_state (CreateZone h c z rs) m = (res, m')" and "plain_zone (fqdn z)"
    and "one_per_set norm (uni_upper h) (Create_Zone z rs)"
  shows "dns_outcome norm (uni_upper h) (Create_Zone z rs) res (zs (world m)) (zs (world m'))"
proof -
  let ?Z = "zs (world m)" and ?z = "fqdn z"
  obtain e m1 where p: "run_state (dns_do h c ''POST'' ''/servers/localhost/zones'' (Some (json_of_zone ?z))) m = (e, m1)"
    by fastforce
  have posted: "?Z ?z = None \<and> (\<exists>dz. zs (world m1) = ?Z(?z \<mapsto> dz)) \<or> e \<noteq> None \<and> zs (world m1) = ?Z"
    using p
  proof (cases rule: dns_do_cases)
    case (2 resp hdrs)
    from post [OF 2(1) [folded zones_url_def] assms(2)] 2(2) show ?thesis by auto
  qed auto
  show ?thesis
  proof (cases "e = None \<and> rs \<noteq> []")
    case True
    then obtain dz where dz: "?Z ?z = None" "zs (world m1) = ?Z(?z \<mapsto> dz)" using posted by auto
    have "run_state (dns_do h c ''PATCH'' (zone_path ?z)
        (Some (json_of_patch (map (upsert_rrset (uni_upper h) ?z) rs)))) m1 = (res, m')"
      using run p True by (simp add: CreateZone_def upsertRecords_def Let_def)
    from patch_run [OF this assms(2)] assms(3) dz show ?thesis
      by (auto simp: dns_outcome_def dns_spec_def op_zone_def patch_zone_def fold_upserts one_per_set_def
          comp_def upsert_key)
  next
    case False
    then have "m' = m1" "res = None \<longleftrightarrow> e = None"
      using run p by (auto simp: CreateZone_def Let_def split: option.splits if_splits)
    then show ?thesis using posted False
      by (auto simp: dns_outcome_def dns_spec_def op_zone_def)
  qed
qed

lemma run_dns_outcome:
  assumes "run_state (run_dns h c x) m = (r, m')" and "plain_zone (op_zone x)"
    and "one_per_set norm (uni_upper h) x"
  shows "dns_outcome norm (uni_upper h) x r (zs (world m)) (zs (world m'))"
  using assms UpsertRecord_outcome DeleteRecord_outcome DeleteZone_outcome CreateZone_outcome
  by (cases x) (auto simp: run_dns_def op_zone_def)

end

section \<open>Reading a body back\<close>

text \<open>The decoding of the API: a member that is absent has its zero value.\<close>

definition get_str :: "string \<Rightarrow> (string \<times> json) list \<Rightarrow> string option" where
  "get_str k ms = (case map_of ms k of Some (JStr s) \<Rightarrow> Some s | _ \<Rightarrow> None)"

definition record_of_json :: "json \<Rightarrow> dns_record option" where
  "record_of_json j = (case j of
     JObj ms \<Rightarrow> (case (get_str ''content'' ms, map_of ms ''disabled'') of
        (Some s, Some (JBool b)) \<Rightarrow> Some \<lparr>Content = s, Disabled = b\<rparr>
      | _ \<Rightarrow> None)
   | _ \<Rightarrow> None)"

definition ttl_of_json :: "(string \<times> json) list \<Rightarrow> u32" where
  "ttl_of_json ms = (case map_of ms ''ttl'' of Some (JNum n) \<Rightarrow> word_of_int n | _ \<Rightarrow> 0)"

definition records_of_json :: "(string \<times> json) list \<Rightarrow> dns_record list option" where
  "records_of_json ms = (case map_of ms ''records'' of
     None \<Rightarrow> Some [] | Some (JArr js) \<Rightarrow> those (map record_of_json js) | _ \<Rightarrow> None)"

definition rrset_of_json :: "json \<Rightarrow> rrset option" where
  "rrset_of_json j = (case j of
     JObj ms \<Rightarrow> (case (get_str ''name'' ms, get_str ''type'' ms, get_str ''changetype'' ms, records_of_json ms) of
        (Some n, Some t, Some ch, Some rs) \<Rightarrow>
          Some \<lparr>rr_Name = n, rr_Type = t, rr_TTL = ttl_of_json ms, rr_ChangeType = ch, rr_Records = rs\<rparr>
      | _ \<Rightarrow> None)
   | _ \<Rightarrow> None)"

definition patch_of_json :: "json \<Rightarrow> rrset list option" where
  "patch_of_json j = (case j of
     JObj ms \<Rightarrow> (case map_of ms ''rrsets'' of Some (JArr js) \<Rightarrow> those (map rrset_of_json js) | _ \<Rightarrow> None)
   | _ \<Rightarrow> None)"

definition zone_of_json :: "json \<Rightarrow> string option" where
  "zone_of_json j = (case j of JObj ms \<Rightarrow> get_str ''name'' ms | _ \<Rightarrow> None)"

lemma those_map_Some: "(\<And>x. x \<in> set xs \<Longrightarrow> f (g x) = Some x) \<Longrightarrow> those (map f (map g xs)) = Some xs"
  by (induction xs) auto

lemma record_of_json_of [simp]: "record_of_json (json_of_record r) = Some r"
  by (simp add: record_of_json_def json_of_record_def get_str_def)

lemma rrset_of_json_of [simp]: "rrset_of_json (json_of_rrset s) = Some s"
  using those_map_Some [of "rr_Records s" record_of_json json_of_record]
  by (auto simp: rrset_of_json_def json_of_rrset_def get_str_def records_of_json_def ttl_of_json_def)

lemma patch_of_json_of: "patch_of_json (json_of_patch sets) = Some sets"
  using those_map_Some [of sets rrset_of_json json_of_rrset]
  by (simp add: patch_of_json_def json_of_patch_def)

lemma zone_of_json_of [simp]: "zone_of_json (json_of_zone z) = Some z"
  by (simp add: zone_of_json_def json_of_zone_def get_str_def)

section \<open>A host with these laws\<close>

text \<open>Its world is the zones; a new zone starts empty.\<close>

definition pdns_http :: "Client \<Rightarrow> (string \<Rightarrow> string) \<Rightarrow> string \<Rightarrow> string \<Rightarrow> (string \<times> string) list \<Rightarrow> json option
    \<Rightarrow> zones \<Rightarrow> (goerr + nat \<times> string) \<times> zones" where
  "pdns_http c norm meth url hdrs body Z =
     (let z = drop (length (zone_url c [])) url in
      if meth = ''POST'' then
        (case Option.bind body zone_of_json of
           Some n \<Rightarrow> if Z n = None then (Inr (201, []), Z(n \<mapsto> Map.empty)) else (Inr (409, ''Conflict''), Z)
         | None \<Rightarrow> (Inr (400, []), Z))
      else if Z z = None then (Inr (404, ''Not Found''), Z)
      else if meth = ''DELETE'' then (Inr (204, []), Z(z := None))
      else (case Option.bind body patch_of_json of
           Some sets \<Rightarrow>
             if distinct (map (rr_key norm) sets) then (Inr (204, []), patch_zone norm sets z Z)
             else (Inr (422, ''Duplicate RRset''), Z)
         | None \<Rightarrow> (Inr (400, []), Z)))"

definition pdns_host :: "Client \<Rightarrow> (string \<Rightarrow> string) \<Rightarrow> zones host" where
  "pdns_host c norm = idle_host\<lparr>h_http := pdns_http c norm\<rparr>"

lemma pdns_host_simps [simp]:
  "h_http (pdns_host c norm) = pdns_http c norm" "url_error (pdns_host c norm) meth url = None"
  "uni_upper (pdns_host c norm) s = s"
  by (simp_all add: pdns_host_def)

lemma drop_zone_url: "drop (length (zone_url c [])) (zone_url c z) = z"
  by (simp add: zone_url_def zone_path_def)

interpretation pdns: dns_server "pdns_host c norm" c "\<lambda>Z. Z" norm
proof unfold_locales
  fix z hdrs sets resp and Z Z' :: zones
  assume "h_http (pdns_host c norm) ''PATCH'' (zone_url c z) hdrs (Some (json_of_patch sets)) Z = (resp, Z')"
    and "distinct (map (rr_key norm) sets)"
  then show "Z z \<noteq> None \<and> Z' = patch_zone norm sets z Z \<or> \<not> accepted resp \<and> Z' = Z"
    by (auto simp: pdns_http_def drop_zone_url patch_of_json_of accepted_def Let_def split: if_splits)
next
  fix z hdrs resp and Z Z' :: zones
  assume "h_http (pdns_host c norm) ''POST'' (zones_url c) hdrs (Some (json_of_zone z)) Z = (resp, Z')"
  then show "Z z = None \<and> (\<exists>dz. Z' = Z(z \<mapsto> dz)) \<or> \<not> accepted resp \<and> Z' = Z"
    by (auto simp: pdns_http_def accepted_def Let_def split: if_splits)
next
  fix z hdrs resp and Z Z' :: zones
  assume "h_http (pdns_host c norm) ''DELETE'' (zone_url c z) hdrs None Z = (resp, Z')"
  then show "Z z \<noteq> None \<and> Z' = Z(z := None) \<or> \<not> accepted resp \<and> Z' = Z"
    by (auto simp: pdns_http_def drop_zone_url accepted_def Let_def split: if_splits)
qed

section \<open>Properties\<close>


definition demo_dns :: Client where
  "demo_dns = NewClient ''http://ns1:8081/'' ''k''"

definition demo_zone_op :: dns_op where
  "demo_zone_op = Create_Zone ''a.org''
     [\<lparr>zr_Name = ''@'', zr_Type = ''MX'', zr_Content = ''mail.a.org.'', zr_TTL = 0, zr_Priority = 10\<rparr>,
      \<lparr>zr_Name = ''www'', zr_Type = ''A'', zr_Content = ''192.0.2.1'', zr_TTL = 60, zr_Priority = 0\<rparr>]"



text \<open>The witness: two mail exchangers of a zone.\<close>

definition demo_mx :: "string \<Rightarrow> ZoneRecord" where
  "demo_mx host = \<lparr>zr_Name = ''@'', zr_Type = ''MX'', zr_Content = host, zr_TTL = 0, zr_Priority = 10\<rparr>"

definition demo_upsert :: "string \<Rightarrow> zones machine \<Rightarrow> goerr option \<times> zones machine" where
  "demo_upsert host m = run_state (UpsertRecord (pdns_host demo_dns (\<lambda>s. s)) demo_dns ''a.org'' (demo_mx host)) m"

definition demo_zones :: "zones machine" where
  "demo_zones = \<lparr>world = [''a.org.'' \<mapsto> Map.empty], trace = []\<rparr>"


text \<open>
  The body of a patch can be read back: decoding it by the names of its members, with
  zero values for those that the encoding omits, gives the record sets it was made of.
\<close>

theorem patch_body_roundtrip: "patch_of_json (json_of_patch sets) = Some sets"
  by (rule patch_of_json_of)

end
