(* ===== verification/DbAccess.thy ===== *)
theory DbAccess
  imports Mariadb
begin

text \<open>
  Who can use which database after the operations of \<open>agent/internal/database/mariadb.go\<close>.
  The locale \<open>mariadb\<close> is what MariaDB documents about their statements: databases,
  local users with passwords, and privileges on databases, whose name in a \<open>GRANT\<close> is a
  pattern. \<open>grant_host\<close> is a host with these laws.
\<close>

section \<open>Databases, users and privileges\<close>

record mysql =
  ms_databases :: "string set"
  ms_users :: "string \<Rightarrow> string option"
  ms_grants :: "(string \<times> string) set"

text \<open>
  A database name in a \<open>GRANT\<close>: an underscore stands for any character, a percent sign for
  any text, and a backslash takes the next character literally.
\<close>

fun like :: "string \<Rightarrow> string \<Rightarrow> bool" where
  "like [] s = (s = [])"
| "like (p # ps) [] = (p = CHR ''%'' \<and> like ps [])"
| "like (p # ps) (c # s) =
     (if p = CHR ''%'' then like ps (c # s) \<or> like (p # ps) s
      else if p = CHR 0x5C then ps \<noteq> [] \<and> hd ps = c \<and> like (tl ps) s
      else (p = CHR ''_'' \<or> p = c) \<and> like ps s)"

definition may_use :: "mysql \<Rightarrow> string \<Rightarrow> string \<Rightarrow> bool" where
  "may_use st u d \<longleftrightarrow> (\<exists>pat. (u, pat) \<in> ms_grants st \<and> like pat d)"

text \<open>Names that a database with a checked name is a pattern of.\<close>

definition same_but_underscores :: "string \<Rightarrow> string \<Rightarrow> bool" where
  "same_but_underscores d d' \<longleftrightarrow> list_all2 (\<lambda>p c. p = CHR ''_'' \<or> p = c) d d'"

lemma like_ident: "list_all ident_char d \<Longrightarrow> like d d' \<longleftrightarrow> same_but_underscores d d'"
  by (induction d d' rule: like.induct)
    (auto simp: same_but_underscores_def ident_char_def is_digit_def)

lemma like_valid: "validIdent d \<Longrightarrow> like d d' \<longleftrightarrow> same_but_underscores d d'"
  by (simp add: validIdent_def like_ident)

lemma same_but_underscores_refl: "same_but_underscores d d"
  by (simp add: same_but_underscores_def list_all2_same)

section \<open>What MariaDB promises\<close>

text \<open>
  A statement that fails changes nothing. Existing users keep their password. Dropping a
  database does not touch privileges; dropping a user drops those of the user.
\<close>

locale mariadb =
  fixes h :: "'w host" and st :: "'w \<Rightarrow> mysql"
  assumes failed: "h_sql_exec h stmt args w = (Some e, w') \<Longrightarrow> st w' = st w"
    and create_database: "h_sql_exec h (create_database_sql d) [] w = (None, w') \<Longrightarrow> validIdent d \<Longrightarrow>
      st w' = (st w)\<lparr>ms_databases := insert d (ms_databases (st w))\<rparr>"
    and create_user: "h_sql_exec h create_user_sql [SqlStr u, SqlStr p] w = (None, w') \<Longrightarrow> validIdent u \<Longrightarrow>
      st w' = (st w)\<lparr>ms_users := (if u \<in> dom (ms_users (st w)) then ms_users (st w)
        else (ms_users (st w))(u \<mapsto> p))\<rparr>"
    and grant: "h_sql_exec h (grant_sql d) [SqlStr u] w = (None, w') \<Longrightarrow> validIdent d \<Longrightarrow> validIdent u \<Longrightarrow>
      st w' = (st w)\<lparr>ms_grants := insert (u, d) (ms_grants (st w))\<rparr>"
    and drop_database: "h_sql_exec h (drop_database_sql d) [] w = (None, w') \<Longrightarrow> validIdent d \<Longrightarrow>
      st w' = (st w)\<lparr>ms_databases := ms_databases (st w) - {d}\<rparr>"
    and drop_user: "h_sql_exec h drop_user_sql [SqlStr u] w = (None, w') \<Longrightarrow> validIdent u \<Longrightarrow>
      st w' = (st w)\<lparr>ms_users := (ms_users (st w))(u := None),
        ms_grants := {g \<in> ms_grants (st w). fst g \<noteq> u}\<rparr>"
    and flush: "h_sql_exec h ''FLUSH PRIVILEGES'' [] w = (None, w') \<Longrightarrow> st w' = st w"
begin

lemma run_exec:
  "run_state (db_Exec h stmt args) m = (None, m') \<Longrightarrow> h_sql_exec h stmt args (world m) = (None, world m')"
  by (auto simp: db_Exec_def prod_eq_iff)

lemma try_ok:
  assumes "run_state (try_io f wrap k) m = (None, m')"
  obtains m1 where "run_state f m = (None, m1)" and "run_state k m1 = (None, m')"
  using assms by (auto split: prod.splits option.splits)

lemma CreateDatabase_ok:
  assumes "run_state (CreateDatabase h d u p) m = (None, m')"
  shows "validIdent d \<and> validIdent u \<and> st (world m') =
    \<lparr>ms_databases = insert d (ms_databases (st (world m))),
     ms_users = (if u \<in> dom (ms_users (st (world m))) then ms_users (st (world m))
       else (ms_users (st (world m)))(u \<mapsto> p)),
     ms_grants = insert (u, d) (ms_grants (st (world m)))\<rparr>"
proof -
  have v: "validIdent d" "validIdent u"
    using assms by (auto simp: CreateDatabase_def split: if_splits)
  obtain m1 m2 m3 where "run_state (db_Exec h (create_database_sql d) []) m = (None, m1)"
    and "run_state (db_Exec h create_user_sql [SqlStr u, SqlStr p]) m1 = (None, m2)"
    and "run_state (db_Exec h (grant_sql d) [SqlStr u]) m2 = (None, m3)"
    and "run_state (db_Exec h ''FLUSH PRIVILEGES'' []) m3 = (None, m')"
    using assms v by (auto simp: CreateDatabase_def simp del: run_try_io elim!: try_ok)
  note steps = this [THEN run_exec]
  show ?thesis
    using v create_database [OF steps(1)] create_user [OF steps(2)] grant [OF steps(3)] flush [OF steps(4)]
    by simp
qed

lemma DeleteDatabase_ok:
  assumes "run_state (DeleteDatabase h d u) m = (None, m')"
  shows "validIdent d \<and> validIdent u \<and> st (world m') =
    \<lparr>ms_databases = ms_databases (st (world m)) - {d},
     ms_users = (ms_users (st (world m)))(u := None),
     ms_grants = {g \<in> ms_grants (st (world m)). fst g \<noteq> u}\<rparr>"
proof -
  have v: "validIdent d" "validIdent u"
    using assms by (auto simp: DeleteDatabase_def split: if_splits)
  obtain m1 m2 where "run_state (db_Exec h (drop_database_sql d) []) m = (None, m1)"
    and "run_state (db_Exec h drop_user_sql [SqlStr u]) m1 = (None, m2)"
    and "run_state (db_Exec h ''FLUSH PRIVILEGES'' []) m2 = (None, m')"
    using assms v by (auto simp: DeleteDatabase_def simp del: run_try_io elim!: try_ok)
  note steps = this [THEN run_exec]
  show ?thesis
    using v drop_database [OF steps(1)] drop_user [OF steps(2)] flush [OF steps(3)] by simp
qed

end

section \<open>A host with these laws\<close>

text \<open>Its world is the state of MariaDB; statements are told apart by their text.\<close>

definition embedded_name :: "string \<Rightarrow> string" where
  "embedded_name stmt = takeWhile (\<lambda>c. c \<noteq> backquote) (drop 1 (dropWhile (\<lambda>c. c \<noteq> backquote) stmt))"

definition grant_exec :: "string \<Rightarrow> sqlval list \<Rightarrow> mysql \<Rightarrow> goerr option \<times> mysql" where
  "grant_exec stmt args t =
     (case args of
        [] \<Rightarrow>
          if HasPrefix stmt ''CREATE'' then (None, t\<lparr>ms_databases := insert (embedded_name stmt) (ms_databases t)\<rparr>)
          else if HasPrefix stmt ''DROP'' then (None, t\<lparr>ms_databases := ms_databases t - {embedded_name stmt}\<rparr>)
          else (None, t)
      | [SqlStr u] \<Rightarrow>
          if HasPrefix stmt ''GRANT'' then (None, t\<lparr>ms_grants := insert (u, embedded_name stmt) (ms_grants t)\<rparr>)
          else (None, t\<lparr>ms_users := (ms_users t)(u := None), ms_grants := {g \<in> ms_grants t. fst g \<noteq> u}\<rparr>)
      | [SqlStr u, SqlStr p] \<Rightarrow>
          (None, t\<lparr>ms_users := (if u \<in> dom (ms_users t) then ms_users t else (ms_users t)(u \<mapsto> p))\<rparr>)
      | _ \<Rightarrow> (Some ''syntax error'', t))"

definition grant_host :: "mysql host" where
  "grant_host = idle_host\<lparr>h_sql_exec := grant_exec\<rparr>"

lemma embedded_name_sql:
  assumes "validIdent d"
  shows "embedded_name (create_database_sql d) = d" "embedded_name (grant_sql d) = d"
    "embedded_name (drop_database_sql d) = d"
proof -
  have "takeWhile (\<lambda>c. c \<noteq> backquote) (d @ backquote # r) = d" for r
    using validIdent_no_backquote [OF assms] by (auto simp: takeWhile_append)
  then show "embedded_name (create_database_sql d) = d" "embedded_name (grant_sql d) = d"
    "embedded_name (drop_database_sql d) = d"
    by (simp_all add: embedded_name_def create_database_sql_def grant_sql_def drop_database_sql_def)
qed

lemma statement_heads:
  "HasPrefix (create_database_sql d) ''CREATE''" "HasPrefix (drop_database_sql d) ''DROP''"
  "\<not> HasPrefix (drop_database_sql d) ''CREATE''" "HasPrefix (grant_sql d) ''GRANT''"
  "\<not> HasPrefix drop_user_sql ''GRANT''" "\<not> HasPrefix ''FLUSH PRIVILEGES'' ''CREATE''"
  "\<not> HasPrefix ''FLUSH PRIVILEGES'' ''DROP''"
  by (simp_all add: HasPrefix_def create_database_sql_def drop_database_sql_def grant_sql_def drop_user_sql_def)

interpretation grants: mariadb grant_host "\<lambda>t. t"
proof unfold_locales
  fix stmt args t e t'
  assume "h_sql_exec grant_host stmt args t = (Some e, t')"
  then show "t' = t"
    by (auto simp: grant_host_def grant_exec_def split: list.splits sqlval.splits if_splits)
qed (auto simp: grant_host_def grant_exec_def statement_heads embedded_name_sql)

section \<open>Properties\<close>


definition demo_mysql :: "mysql machine" where
  "demo_mysql = \<lparr>world = \<lparr>ms_databases = {''shopX1''}, ms_users = [''ann'' \<mapsto> ''old''],
     ms_grants = {(''ann'', ''shopX1'')}\<rparr>, trace = []\<rparr>"

definition demo_db_created :: "mysql machine" where
  "demo_db_created = snd (run_state (CreateDatabase grant_host ''shop_1'' ''bob'' ''pw'') demo_mysql)"

definition demo_db_deleted :: "mysql machine" where
  "demo_db_deleted = snd (run_state (DeleteDatabase grant_host ''shop_1'' ''bob'') demo_db_created)"

lemma demo_db_runs:
  "run_state (CreateDatabase grant_host ''shop_1'' ''bob'' ''pw'') demo_mysql = (None, demo_db_created)"
  "run_state (DeleteDatabase grant_host ''shop_1'' ''bob'') demo_db_created = (None, demo_db_deleted)"
proof -
  have v: "validIdent ''shop_1''" "validIdent ''bob''" by code_simp+
  have "fst (run_state (CreateDatabase grant_host ''shop_1'' ''bob'' ''pw'') demo_mysql) = None"
    "fst (run_state (DeleteDatabase grant_host ''shop_1'' ''bob'') demo_db_created) = None"
    by (simp_all add: CreateDatabase_def DeleteDatabase_def v db_Exec_def grant_host_def grant_exec_def)
  then show "run_state (CreateDatabase grant_host ''shop_1'' ''bob'' ''pw'') demo_mysql = (None, demo_db_created)"
    "run_state (DeleteDatabase grant_host ''shop_1'' ''bob'') demo_db_created = (None, demo_db_deleted)"
    by (simp_all add: demo_db_created_def demo_db_deleted_def prod_eq_iff)
qed




end
