(* ===== verification/Regexp.thy ===== *)
theory Regexp
  imports Accounts Mariadb
begin

text \<open>
  The regular expressions of the agent, from their text. Accounts and databases check names
  with \<open>regexp.MustCompile(...).MatchString\<close>; the theories of these components use
  predicates on characters and lengths. Here the syntax that the two patterns use is
  parsed (anchors, classes of characters and ranges, counted repetition), a pattern has its
  language, and the predicates are shown to decide these languages.
\<close>

section \<open>Expressions and their languages\<close>

text \<open>A class is a list of ranges.\<close>

datatype regex =
    Empty
  | Class "(char \<times> char) list"
  | Seq regex regex
  | Repeat regex nat nat

definition char_code :: "char \<Rightarrow> nat" where
  "char_code = of_char"

definition in_class :: "(char \<times> char) list \<Rightarrow> char \<Rightarrow> bool" where
  "in_class cl c \<longleftrightarrow> list_ex (\<lambda>(lo, hi). char_code lo \<le> char_code c \<and> char_code c \<le> char_code hi) cl"

definition conc :: "string set \<Rightarrow> string set \<Rightarrow> string set" where
  "conc A B = {u @ v |u v. u \<in> A \<and> v \<in> B}"

primrec power :: "string set \<Rightarrow> nat \<Rightarrow> string set" where
  "power A 0 = {[]}"
| "power A (Suc n) = conc A (power A n)"

primrec lang :: "regex \<Rightarrow> string set" where
  "lang Empty = {[]}"
| "lang (Class cl) = {[c] |c. in_class cl c}"
| "lang (Seq r s) = conc (lang r) (lang s)"
| "lang (Repeat r lo hi) = (\<Union>n\<in>{lo..hi}. power (lang r) n)"

lemma mem_conc: "w \<in> conc A B \<longleftrightarrow> (\<exists>u v. w = u @ v \<and> u \<in> A \<and> v \<in> B)"
  by (auto simp: conc_def)

lemma mem_conc_class:
  "w \<in> conc {[c] |c. P c} B \<longleftrightarrow> (\<exists>c v. w = c # v \<and> P c \<and> v \<in> B)"
  unfolding mem_conc mem_Collect_eq by (metis append_Cons append_Nil)

lemma power_class: "w \<in> power {[c] |c. P c} n \<longleftrightarrow> length w = n \<and> list_all P w"
proof (induction n arbitrary: w)
  case (Suc n)
  show ?case by (cases w) (auto simp: mem_conc_class Suc.IH)
qed auto

text \<open>Repetition of a class: a length and a condition on every character.\<close>

lemma mem_repeat_class:
  "w \<in> lang (Repeat (Class cl) lo hi) \<longleftrightarrow> lo \<le> length w \<and> length w \<le> hi \<and> list_all (in_class cl) w"
  by (auto simp: power_class)

section \<open>Syntax\<close>

text \<open>
  After an opening bracket: characters and ranges up to the closing bracket. A hyphen that
  is not between two characters stands for itself.
\<close>

function parse_class :: "(char \<times> char) list \<Rightarrow> string \<Rightarrow> ((char \<times> char) list \<times> string) option" where
  "parse_class acc [] = None"
| "parse_class acc (a # s) =
     (if a = CHR '']'' then Some (rev acc, s)
      else if 2 \<le> length s \<and> s ! 0 = CHR ''-'' \<and> s ! 1 \<noteq> CHR '']''
      then parse_class ((a, s ! 1) # acc) (drop 2 s)
      else parse_class ((a, a) # acc) s)"
  by pat_completeness auto
termination by (relation "measure (\<lambda>(acc, s). length s)") auto

lemma parse_class_shorter: "parse_class acc s = Some (cl, rest) \<Longrightarrow> length rest < length s"
  by (induction acc s rule: parse_class.induct) (fastforce split: if_splits)+

text \<open>\<open>{m,n}\<close> with the text after it; once without braces.\<close>

definition parse_count :: "string \<Rightarrow> ((nat \<times> nat) \<times> string) option" where
  "parse_count s =
     (if HasPrefix s ''{'' then
        (let ds = takeWhile is_digit (drop 1 s); s1 = dropWhile is_digit (drop 1 s);
             es = takeWhile is_digit (drop 1 s1); s2 = dropWhile is_digit (drop 1 s1)
         in if ds \<noteq> [] \<and> es \<noteq> [] \<and> HasPrefix s1 '','' \<and> HasPrefix s2 ''}''
            then Some ((dec_value 0 ds, dec_value 0 es), drop 1 s2) else None)
      else Some ((1, 1), s))"

lemma parse_count_le: "parse_count s = Some (mn, rest) \<Longrightarrow> length rest \<le> length s"
  by (auto simp: parse_count_def Let_def split: if_splits
      intro!: order_trans [OF diff_le_self] order_trans [OF length_dropWhile_le])

text \<open>A sequence of classes, each with its count, up to the dollar sign that ends the text.\<close>

function parse_items :: "string \<Rightarrow> regex option" where
  "parse_items [] = None"
| "parse_items (a # s) =
     (if a = CHR ''$'' then (if s = [] then Some Empty else None)
      else if a = CHR ''['' then
        (case parse_class [] s of
           None \<Rightarrow> None
         | Some (cl, s1) \<Rightarrow>
        (case parse_count s1 of
           None \<Rightarrow> None
         | Some ((m, n), s2) \<Rightarrow> map_option (Seq (Repeat (Class cl) m n)) (parse_items s2)))
      else None)"
  by pat_completeness auto
termination
  by (relation "measure length") (auto dest!: parse_class_shorter parse_count_le)

definition compile :: "string \<Rightarrow> regex option" where
  "compile p = (if HasPrefix p ''^'' then parse_items (drop 1 p) else None)"

text \<open>\<open>MatchString\<close> of an anchored pattern: the text is in its language.\<close>

definition MatchString :: "string \<Rightarrow> string \<Rightarrow> bool" where
  "MatchString p s \<longleftrightarrow> (case compile p of None \<Rightarrow> False | Some r \<Rightarrow> s \<in> lang r)"

section \<open>The two patterns\<close>

definition username_pattern :: string where
  "username_pattern = ''^[a-z_][a-z0-9_-]{0,31}$''"

definition ident_pattern :: string where
  "ident_pattern = ''^[a-zA-Z0-9_]{1,64}$''"

definition first_class :: "(char \<times> char) list" where
  "first_class = [(CHR ''a'', CHR ''z''), (CHR ''_'', CHR ''_'')]"

definition rest_class :: "(char \<times> char) list" where
  "rest_class = [(CHR ''a'', CHR ''z''), (CHR ''0'', CHR ''9''), (CHR ''_'', CHR ''_''), (CHR ''-'', CHR ''-'')]"

definition ident_class :: "(char \<times> char) list" where
  "ident_class = [(CHR ''a'', CHR ''z''), (CHR ''A'', CHR ''Z''), (CHR ''0'', CHR ''9''), (CHR ''_'', CHR ''_'')]"

lemma compile_username:
  "compile username_pattern = Some (Seq (Repeat (Class first_class) 1 1)
     (Seq (Repeat (Class rest_class) 0 31) Empty))"
  by code_simp

lemma compile_ident: "compile ident_pattern = Some (Seq (Repeat (Class ident_class) 1 64) Empty)"
  by code_simp

text \<open>The predicates of the components are these classes.\<close>

lemma char_code_eq: "char_code c = char_code d \<longleftrightarrow> c = d"
  by (simp add: char_code_def)

lemma single_class: "char_code d \<le> char_code c \<and> char_code c \<le> char_code d \<longleftrightarrow> c = d"
  by (auto simp: char_code_eq [symmetric])

lemmas class_simps = fun_eq_iff in_class_def single_class user_first_def user_rest_def ident_char_def
  is_digit_def

lemma classes:
  "in_class first_class = user_first" "in_class rest_class = user_rest" "in_class ident_class = ident_char"
  by (auto simp: class_simps first_class_def rest_class_def ident_class_def, auto simp: char_code_def)

lemma conc_Nil [simp]: "conc A {[]} = A"
  by (auto simp: conc_def)

lemma conc_once: "w \<in> conc (lang (Repeat (Class cl) 1 1)) B \<longleftrightarrow>
    (\<exists>c v. w = c # v \<and> in_class cl c \<and> v \<in> B)"
  by (simp add: mem_conc_class)

lemma username_lang: "MatchString username_pattern w \<longleftrightarrow>
    (\<exists>c v. w = c # v \<and> user_first c \<and> length v \<le> 31 \<and> list_all user_rest v)"
  unfolding MatchString_def compile_username option.case lang.simps(1,3) conc_Nil conc_once
    mem_repeat_class classes by simp

text \<open>
  C31: the checks of user and database names are the regular expressions of the source.
  Each predicate holds of a name exactly if the name is in the language of the pattern,
  parsed from its text.
\<close>

theorem names_are_matched:
  "validUsername s = MatchString username_pattern s \<and> validIdent s = MatchString ident_pattern s"
proof
  show "validUsername s = MatchString username_pattern s"
    unfolding username_lang by (cases s) auto
  show "validIdent s = MatchString ident_pattern s"
    unfolding MatchString_def compile_ident option.case lang.simps(1,3) conc_Nil mem_repeat_class
      classes validIdent_def ..
qed

end
