(* ===== verification/Spec2Isabelle.thy ===== *)
theory Spec2Isabelle
  imports ApiMain Deployment AgentRun DkimFiles VhostFiles MailDb DnsZone DbAccess Regexp
begin

text \<open>
  Gratis is a hosting control panel of two Go programs. The \<^emph>\<open>control plane\<close>
  (\<open>src/api\<close>) is one process with a gRPC server that agents connect to and an HTTP API
  for the frontend. An \<^emph>\<open>agent\<close> (\<open>src/agent\<close>) runs as root on every server: it
  registers with a token, sends heartbeats, and carries out commands on its host. A request
  travels from an HTTP handler (theory \<open>Routes\<close>) through \<open>SendCommand\<close> and a session
  (\<open>Server\<close>, \<open>ServerRun\<close>) to the agent (\<open>AgentRpc\<close>), whose dispatcher
  (\<open>Dispatch\<close>) calls a module; the result comes back the same way.

  \<^bold>\<open>Foundations.\<close> \<open>Prelude\<close>: Go strings as byte lists, with the functions of
  \<open>strings\<close>, \<open>strconv\<close> and \<open>fmt\<close> that are used. \<open>Paths\<close>:
  \<open>filepath.Join\<close> and \<open>Clean\<close>. \<open>Float64\<close>: the floating-point operations of
  the metrics. \<open>Machine\<close>: programs, files, SQL, HTTP and \<open>statfs\<close> are the fields of
  a record \<open>host\<close>, functions on a world of any type; an operation is a computation in the
  library's state monad that also records its calls, so that a property can speak of the
  outcome, of the order of the calls (\<open>trace\<close>), of the calls that are possible at all
  (\<open>emits\<close>) and of what is left alone (\<open>keeps\<close>). A Go error is \<open>Some\<close> of its
  message, and \<open>try_io\<close> is the idiom that returns it. \<open>Proto\<close>: the messages of
  \<open>agent.proto\<close>; a panic is a value of \<open>outcome\<close>.

  \<^bold>\<open>The agent's modules\<close>, one theory per file, every function of the file a
  definition of the same name: \<open>Accounts\<close> (\<open>system/accounts.go\<close>), \<open>Metrics\<close>
  (\<open>system/metrics.go\<close>), \<open>Mariadb\<close> (\<open>database/mariadb.go\<close>), \<open>Powerdns\<close>
  (\<open>dns/powerdns.go\<close>), \<open>Nginx\<close> (\<open>webserver/nginx.go\<close>), \<open>Dkim\<close>
  (\<open>email/dkim.go\<close>), \<open>Mail\<close> (\<open>email/manager.go\<close>; its \<open>CreateAccount\<close> and
  \<open>DeleteAccount\<close> are \<open>CreateMailbox\<close> and \<open>DeleteMailbox\<close>). Their lemmas show
  the outcome of each operation on every path, the order of its calls, and that these stay
  within bounds that do not depend on the arguments.

  \<^bold>\<open>What the modules achieve.\<close> Four theories say what a host must promise, as a
  locale, what the operations mean under it, and give a host with these laws:
  \<open>Hostfs\<close> (\<open>file_host\<close>, regular files), used by \<open>VhostFiles\<close> for the sites of
  nginx and by \<open>DkimFiles\<close> for the tables of OpenDKIM; \<open>MailDb\<close> (\<open>mail_db\<close>, the
  statements of the mail manager under its schema), with a directory of domains, mailboxes
  and forwarders that the manager refines; \<open>DnsZone\<close> (\<open>dns_server\<close>, the PowerDNS
  API), with the zones that the client refines; \<open>DbAccess\<close> (\<open>mariadb\<close>, databases,
  users and privileges), with who may use which database. \<open>Regexp\<close> gives the patterns of the name
  checks their language.

  \<^bold>\<open>The agent.\<close> \<open>Dispatch\<close> (\<open>rpc/dispatch.go\<close>) has every handler and the
  type switch. \<open>AgentRpc\<close> (\<open>rpc/agent.go\<close>, \<open>cmd/agent/main.go\<close>): start-up,
  registration, heartbeats, \<open>agent_run\<close>, which may run for ever and is a partial
  function, and the session as the step relation \<open>agent_step\<close>, with one goroutine per
  command as a multiset of running commands. The locale \<open>command_service\<close> is what a
  session needs of a dispatcher; \<open>Dispatch\<close> is its instance. \<open>AgentRun\<close>:
  \<open>connect\<close> and \<open>session\<close> as functions of what happens to them, shown to take these
  steps and to report the CPU usage from sample to sample.

  \<^bold>\<open>The control plane.\<close> \<open>Store\<close> (\<open>store/store.go\<close>): tokens and servers, with
  the locale \<open>pg_tables\<close> for PostgreSQL and a relational instance. \<open>Auth\<close>
  (\<open>grpc/server.go\<close>): \<open>authenticate\<close> and the first half of \<open>Connect\<close>.
  \<open>Server\<close>: the registry, sessions and \<open>SendCommand\<close> as the step relation
  \<open>server_step\<close>, with an invariant by rule induction. \<open>ServerRun\<close>: \<open>Connect\<close>
  and \<open>handleSession\<close> as functions, shown to take these steps, and \<open>Run\<close> with its
  shutdown as \<open>process_step\<close>. \<open>ControlPlane\<close>: server and store together, where a
  session begins only after an accepted registration. \<open>Routes\<close> (\<open>grpc/routes.go\<close>): the handlers, the
  decoding of bodies and the routing table. \<open>ApiMain\<close> (\<open>cmd/api/main.go\<close>).

  \<^bold>\<open>Both together.\<close> \<open>Network\<close> puts an agent at the other end of every session:
  \<open>network_step\<close> interleaves the steps of the server with those of the agents, over
  streams that keep the order and may break. Its lemmas follow a command from the caller to
  the dispatcher and the result back, so a returned result is traced to the agent of the
  server that was asked; \<open>NetworkLive\<close> shows the converse, that from every reachable
  state a command to a live agent can be answered; and \<open>NetworkOnce\<close> that every command is
  run at most once and by one agent, that commands arrive in the order they were sent in, and
  that a timeout does not take a command back. \<open>NetworkRpc\<close> states what all of this is
  for, as the abstract specification \<open>rpc_step\<close> of a remote procedure call, and shows that
  every network of dispatchers that answer under the identifier of the command (the locale
  \<open>command_network\<close>) refines it, step by step. \<open>Deployment\<close> joins the network and the
  store: a command reaches an agent only if a token is bound to the server it registered as.
  The end of this theory follows the requests to create and to delete a virtual host over
  this network down to the files on the agent's host, and the metrics that the API shows
  back to a heartbeat of the agent.

  \<^bold>\<open>Bounds.\<close> Machine integers are words, the queues have the capacities of the code
  (32 messages per session, one result per call, two reports of \<open>Run\<close>). No definition
  needs fuel: loops over text end because it gets shorter, and the one loop that may not end
  is \<open>agent_run\<close>, whose termination is characterised. Time is not measured: a timeout is
  a step that is always possible.

  \<^bold>\<open>Not modelled.\<close> Logging; the text of JSON and HTTP, below the values that are encoded;
  gRPC, \<open>net/http\<close>, SQL drivers, PostgreSQL, MariaDB, PowerDNS and the programs that are
  run, which are parameters; the generated descriptors of \<open>src/gen\<close> beyond the message
  types; the frontend (\<open>src/web\<close>) and the deployment files. Signals are the
  cancellation of the context. Goroutines interleave at channel operations, locks and stream
  operations; data races between them are not represented.
\<close>

section \<open>Registration, both ends\<close>

text \<open>
  Server and agent agree on the outcome of a registration. The agent's first message,
  authenticated by the server, is answered; on the answer the agent takes the identifier of
  the session the server opens for its host name, or ends with the server's error.
\<close>

theorem registration_agrees:
  "let reg = register_message token host arch;
       srv = fst (connect_prologue sha store b now (\<lambda>_. None) (Inr reg) p)
   in case snd srv of
        Inl e \<Rightarrow> agent_register api token host arch None None (\<lambda>_. None) (Inr (hd (fst srv))) =
          ([reg], Inl (''registration rejected: '' @ e))
      | Inr (sid, hostname) \<Rightarrow> hostname = host \<and>
          agent_register api token host arch None None (\<lambda>_. None) (Inr (hd (fst srv))) = ([reg], Inr sid)"
  by (simp add: connect_prologue_def register_message_def agent_register_def Let_def
      split: prod.splits option.splits)

section \<open>A virtual host, from the request to the files\<close>

text \<open>
  \<open>SendCommand\<close> against a connected agent that is idle: the command travels, the agent
  dispatches it on its host, the result travels back (theory \<open>Server\<close> shows that the
  steps for this exist). A panic of the agent leaves the call to its timeout.
\<close>

definition agent_send :: "'w host \<Rightarrow> Dispatcher \<Rightarrow> string \<Rightarrow> 'w machine \<Rightarrow> string
    \<Rightarrow> CommandPayload option \<Rightarrow> goerr + CommandResult" where
  "agent_send h d cid m serverID payload =
     (case fst (run_state (Dispatch h d \<lparr>cmd_CommandId = cid, cmd_Payload = payload\<rparr>) m) of
        Done r \<Rightarrow> Inr r
      | Panic msg \<Rightarrow> Inl timeout_error)"

definition agent_calls :: "'w host \<Rightarrow> Dispatcher \<Rightarrow> string \<Rightarrow> 'w machine \<Rightarrow> CommandPayload option \<Rightarrow> call list" where
  "agent_calls h d cid m payload =
     drop (length (trace m))
       (trace (snd (run_state (Dispatch h d \<lparr>cmd_CommandId = cid, cmd_Payload = payload\<rparr>) m)))"

definition vhost_config :: "VhostBody \<Rightarrow> VhostConfig" where
  "vhost_config b = \<lparr>Domain = vb_Domain b, Aliases = vb_Aliases b, Docroot = vb_Docroot b,
     PHPVersion = vb_PHPVersion b\<rparr>"

lemma dispatch_vhost:
  "run_state (Dispatch h d \<lparr>cmd_CommandId = cid, cmd_Payload = vhost_command b\<rparr>) m =
     (let r = run_state (CreateVhost h (vhost_config b)) m in
      (Done (result_of cid (fst r)), snd r))"
  by (simp add: Dispatch_def vhost_command_def handleCreateVhost_def vhost_config_def Let_def)


text \<open>The witness: a request that succeeds, on a host where nothing fails.\<close>

definition demo_body :: VhostBody where
  "demo_body = zero_body\<lparr>vb_Domain := ''a.org''\<rparr>"

definition demo_request :: http_request where
  "demo_request = \<lparr>hr_Method = ''POST'', hr_Path = [''api'', ''v1'', ''servers'', ''srv_1'', ''vhosts''],
     hr_AdminKey = [], hr_Body = Inr (JObj [(''domain'', JStr ''a.org'')])\<rparr>"


text \<open>
  On a host whose files behave as documented, status 201 means that the site's file
  holds the rendered template and that the files of the other sites are as before, for a
  domain without slashes.
\<close>

theorem created_vhost_is_on_disk:
  assumes "file_host h files managed" and "decode_vhost (hr_Body r) = Some b" and "vb_Domain b \<noteq> []"
    and "CHR ''/'' \<notin> set (vb_Domain b)" and "CHR ''/'' \<notin> set site" and "managed (conf_path site)"
    and "status (handleCreateVhost_http (agent_send h d cid m) sid r) = 201"
  shows "files (world (snd (run_state (Dispatch h d \<lparr>cmd_CommandId = cid, cmd_Payload = vhost_command b\<rparr>) m)))
      (conf_path site) =
    (if site = vb_Domain b then Some (render_vhost (with_docroot (vhost_config b)))
     else files (world m) (conf_path site))"
proof -
  let ?r = "run_state (CreateVhost h (vhost_config b)) m"
  have "fst ?r = None"
    using assms(2,3,7) by (auto simp: handleCreateVhost_http_def agent_send_def dispatch_vhost Let_def
        command_response_def result_of_def http_Error_def split: option.splits)
  then have "run_state (CreateVhost h (vhost_config b)) m = (None, snd ?r)" by (simp add: prod_eq_iff)
  then have "files (world (snd ?r)) (conf_path site) =
      (if site = Domain (vhost_config b) then Some (render_vhost (with_docroot (vhost_config b)))
       else files (world m) (conf_path site))"
    by (rule file_host.run_CreateVhost [OF assms(1)]) (use assms in \<open>simp_all add: vhost_config_def\<close>)
  then show ?thesis by (simp add: dispatch_vhost Let_def vhost_config_def)
qed

theorem created_vhost_is_on_disk_witness:
  "world (snd (run_state (Dispatch mem_host (NewDispatcher False None False)
      \<lparr>cmd_CommandId = ''7'', cmd_Payload = vhost_command demo_body\<rparr>) \<lparr>world = Map.empty, trace = []\<rparr>))
      (conf_path ''a.org'') = Some (render_vhost (with_docroot (vhost_config demo_body)))"
proof -
  let ?m = "\<lparr>world = Map.empty, trace = []\<rparr> :: mem machine"
  have st: "status (handleCreateVhost_http (agent_send mem_host (NewDispatcher False None False) ''7'' ?m)
      ''srv_1'' demo_request) = 201"
    by code_simp
  have dec: "decode_vhost (hr_Body demo_request) = Some demo_body" by code_simp
  show ?thesis
    using created_vhost_is_on_disk [OF mem.file_host_axioms dec _ _ _ _ st, of "''a.org''"]
    by (simp add: demo_body_def)
qed

section \<open>A virtual host, over the network\<close>

text \<open>
  Now the handler's \<open>SendCommand\<close> is a call of a network: many calls, many agents, lost
  messages and broken streams.
\<close>

lemma asked_dispatch:
  assumes "network_reachable quote (\<lambda>k. dispatch_answers (hs k) (ds k)) n"
    and "calls (nw_server n) i = Some (Returned c (Inr cr))" and "nw_asked n i = Some (sid, p)"
  obtains k a w w' tr where "sessions (nw_server n) k = Some a" and "ss_serverID a = sid"
    and "run_state (Dispatch (hs k) (ds k) \<lparr>cmd_CommandId = cr_CommandId cr, cmd_Payload = p\<rparr>)
      \<lparr>world = w, trace = []\<rparr> = (Done cr, \<lparr>world = w', trace = tr\<rparr>)"
  using dispatch_traced [OF assms(1,2)] assms(3) unfolding asks_def dispatch_answers_def
  by (metis option.inject prod.inject)


text \<open>The witness: the request of above, over the run of theory \<open>Network\<close>.\<close>

definition demo_success :: CommandResult where
  "demo_success = \<lparr>cr_CommandId = ''7'', cr_Success = True, cr_Error = []\<rparr>"

definition demo_trace :: "call list" where
  "demo_trace = trace (snd (run_state (CreateVhost mem_host (vhost_config demo_body))
     \<lparr>world = Map.empty, trace = []\<rparr>))"


text \<open>Deleting a site: the command and what its success means.\<close>

definition delete_command :: "string \<Rightarrow> CommandPayload option" where
  "delete_command d = Some (Command_DeleteVhost \<lparr>dv_Domain = d\<rparr>)"

definition delete_request_for :: "string \<Rightarrow> string \<Rightarrow> http_request \<Rightarrow> bool" where
  "delete_request_for sid d r \<longleftrightarrow> hr_Method r = ''DELETE'' \<and> sid \<noteq> [] \<and> d \<noteq> [] \<and>
     hr_Path r = [''api'', ''v1'', ''servers'', sid, ''vhosts'', d]"

lemma serve_delete:
  "delete_request_for sid d r \<Longrightarrow>
     serve sha key store raw now order send r s p = (command_response 204 (send sid (delete_command d)), p)"
  by (simp add: delete_request_for_def serve_def matching_def routes_def match_method_def
      serve_endpoint_def handleDeleteVhost_http_def delete_command_def)

lemma dispatch_delete:
  "run_state (Dispatch h ds \<lparr>cmd_CommandId = cid, cmd_Payload = delete_command d\<rparr>) m =
     (let r = run_state (DeleteVhost h d) m in (Done (result_of cid (fst r)), snd r))"
  by (simp add: Dispatch_def delete_command_def handleDeleteVhost_def Let_def)

lemma DeleteVhost_success:
  assumes "run_state (DeleteVhost h d) m = (None, m')"
  shows "trace m' = trace m @ [CRemove (link_path d), CRemove (conf_path d), CExec ''systemctl'' [''reload'', ''nginx'']]"
  using assms by (auto simp: DeleteVhost_def reloadNginx_def run_checked_def host_ops Let_def
      split: prod.splits option.splits fs_err.splits if_splits)


text \<open>The witness: a site is deleted on a host that has another one.\<close>

definition two_sites :: mem where
  "two_sites = [conf_path ''a.org'' \<mapsto> ''server {}'', conf_path ''b.org'' \<mapsto> ''server {}'']"

definition delete_trace :: "call list" where
  "delete_trace = trace (snd (run_state (DeleteVhost mem_host ''a.org'') \<lparr>world = two_sites, trace = []\<rparr>))"

definition delete_a_org :: http_request where
  "delete_a_org = \<lparr>hr_Method = ''DELETE'', hr_Path = [''api'', ''v1'', ''servers'', ''srv_1'', ''vhosts'', ''a.org''],
     hr_AdminKey = [], hr_Body = Inl ''EOF''\<rparr>"


section \<open>Metrics, from the agent to the page\<close>


text \<open>The witness: a session, and one heartbeat on its way.\<close>

definition idle_beat :: Heartbeat where
  "idle_beat = \<lparr>hb_Timestamp = 0, hb_Metrics = Some zero_metrics, hb_Services = []\<rparr>"

definition beating :: network where
  "beating = new_network\<lparr>
     nw_server := set_session 0 ((new_session ''srv_1'' ''web1'')\<lparr>ss_lastMetrics := Some zero_metrics, ss_lastSeen := 7\<rparr>)
       demo_connected,
     nw_agents := (\<lambda>_. new_agent_session)(0 := new_agent_session
       \<lparr>as_sent := [Some (AgentMessage_Heartbeat idle_beat)]\<rparr>)\<rparr>"

lemma beating_reachable: "network_reachable quote answers beating"
proof -
  let ?msg = "Some (AgentMessage_Heartbeat idle_beat)"
  let ?g = "new_agent_session\<lparr>as_sent := [?msg]\<rparr>"
  let ?n2 = "demo_joined\<lparr>nw_agents := (\<lambda>_. new_agent_session)(0 := ?g), nw_up := (\<lambda>_. [])(0 := [?msg])\<rparr>"
  have "agent_step (answers 0) new_agent_session ?g"
    using agent_step.heartbeat [of new_agent_session "answers 0" idle_beat] by (simp add: new_agent_session_def)
  then have 2: "network_step quote answers demo_joined ?n2"
    using network_step.agent [of answers 0 demo_joined ?g quote]
    by (simp add: demo_joined_def new_network_def new_agent_session_def)
  have 3: "network_step quote answers ?n2 beating"
    using network_step.receive [of ?n2 0 "new_session ''srv_1'' ''web1''" ?msg "[]" quote answers 7]
    by (simp add: beating_def demo_joined_def new_network_def demo_simps idle_beat_def fun_upd_idem)
  show ?thesis unfolding network_reachable_def
    using rtranclp_3 [of "network_step quote answers", OF demo_join 2 3] .
qed

definition shown_info :: server_info_response where
  "shown_info = \<lparr>re_ServerID = ''srv_1'', re_Hostname = ''web1'', re_Online = True,
     re_LastSeen = rfc3339 7, re_Metrics = Some (metrics_of zero_metrics)\<rparr>"


end
